(* ===== verification/Prelude.thy ===== *)
theory Prelude
  imports Main "HOL-Library.AList" "HOL-Library.Multiset" "HOL-Library.Char_ord"
    "HOL-Library.List_Lexorder"
begin

text \<open>
  Shared types, helpers and automation of the development.

  \<^item> Go maps. A map is an association list with distinct keys; the order of the list is the
    order in which the runtime happens to enumerate the map in a \<open>range\<close> loop. Go leaves that
    order open, so no theorem fixes it: every statement quantifies over all lists, and the step
    relation of theory System may permute the entries at any time.
  \<^item> Go slices sorted with \<open>sort.Slice\<close>: the insertion sort the Go library runs on short slices,
    with the comparator as an argument.
  \<^item> Go strings are byte strings (\<open>char list\<close>); case folding is modelled on ASCII letters.
  \<^item> \<open>time.Time\<close> is a count of nanoseconds, \<open>time.Duration\<close> too.
\<close>

section \<open>Types\<close>

type_synonym time = int
type_synonym duration = int
type_synonym uuid = nat

definition Second :: duration where
  "Second = 1000000000"

definition Millisecond :: duration where
  "Millisecond = 1000000"

definition Minute :: duration where
  "Minute = 60 * Second"

text \<open>Two's complement wrap-around of Go's 64-bit \<open>int\<close> and \<open>int64\<close>.\<close>

definition wrap64 :: "int \<Rightarrow> int" where
  "wrap64 x = (x + 2 ^ 63) mod 2 ^ 64 - 2 ^ 63"

lemma wrap64_in_range: "- (2 ^ 63) \<le> x \<Longrightarrow> x < 2 ^ 63 \<Longrightarrow> wrap64 x = x"
  by (simp add: wrap64_def)

text \<open>A Go call that either returns or panics.\<close>

datatype 'a outcome = Returns 'a | Panics string

text \<open>
  \<open>reads\<close> collects what the operations read from a state after an update; \<open>inv_intro\<close> what an
  update keeps of an invariant.
\<close>

named_theorems reads
named_theorems inv_intro

section \<open>Maps as association lists\<close>

abbreviation lookup :: "('k \<times> 'v) list \<Rightarrow> 'k \<Rightarrow> 'v option" where
  "lookup \<equiv> map_of"

abbreviation keys :: "('k \<times> 'v) list \<Rightarrow> 'k list" where
  "keys m \<equiv> map fst m"

lemma lookup_update [simp, reads]:
  "lookup (AList.update k v m) k' = (if k' = k then Some v else lookup m k')"
  by (simp add: update_conv')

lemma lookup_delete [simp, reads]:
  "lookup (AList.delete k m) k' = (if k' = k then None else lookup m k')"
  by (simp add: delete_conv' fun_upd_def)

lemma distinct_keys_update [simp, inv_intro]:
  "distinct (keys m) \<Longrightarrow> distinct (keys (AList.update k v m))"
  by (rule distinct_update)

lemma distinct_keys_delete [simp, inv_intro]:
  "distinct (keys m) \<Longrightarrow> distinct (keys (AList.delete k m))"
  by (rule distinct_delete)

lemma update_not_Nil [simp]: "AList.update k v m \<noteq> []"
  by (cases m) auto

lemma in_set_lookup: "distinct (keys m) \<Longrightarrow> (k, v) \<in> set m \<longleftrightarrow> lookup m k = Some v"
  by (rule Map.map_of_eq_Some_iff [symmetric])

lemma lookup_in_keys: "lookup m k = Some v \<Longrightarrow> k \<in> set (keys m)"
  by (force dest: map_of_SomeD)

lemma in_values_lookup:
  "distinct (keys m) \<Longrightarrow> v \<in> snd ` set m \<longleftrightarrow> (\<exists>k. lookup m k = Some v)"
  by (force simp: in_set_lookup [symmetric])

lemma lookup_mset_eq:
  assumes "mset m = mset m'" and "distinct (keys m)"
  shows "lookup m' = lookup m" and "distinct (keys m')"
proof -
  from assms(1) have "mset (keys m) = mset (keys m')"
    by (metis mset_map)
  with assms(2) show d: "distinct (keys m')"
    by (metis mset_eq_imp_distinct_iff)
  from assms(1) have "set m = set m'"
    by (rule mset_eq_setD)
  with assms(2) d show "lookup m' = lookup m"
    by (intro map_of_inject_set [THEN iffD2]) auto
qed

lemma keys_update_old: "k \<in> set (keys m) \<Longrightarrow> keys (AList.update k v m) = keys m"
  by (simp add: update_keys)

lemma length_update_old: "lookup m k = Some w \<Longrightarrow> length (AList.update k v m) = length m"
proof (induction m)
  case (Cons a m)
  then show ?case by (cases a) (auto split: if_splits)
qed simp

lemma length_update_new: "lookup m k = None \<Longrightarrow> length (AList.update k v m) = Suc (length m)"
proof (induction m)
  case (Cons a m)
  then show ?case by (cases a) (auto split: if_splits)
qed simp

lemma find_Some_mem: "List.find P xs = Some x \<Longrightarrow> x \<in> set xs \<and> P x"
  by (induction xs) (auto split: if_splits)

text \<open>Counting the entries of a map that satisfy a predicate.\<close>

definition count_if :: "('v \<Rightarrow> bool) \<Rightarrow> ('k \<times> 'v) list \<Rightarrow> nat" where
  "count_if P m = length (filter (\<lambda>(k, v). P v) m)"

lemma count_if_update_old:
  "distinct (keys m) \<Longrightarrow> lookup m k = Some v \<Longrightarrow>
   count_if P (AList.update k v' m) + of_bool (P v) = count_if P m + of_bool (P v')"
proof (induction m)
  case (Cons a m)
  then show ?case
    by (cases a) (auto simp: count_if_def split: if_splits)
qed simp

lemma count_if_update_new:
  "lookup m k = None \<Longrightarrow> count_if P (AList.update k v m) = count_if P m + of_bool (P v)"
proof (induction m)
  case (Cons a m)
  then show ?case by (cases a) (auto simp: count_if_def split: if_splits)
qed (simp add: count_if_def)

section \<open>\<open>sort.Slice\<close>\<close>

text \<open>
  \<open>sort.Slice(xs, less)\<close>: insert each element in turn, moving it left while it is \<open>less\<close> than
  its left neighbour. The accumulator is the sorted prefix, last element first.
\<close>

fun sift :: "('a \<Rightarrow> 'a \<Rightarrow> bool) \<Rightarrow> 'a \<Rightarrow> 'a list \<Rightarrow> 'a list" where
  "sift lt x [] = [x]"
| "sift lt x (y # ys) = (if lt x y then y # sift lt x ys else x # y # ys)"

definition sort_slice :: "('a \<Rightarrow> 'a \<Rightarrow> bool) \<Rightarrow> 'a list \<Rightarrow> 'a list" where
  "sort_slice lt xs = rev (fold (sift lt) xs [])"

lemma mset_sift [simp]: "mset (sift lt x ys) = add_mset x (mset ys)"
  by (induction ys) auto

lemma mset_fold_sift: "mset (fold (sift lt) xs acc) = mset xs + mset acc"
  by (induction xs arbitrary: acc) auto

lemma mset_sort_slice [simp]: "mset (sort_slice lt xs) = mset xs"
  by (simp add: sort_slice_def mset_fold_sift)

lemma set_sort_slice [simp]: "set (sort_slice lt xs) = set xs"
  by (metis mset_sort_slice set_mset_mset)

lemma length_sort_slice [simp]: "length (sort_slice lt xs) = length xs"
  by (metis mset_sort_slice size_mset)

lemma sort_slice_Nil_iff [simp]: "sort_slice lt xs = [] \<longleftrightarrow> xs = []"
  by (metis length_0_conv length_sort_slice)

text \<open>
  What a comparator must satisfy for the sorted slice to be ordered by \<open>R\<close>. Comparators that
  return true on equal elements (as a negated \<open>less\<close> does) are allowed: \<open>R\<close> need not be strict.
\<close>

locale slice_order =
  fixes lt :: "'a \<Rightarrow> 'a \<Rightarrow> bool" and R :: "'a \<Rightarrow> 'a \<Rightarrow> bool"
  assumes lt_R: "lt x y \<Longrightarrow> R x y"
    and not_lt_R: "\<not> lt x y \<Longrightarrow> R y x"
    and R_trans: "R x y \<Longrightarrow> R y z \<Longrightarrow> R x z"
begin

lemma sift_ordered:
  "sorted_wrt (\<lambda>a b. R b a) ys \<Longrightarrow> sorted_wrt (\<lambda>a b. R b a) (sift lt x ys)"
proof (induction ys)
  case (Cons y ys)
  have mem: "set (sift lt x ys) = insert x (set ys)"
    by (metis mset_sift set_mset_add_mset_insert set_mset_mset)
  show ?case
  proof (cases "lt x y")
    case True
    with Cons mem lt_R show ?thesis by simp
  next
    case False
    with Cons.prems not_lt_R [OF False] R_trans show ?thesis by auto
  qed
qed simp

lemma fold_sift_ordered:
  "sorted_wrt (\<lambda>a b. R b a) acc \<Longrightarrow> sorted_wrt (\<lambda>a b. R b a) (fold (sift lt) xs acc)"
  by (induction xs arbitrary: acc) (auto simp: sift_ordered)

lemma sort_slice_ordered: "sorted_wrt R (sort_slice lt xs)"
  using fold_sift_ordered [of "[]" xs] by (simp add: sort_slice_def sorted_wrt_rev)

lemma R_refl: "R x x"
  using lt_R not_lt_R by blast

lemma find_sorted_least:
  "sorted_wrt R ys \<Longrightarrow> List.find P ys = Some y \<Longrightarrow> z \<in> set ys \<Longrightarrow> P z \<Longrightarrow> R y z"
  by (induction ys) (auto simp: R_refl split: if_splits)

lemma sort_slice_find_least:
  "List.find P (sort_slice lt xs) = Some y \<Longrightarrow> z \<in> set xs \<Longrightarrow> P z \<Longrightarrow> R y z"
  using find_sorted_least [OF sort_slice_ordered] by simp

end

section \<open>Strings\<close>

definition lower_char :: "char \<Rightarrow> char" where
  "lower_char c = (let n = of_char c :: nat in
     if 65 \<le> n \<and> n \<le> 90 then char_of (n + 32) else c)"

definition ToLower :: "string \<Rightarrow> string" where
  "ToLower s = map lower_char s"

definition EqualFold :: "string \<Rightarrow> string \<Rightarrow> bool" where
  "EqualFold s t \<longleftrightarrow> ToLower s = ToLower t"

fun HasPrefix :: "string \<Rightarrow> string \<Rightarrow> bool" where
  "HasPrefix s [] = True"
| "HasPrefix [] (p # ps) = False"
| "HasPrefix (c # cs) (p # ps) = (c = p \<and> HasPrefix cs ps)"

fun Contains :: "string \<Rightarrow> string \<Rightarrow> bool" where
  "Contains [] p = HasPrefix [] p"
| "Contains (c # cs) p = (HasPrefix (c # cs) p \<or> Contains cs p)"

lemma HasPrefix_iff: "HasPrefix s p \<longleftrightarrow> (\<exists>r. s = p @ r)"
  by (induction s p rule: HasPrefix.induct) auto

lemma Contains_iff: "Contains s p \<longleftrightarrow> (\<exists>l r. s = l @ p @ r)"
proof (induction s)
  case Nil
  then show ?case by (cases p) auto
next
  case (Cons c cs)
  show ?case
  proof
    assume "Contains (c # cs) p"
    then have "HasPrefix (c # cs) p \<or> Contains cs p" by simp
    then show "\<exists>l r. c # cs = l @ p @ r"
      by (metis Cons.IH HasPrefix_iff append_Cons append_Nil)
  next
    assume "\<exists>l r. c # cs = l @ p @ r"
    then obtain l r where lr: "c # cs = l @ p @ r" by blast
    show "Contains (c # cs) p"
    proof (cases l)
      case Nil
      with lr have "HasPrefix (c # cs) p" by (auto simp: HasPrefix_iff)
      then show ?thesis by simp
    next
      case (Cons d ds)
      with lr Cons.IH have "Contains cs p" by auto
      then show ?thesis by simp
    qed
  qed
qed

section \<open>Decimal formatting (\<open>%d\<close>)\<close>

fun format_nat :: "nat \<Rightarrow> string" where
  "format_nat n =
    (if n < 10 then [char_of (48 + n)] else format_nat (n div 10) @ [char_of (48 + n mod 10)])"

declare format_nat.simps [simp del]

definition format_int :: "int \<Rightarrow> string" where
  "format_int i = (if i < 0 then CHR ''-'' # format_nat (nat (- i)) else format_nat (nat i))"

end
