(* ===== verification/Lifecycle.thy ===== *)
theory Lifecycle
  imports Prelude
begin

text \<open>
  Package \<open>lifecycle\<close> (src/lifecycle/state.go): the job states, which of them are terminal, block
  the next sequence or can be claimed, and the table of allowed transitions. States are strings in
  the source (a \<open>Job.Status\<close> and a filter can hold any string), so they are strings here, and the
  predicates answer for every string, as the Go functions do.
\<close>

section \<open>The states\<close>

definition StateBlocked :: string where
  "StateBlocked = ''BLOCKED''"

definition StatePending :: string where
  "StatePending = ''PENDING''"

definition StateProcessing :: string where
  "StateProcessing = ''PROCESSING''"

definition StateRetrying :: string where
  "StateRetrying = ''RETRYING''"

definition StateCompleted :: string where
  "StateCompleted = ''COMPLETED''"

definition StateFailed :: string where
  "StateFailed = ''FAILED''"

definition StateCancelRequested :: string where
  "StateCancelRequested = ''CANCEL_REQUESTED''"

definition StateCancelled :: string where
  "StateCancelled = ''CANCELLED''"

definition StateTimedOut :: string where
  "StateTimedOut = ''TIMED_OUT''"

definition StateExpired :: string where
  "StateExpired = ''EXPIRED''"

definition StateDeadLettered :: string where
  "StateDeadLettered = ''DEAD_LETTERED''"

lemmas state_defs = StateBlocked_def
  StatePending_def
  StateProcessing_def
  StateRetrying_def
  StateCompleted_def
  StateFailed_def
  StateCancelRequested_def
  StateCancelled_def
  StateTimedOut_def
  StateExpired_def
  StateDeadLettered_def

text \<open>The eleven states are pairwise different.\<close>

lemma state_neq [simp]:
  "StateBlocked \<noteq> StatePending"
  "StateBlocked \<noteq> StateProcessing"
  "StateBlocked \<noteq> StateRetrying"
  "StateBlocked \<noteq> StateCompleted"
  "StateBlocked \<noteq> StateFailed"
  "StateBlocked \<noteq> StateCancelRequested"
  "StateBlocked \<noteq> StateCancelled"
  "StateBlocked \<noteq> StateTimedOut"
  "StateBlocked \<noteq> StateExpired"
  "StateBlocked \<noteq> StateDeadLettered"
  "StatePending \<noteq> StateProcessing"
  "StatePending \<noteq> StateRetrying"
  "StatePending \<noteq> StateCompleted"
  "StatePending \<noteq> StateFailed"
  "StatePending \<noteq> StateCancelRequested"
  "StatePending \<noteq> StateCancelled"
  "StatePending \<noteq> StateTimedOut"
  "StatePending \<noteq> StateExpired"
  "StatePending \<noteq> StateDeadLettered"
  "StateProcessing \<noteq> StateRetrying"
  "StateProcessing \<noteq> StateCompleted"
  "StateProcessing \<noteq> StateFailed"
  "StateProcessing \<noteq> StateCancelRequested"
  "StateProcessing \<noteq> StateCancelled"
  "StateProcessing \<noteq> StateTimedOut"
  "StateProcessing \<noteq> StateExpired"
  "StateProcessing \<noteq> StateDeadLettered"
  "StateRetrying \<noteq> StateCompleted"
  "StateRetrying \<noteq> StateFailed"
  "StateRetrying \<noteq> StateCancelRequested"
  "StateRetrying \<noteq> StateCancelled"
  "StateRetrying \<noteq> StateTimedOut"
  "StateRetrying \<noteq> StateExpired"
  "StateRetrying \<noteq> StateDeadLettered"
  "StateCompleted \<noteq> StateFailed"
  "StateCompleted \<noteq> StateCancelRequested"
  "StateCompleted \<noteq> StateCancelled"
  "StateCompleted \<noteq> StateTimedOut"
  "StateCompleted \<noteq> StateExpired"
  "StateCompleted \<noteq> StateDeadLettered"
  "StateFailed \<noteq> StateCancelRequested"
  "StateFailed \<noteq> StateCancelled"
  "StateFailed \<noteq> StateTimedOut"
  "StateFailed \<noteq> StateExpired"
  "StateFailed \<noteq> StateDeadLettered"
  "StateCancelRequested \<noteq> StateCancelled"
  "StateCancelRequested \<noteq> StateTimedOut"
  "StateCancelRequested \<noteq> StateExpired"
  "StateCancelRequested \<noteq> StateDeadLettered"
  "StateCancelled \<noteq> StateTimedOut"
  "StateCancelled \<noteq> StateExpired"
  "StateCancelled \<noteq> StateDeadLettered"
  "StateTimedOut \<noteq> StateExpired"
  "StateTimedOut \<noteq> StateDeadLettered"
  "StateExpired \<noteq> StateDeadLettered"
  by (simp_all add: state_defs)

lemma state_neq_sym [simp]:
  "StatePending \<noteq> StateBlocked"
  "StateProcessing \<noteq> StateBlocked"
  "StateRetrying \<noteq> StateBlocked"
  "StateCompleted \<noteq> StateBlocked"
  "StateFailed \<noteq> StateBlocked"
  "StateCancelRequested \<noteq> StateBlocked"
  "StateCancelled \<noteq> StateBlocked"
  "StateTimedOut \<noteq> StateBlocked"
  "StateExpired \<noteq> StateBlocked"
  "StateDeadLettered \<noteq> StateBlocked"
  "StateProcessing \<noteq> StatePending"
  "StateRetrying \<noteq> StatePending"
  "StateCompleted \<noteq> StatePending"
  "StateFailed \<noteq> StatePending"
  "StateCancelRequested \<noteq> StatePending"
  "StateCancelled \<noteq> StatePending"
  "StateTimedOut \<noteq> StatePending"
  "StateExpired \<noteq> StatePending"
  "StateDeadLettered \<noteq> StatePending"
  "StateRetrying \<noteq> StateProcessing"
  "StateCompleted \<noteq> StateProcessing"
  "StateFailed \<noteq> StateProcessing"
  "StateCancelRequested \<noteq> StateProcessing"
  "StateCancelled \<noteq> StateProcessing"
  "StateTimedOut \<noteq> StateProcessing"
  "StateExpired \<noteq> StateProcessing"
  "StateDeadLettered \<noteq> StateProcessing"
  "StateCompleted \<noteq> StateRetrying"
  "StateFailed \<noteq> StateRetrying"
  "StateCancelRequested \<noteq> StateRetrying"
  "StateCancelled \<noteq> StateRetrying"
  "StateTimedOut \<noteq> StateRetrying"
  "StateExpired \<noteq> StateRetrying"
  "StateDeadLettered \<noteq> StateRetrying"
  "StateFailed \<noteq> StateCompleted"
  "StateCancelRequested \<noteq> StateCompleted"
  "StateCancelled \<noteq> StateCompleted"
  "StateTimedOut \<noteq> StateCompleted"
  "StateExpired \<noteq> StateCompleted"
  "StateDeadLettered \<noteq> StateCompleted"
  "StateCancelRequested \<noteq> StateFailed"
  "StateCancelled \<noteq> StateFailed"
  "StateTimedOut \<noteq> StateFailed"
  "StateExpired \<noteq> StateFailed"
  "StateDeadLettered \<noteq> StateFailed"
  "StateCancelled \<noteq> StateCancelRequested"
  "StateTimedOut \<noteq> StateCancelRequested"
  "StateExpired \<noteq> StateCancelRequested"
  "StateDeadLettered \<noteq> StateCancelRequested"
  "StateTimedOut \<noteq> StateCancelled"
  "StateExpired \<noteq> StateCancelled"
  "StateDeadLettered \<noteq> StateCancelled"
  "StateExpired \<noteq> StateTimedOut"
  "StateDeadLettered \<noteq> StateTimedOut"
  "StateDeadLettered \<noteq> StateExpired"
  by (simp_all add: state_defs)

text \<open>A string that is not the empty one: every state differs from the zero value of \<open>Job.Status\<close>.\<close>

lemma state_neq_empty [simp]:
  "StateBlocked \<noteq> []"
  "StatePending \<noteq> []"
  "StateProcessing \<noteq> []"
  "StateRetrying \<noteq> []"
  "StateCompleted \<noteq> []"
  "StateFailed \<noteq> []"
  "StateCancelRequested \<noteq> []"
  "StateCancelled \<noteq> []"
  "StateTimedOut \<noteq> []"
  "StateExpired \<noteq> []"
  "StateDeadLettered \<noteq> []"
  by (simp_all add: state_defs)

section \<open>Classification\<close>

definition terminalStates :: "(string \<times> bool) list" where
  "terminalStates =
    [(StateCompleted, True),
     (StateFailed, True),
     (StateCancelled, True),
     (StateExpired, True),
     (StateDeadLettered, True)]"

text \<open>Indexing a \<open>map[string]bool\<close> with an absent key gives the zero value \<open>false\<close>.\<close>

definition IsTerminal :: "string \<Rightarrow> bool" where
  "IsTerminal s = (case lookup terminalStates s of None \<Rightarrow> False | Some b \<Rightarrow> b)"

definition BlockNext :: "string \<Rightarrow> bool" where
  "BlockNext s = (if s = StateCompleted then False else True)"

definition CanBeClaimed :: "string \<Rightarrow> bool" where
  "CanBeClaimed s \<longleftrightarrow> s = StatePending \<or> s = StateRetrying"

section \<open>Transitions\<close>

definition AllowedTransitions :: "(string \<times> (string \<times> bool) list) list" where
  "AllowedTransitions =
    [(StateBlocked,
       [(StatePending, True)]),
     (StatePending,
       [(StateProcessing, True), (StateCancelRequested, True), (StateExpired, True)]),
     (StateProcessing,
       [(StateCompleted, True), (StateRetrying, True), (StateFailed, True),
        (StateTimedOut, True), (StateCancelRequested, True)]),
     (StateRetrying,
       [(StateProcessing, True), (StateCancelRequested, True), (StateExpired, True)]),
     (StateCancelRequested,
       [(StateCancelled, True), (StateCompleted, True)]),
     (StateTimedOut,
       [(StateRetrying, True), (StateFailed, True)]),
     (StateFailed,
       [(StateDeadLettered, True)])]"

definition IsValidTransition :: "string \<Rightarrow> string \<Rightarrow> bool" where
  "IsValidTransition from to =
    (if from = to then True
     else (case lookup AllowedTransitions from of
             Some m \<Rightarrow> (case lookup m to of None \<Rightarrow> False | Some b \<Rightarrow> b)
           | None \<Rightarrow> False))"

section \<open>What the predicates decide\<close>

lemma IsTerminal_iff:
  "IsTerminal s \<longleftrightarrow>
   s \<in> {StateCompleted, StateFailed, StateCancelled, StateExpired, StateDeadLettered}"
  by (auto simp: IsTerminal_def terminalStates_def)

text \<open>The edges of the table, one disjunct per source state.\<close>

lemma IsValidTransition_iff:
  "IsValidTransition from to \<longleftrightarrow>
   from = to
   \<or> from = StateBlocked \<and> to = StatePending
   \<or> from \<in> {StatePending, StateRetrying}
        \<and> to \<in> {StateProcessing, StateCancelRequested, StateExpired}
   \<or> from = StateProcessing
        \<and> to \<in> {StateCompleted, StateRetrying, StateFailed, StateTimedOut, StateCancelRequested}
   \<or> from = StateCancelRequested \<and> to \<in> {StateCancelled, StateCompleted}
   \<or> from = StateTimedOut \<and> to \<in> {StateRetrying, StateFailed}
   \<or> from = StateFailed \<and> to = StateDeadLettered"
  by (auto simp: IsValidTransition_def AllowedTransitions_def)

text \<open>Paths along the table.\<close>

inductive transition_path :: "string \<Rightarrow> string \<Rightarrow> bool" where
  path_refl: "transition_path s s"
| path_step: "IsValidTransition s t \<Longrightarrow> transition_path t u \<Longrightarrow> transition_path s u"

lemma path_edge: "IsValidTransition s t \<Longrightarrow> transition_path s t"
  by (blast intro: transition_path.intros)

lemma path_trans: "transition_path s t \<Longrightarrow> transition_path t u \<Longrightarrow> transition_path s u"
  by (induction rule: transition_path.induct) (blast intro: transition_path.intros)+

text \<open>
  A path out of a state the table lists no edge for never moves. \<open>StateFailed\<close> counts as terminal
  although the table lets it become \<open>StateDeadLettered\<close>.
\<close>

lemma path_from_sink:
  assumes "transition_path s t"
    and "s \<in> {StateCompleted, StateCancelled, StateExpired, StateDeadLettered}"
  shows "t = s"
  using assms by (induction rule: transition_path.induct) (auto simp: IsValidTransition_iff)

text \<open>
  The states the package calls terminal absorb every path: from a terminal state the table leads to
  terminal states only.
\<close>

lemma path_from_terminal:
  assumes "transition_path s t" and "IsTerminal s"
  shows "IsTerminal t"
  using assms
  by (induction rule: transition_path.induct) (auto simp: IsValidTransition_iff IsTerminal_iff)

lemma path_to_completed:
  assumes "s \<in> {StateBlocked, StatePending, StateProcessing, StateRetrying, StateCancelRequested,
    StateTimedOut}"
  shows "transition_path s StateCompleted"
proof -
  have p: "transition_path StateProcessing StateCompleted"
    "transition_path StateCancelRequested StateCompleted"
    by (rule path_edge, simp add: IsValidTransition_iff)+
  have q: "transition_path StatePending StateCompleted"
    "transition_path StateRetrying StateCompleted"
    by (rule path_step [OF _ p(1)], simp add: IsValidTransition_iff)+
  have "transition_path StateBlocked StateCompleted"
    by (rule path_step [OF _ q(1)], simp add: IsValidTransition_iff)
  moreover have "transition_path StateTimedOut StateCompleted"
    by (rule path_step [OF _ q(2)], simp add: IsValidTransition_iff)
  ultimately show ?thesis using assms p q by auto
qed

lemma path_from_failed:
  assumes "transition_path s t" and "s = StateFailed"
  shows "t = s \<or> t = StateDeadLettered"
  using assms
proof cases
  case (path_step u)
  then have "u = s \<or> u = StateDeadLettered" using assms(2) by (auto simp: IsValidTransition_iff)
  with assms show ?thesis
    by (induction rule: transition_path.induct)
      (auto simp: IsValidTransition_iff dest: path_from_sink)
qed simp

text \<open>C40: the transition table. A job state can still lead to completion exactly when it is not
  terminal (or is completed already), and a terminal state is left by no path, but for a failed job
  that is dead-lettered.\<close>

theorem lifecycle_table:
  assumes "s \<in> {StateBlocked, StatePending, StateProcessing, StateRetrying, StateCompleted,
    StateFailed, StateCancelRequested, StateCancelled, StateTimedOut, StateExpired,
    StateDeadLettered}"
  shows "(transition_path s StateCompleted \<longleftrightarrow> \<not> IsTerminal s \<or> s = StateCompleted) \<and>
    (IsTerminal s \<and> transition_path s t \<longrightarrow> t = s \<or> s = StateFailed \<and> t = StateDeadLettered)"
proof -
  have "t = s \<or> s = StateFailed \<and> t = StateDeadLettered"
    if "IsTerminal s" "transition_path s t" for t
    using that path_from_sink [OF that(2)] path_from_failed [OF that(2)]
    by (auto simp: IsTerminal_iff)
  moreover have "\<not> IsTerminal s \<Longrightarrow> transition_path s StateCompleted"
    using assms by (intro path_to_completed) (auto simp: IsTerminal_iff)
  moreover have "s = StateCompleted" if "IsTerminal s" "transition_path s StateCompleted"
    using calculation(1) [OF that] by auto
  ultimately show ?thesis by (auto intro: path_refl)
qed

theorem lifecycle_table_witness:
  "transition_path StateTimedOut StateCompleted \<and> \<not> transition_path StateDeadLettered StateCompleted
   \<and> (\<exists>t. transition_path StateFailed t \<and> t \<noteq> StateFailed)"
proof -
  have "transition_path StateTimedOut StateCompleted"
    using lifecycle_table [of StateTimedOut] by (simp add: IsTerminal_iff)
  moreover have "\<not> transition_path StateDeadLettered StateCompleted"
    using lifecycle_table [of StateDeadLettered] by (simp add: IsTerminal_iff)
  moreover have "transition_path StateFailed StateDeadLettered"
    by (rule path_edge) (simp add: IsValidTransition_iff)
  moreover have "StateDeadLettered \<noteq> StateFailed" by simp
  ultimately show ?thesis by blast
qed

end
