(* ===== verification/Errors.thy ===== *)
theory Errors
  imports Prelude
begin

text \<open>
  The error values of package orderedjob (src/errors.go) and \<open>errorsIsCancel\<close> of src/engine.go.

  A Go \<open>error\<close> is a tree: a sentinel or a plain message is a leaf, \<open>fmt.Errorf\<close> with one \<open>%w\<close> has
  one child (\<open>Unwrap() error\<close>), with two it has two (\<open>Unwrap() []error\<close>), and the package's own
  wrappers have one. \<open>nil\<close> is \<open>None\<close> of \<open>gerror option\<close>. The wrapper structs are built by
  \<open>Retryable\<close> and \<open>NonRetryable\<close> around a non-nil error; a literal \<open>RetryableError{}\<close> with a nil
  field is outside the model. The errors of the \<open>context\<close> package are plain messages, which is how
  the code recognises them.
\<close>

section \<open>Error values\<close>

datatype gerror =
    ErrNotFound
  | ErrAlreadyExists
  | ErrInvalidTransition
  | ErrLeaseConflict
  | ErrChainBlocked
  | ErrSequenceGap
  | ErrHandlerNotFound
  | ErrNotClaimable
  | ErrDuplicateChainSeq
  | ErrJobNotEligible
  | ErrValidationFailed
  | Message string
  | Errorf1 string gerror string
  | Errorf2 gerror string gerror
  | RetryableError gerror
  | NonRetryableError gerror
  | PanicError string string

definition newline :: string where
  "newline = [CHR 0x0A]"

text \<open>The \<open>Error() string\<close> methods.\<close>

fun Error :: "gerror \<Rightarrow> string" where
  "Error ErrNotFound = ''orderedjob: job not found''"
| "Error ErrAlreadyExists = ''orderedjob: job already exists''"
| "Error ErrInvalidTransition = ''orderedjob: invalid state transition''"
| "Error ErrLeaseConflict = ''orderedjob: lease conflict / fencing violation''"
| "Error ErrChainBlocked = ''orderedjob: chain blocked''"
| "Error ErrSequenceGap = ''orderedjob: sequence gap''"
| "Error ErrHandlerNotFound = ''orderedjob: handler not found''"
| "Error ErrNotClaimable = ''orderedjob: job not claimable''"
| "Error ErrDuplicateChainSeq = ''orderedjob: duplicate chain_id, sequence''"
| "Error ErrJobNotEligible = ''orderedjob: job not eligible for rescheduling''"
| "Error ErrValidationFailed = ''orderedjob: payload validation failed''"
| "Error (Message s) = s"
| "Error (Errorf1 before e after) = before @ Error e @ after"
| "Error (Errorf2 e sep e') = Error e @ sep @ Error e'"
| "Error (RetryableError e) = ''retryable: '' @ Error e"
| "Error (NonRetryableError e) = ''non-retryable: '' @ Error e"
| "Error (PanicError v stack) =
     (if 0 < length stack
      then ''panic: '' @ v @ newline @ ''stacktrace:'' @ newline @ stack
      else ''panic: '' @ v)"

definition Retryable :: "gerror option \<Rightarrow> gerror option" where
  "Retryable err = (case err of None \<Rightarrow> None | Some e \<Rightarrow> Some (RetryableError e))"

definition NonRetryable :: "gerror option \<Rightarrow> gerror option" where
  "NonRetryable err = (case err of None \<Rightarrow> None | Some e \<Rightarrow> Some (NonRetryableError e))"

section \<open>Walking the tree\<close>

text \<open>The errors below and including \<open>e\<close>, in the order \<open>errors.As\<close> tries them.\<close>

fun error_tree :: "gerror \<Rightarrow> gerror list" where
  "error_tree (Errorf1 before e after) = Errorf1 before e after # error_tree e"
| "error_tree (Errorf2 e sep e') = Errorf2 e sep e' # error_tree e @ error_tree e'"
| "error_tree (RetryableError e) = RetryableError e # error_tree e"
| "error_tree (NonRetryableError e) = NonRetryableError e # error_tree e"
| "error_tree e = [e]"

text \<open>\<open>errors.As(err, &target)\<close>: whether some error of the tree has the target's type.\<close>

definition errors_As :: "(gerror \<Rightarrow> bool) \<Rightarrow> gerror option \<Rightarrow> bool" where
  "errors_As P err = (case err of None \<Rightarrow> False | Some e \<Rightarrow> list_ex P (error_tree e))"

text \<open>\<open>errors.Is(err, target)\<close> for the package's sentinels.\<close>

definition errors_Is :: "gerror \<Rightarrow> gerror \<Rightarrow> bool" where
  "errors_Is err target \<longleftrightarrow> list_ex (\<lambda>e. e = target) (error_tree err)"

fun is_RetryableError :: "gerror \<Rightarrow> bool" where
  "is_RetryableError (RetryableError _) = True"
| "is_RetryableError _ = False"

fun is_NonRetryableError :: "gerror \<Rightarrow> bool" where
  "is_NonRetryableError (NonRetryableError _) = True"
| "is_NonRetryableError _ = False"

definition IsRetryable :: "gerror option \<Rightarrow> bool" where
  "IsRetryable err =
    (if errors_As is_RetryableError err then True
     else if errors_As is_NonRetryableError err then False
     else True)"

definition IsNonRetryable :: "gerror option \<Rightarrow> bool" where
  "IsNonRetryable err = errors_As is_NonRetryableError err"

text \<open>
  \<open>errorsIsCancel\<close> follows \<open>Unwrap() error\<close> only: an error with several children ends the loop.
\<close>

fun Unwrap1 :: "gerror \<Rightarrow> gerror option" where
  "Unwrap1 (Errorf1 before e after) = Some e"
| "Unwrap1 (RetryableError e) = Some e"
| "Unwrap1 (NonRetryableError e) = Some e"
| "Unwrap1 _ = None"

definition is_cancel_text :: "string \<Rightarrow> bool" where
  "is_cancel_text s \<longleftrightarrow> s = ''context canceled'' \<or> s = ''context deadline exceeded''"

lemma Unwrap1_smaller: "Unwrap1 e = Some e' \<Longrightarrow> size e' < size e"
  by (cases e) auto

function errorsIsCancel_loop :: "gerror option \<Rightarrow> bool" where
  "errorsIsCancel_loop None = False"
| "errorsIsCancel_loop (Some e) =
     (if is_cancel_text (Error e) then True else errorsIsCancel_loop (Unwrap1 e))"
  by pat_completeness auto
termination
  by (relation "measure (case_option 0 (Suc \<circ> size))")
     (auto split: option.splits dest: Unwrap1_smaller)

definition errorsIsCancel :: "gerror option \<Rightarrow> bool" where
  "errorsIsCancel err = (if err = None then False else errorsIsCancel_loop err)"

section \<open>Lemmas\<close>

lemma self_in_error_tree: "e \<in> set (error_tree e)"
  by (cases e) auto

text \<open>Marking and wrapping an error: what the two classifications say afterwards.\<close>

lemma IsNonRetryable_simps [simp]:
  "\<not> IsNonRetryable None"
  "IsNonRetryable (Some (NonRetryableError e))"
  "IsNonRetryable (Some (RetryableError e)) \<longleftrightarrow> IsNonRetryable (Some e)"
  "IsNonRetryable (Some (Errorf1 a e b)) \<longleftrightarrow> IsNonRetryable (Some e)"
  "IsNonRetryable (Some (Errorf2 e a e')) \<longleftrightarrow> IsNonRetryable (Some e) \<or> IsNonRetryable (Some e')"
  "\<not> IsNonRetryable (Some (Message s))"
  "\<not> IsNonRetryable (Some (PanicError v st))"
  by (auto simp: IsNonRetryable_def errors_As_def)

lemma errors_As_wrap [simp]:
  "errors_As is_RetryableError (Some (NonRetryableError e)) =
   errors_As is_RetryableError (Some e)"
  "errors_As is_RetryableError (Some (Errorf1 a e b)) = errors_As is_RetryableError (Some e)"
  "errors_As is_RetryableError (Some (RetryableError e))"
  by (simp_all add: errors_As_def)

lemma errorsIsCancel_simps [simp]:
  "\<not> errorsIsCancel None"
  "errorsIsCancel (Some (RetryableError e)) =
   (is_cancel_text (Error (RetryableError e)) \<or> errorsIsCancel (Some e))"
  "errorsIsCancel (Some (NonRetryableError e)) =
   (is_cancel_text (Error (NonRetryableError e)) \<or> errorsIsCancel (Some e))"
  "errorsIsCancel (Some (Errorf1 a e b)) =
   (is_cancel_text (Error (Errorf1 a e b)) \<or> errorsIsCancel (Some e))"
  "errorsIsCancel (Some (Message s)) = is_cancel_text s"
  by (simp_all add: errorsIsCancel_def)

text \<open>
  Along a chain of single wrappers the loop finds exactly the cancellations \<open>errors.As\<close> would: the
  tree is then a list, and the loop visits all of it.
\<close>

fun single_chain :: "gerror \<Rightarrow> bool" where
  "single_chain (Errorf1 before e after) = single_chain e"
| "single_chain (RetryableError e) = single_chain e"
| "single_chain (NonRetryableError e) = single_chain e"
| "single_chain (Errorf2 e sep e') = False"
| "single_chain _ = True"

lemma errorsIsCancel_leaf:
  "Unwrap1 e = None \<Longrightarrow> errorsIsCancel (Some e) = is_cancel_text (Error e)"
  by (simp add: errorsIsCancel_def)

lemma errorsIsCancel_single_chain:
  "single_chain e \<Longrightarrow>
   errorsIsCancel (Some e) \<longleftrightarrow> (\<exists>x \<in> set (error_tree e). is_cancel_text (Error x))"
  by (induction e rule: single_chain.induct) (simp_all add: errorsIsCancel_leaf)

end
