(* ===== verification/Job_Types.thy ===== *)
theory Job_Types
  imports Lifecycle Errors
begin

text \<open>
  The data types of package orderedjob: \<open>Job\<close> and \<open>EnqueueRequest\<close> (src/job.go), the filters and
  reports of the \<open>Repository\<close> interface (src/repository.go), and the test "the predecessor is
  finished" that the repositories share.

  A pointer field is an option, a \<open>json.RawMessage\<close> the string of its bytes. The \<open>Payload\<close> of a
  request is any Go value; the code only ever passes it to \<open>json.Marshal\<close>, so the model keeps what
  that call can tell apart: \<open>nil\<close>, a value with its JSON text, a value that cannot be marshalled.
\<close>

section \<open>Ordering modes\<close>

definition OrderingModeStrict :: string where
  "OrderingModeStrict = ''strict''"

definition OrderingModeSkipOnFailure :: string where
  "OrderingModeSkipOnFailure = ''skip-on-failure''"

definition OrderingModeDeadLetterAndContinue :: string where
  "OrderingModeDeadLetterAndContinue = ''dead-letter-and-continue''"

lemmas mode_defs = OrderingModeStrict_def OrderingModeSkipOnFailure_def
  OrderingModeDeadLetterAndContinue_def

lemma mode_neq [simp]:
  "OrderingModeStrict \<noteq> OrderingModeSkipOnFailure"
  "OrderingModeStrict \<noteq> OrderingModeDeadLetterAndContinue"
  "OrderingModeSkipOnFailure \<noteq> OrderingModeStrict"
  "OrderingModeSkipOnFailure \<noteq> OrderingModeDeadLetterAndContinue"
  "OrderingModeDeadLetterAndContinue \<noteq> OrderingModeStrict"
  "OrderingModeDeadLetterAndContinue \<noteq> OrderingModeSkipOnFailure"
  "OrderingModeStrict \<noteq> []"
  "OrderingModeSkipOnFailure \<noteq> []"
  "OrderingModeDeadLetterAndContinue \<noteq> []"
  "[] \<noteq> OrderingModeStrict"
  "[] \<noteq> OrderingModeSkipOnFailure"
  "[] \<noteq> OrderingModeDeadLetterAndContinue"
  by (simp_all add: mode_defs)

section \<open>Jobs and requests\<close>

record job =
  ID :: uuid
  ChainID :: string
  Sequence :: int
  Type :: string
  Payload :: string
  IdempotencyKey :: string
  TenantID :: string
  OrderingMode :: string
  Status :: string
  Attempt :: int
  MaxAttempts :: int
  AvailableAt :: time
  DeadlineAt :: "time option"
  WorkerID :: string
  LeaseUntil :: "time option"
  LeaseGeneration :: int
  LastError :: string
  CreatedAt :: time
  UpdatedAt :: time
  StartedAt :: "time option"
  CompletedAt :: "time option"
  FailedAt :: "time option"
  TraceID :: string

datatype any_value = Any_nil | Any_json string | Any_unmarshalable

record EnqueueRequest =
  ChainID_req :: string
  Sequence_req :: int
  Type_req :: string
  Payload_req :: any_value
  IdempotencyKey_req :: string
  TenantID_req :: string
  TraceID_req :: string
  OrderingMode_req :: string
  MaxAttempts_req :: int
  DeadlineAt_req :: "time option"
  AvailableAt_req :: "time option"

text \<open>\<open>json.Marshal\<close>: the bytes, or an error.\<close>

definition json_Marshal :: "any_value \<Rightarrow> gerror + string" where
  "json_Marshal v = (case v of
     Any_nil \<Rightarrow> Inr ''null''
   | Any_json s \<Rightarrow> Inr s
   | Any_unmarshalable \<Rightarrow> Inl (Message ''json: unsupported type''))"

text \<open>\<open>Job.IsTerminal\<close> lists the states by their literals.\<close>

definition IsTerminal_Job :: "job \<Rightarrow> bool" where
  "IsTerminal_Job j =
    (if Status j = ''COMPLETED'' \<or> Status j = ''FAILED'' \<or> Status j = ''CANCELLED''
        \<or> Status j = ''EXPIRED'' \<or> Status j = ''DEAD_LETTERED''
     then True else False)"

text \<open>The zero values \<open>orderedjob.Job{}\<close> and \<open>orderedjob.EnqueueRequest{}\<close>.\<close>

definition zero_Job :: job where
  "zero_Job = \<lparr>ID = 0, ChainID = [], Sequence = 0, Type = [], Payload = [], IdempotencyKey = [],
     TenantID = [], OrderingMode = [], Status = [], Attempt = 0, MaxAttempts = 0, AvailableAt = 0,
     DeadlineAt = None, WorkerID = [], LeaseUntil = None, LeaseGeneration = 0, LastError = [],
     CreatedAt = 0, UpdatedAt = 0, StartedAt = None, CompletedAt = None, FailedAt = None,
     TraceID = []\<rparr>"

definition zero_EnqueueRequest :: EnqueueRequest where
  "zero_EnqueueRequest = \<lparr>ChainID_req = [], Sequence_req = 0, Type_req = [],
     Payload_req = Any_nil, IdempotencyKey_req = [], TenantID_req = [], TraceID_req = [],
     OrderingMode_req = [], MaxAttempts_req = 0, DeadlineAt_req = None, AvailableAt_req = None\<rparr>"

text \<open>A request with a chain, a sequence and an idempotency key, for closed instances.\<close>

definition sample_req :: "string \<Rightarrow> int \<Rightarrow> string \<Rightarrow> EnqueueRequest" where
  "sample_req c seq key = zero_EnqueueRequest
     \<lparr>ChainID_req := c, Sequence_req := seq, Type_req := ''task'', IdempotencyKey_req := key\<rparr>"

section \<open>Filters and reports\<close>

record JobFilter =
  ChainID_flt :: string
  Status_flt :: string
  JobType_flt :: string
  TenantID_flt :: string
  TraceID_flt :: string
  Search_flt :: string
  OrderBy_flt :: string
  OrderDir_flt :: string
  Offset_flt :: int
  Limit_flt :: int
  ScheduledOnly_flt :: bool

record ChainFilter =
  Search_cflt :: string
  OrderBy_cflt :: string
  OrderDir_cflt :: string
  Offset_cflt :: int
  Limit_cflt :: int

record Stats =
  Pending_st :: int
  Blocked_st :: int
  Processing_st :: int
  Completed_st :: int
  Retrying_st :: int
  Failed_st :: int
  DeadLettered_st :: int
  CancelRequested_st :: int
  Cancelled_st :: int
  Scheduled_st :: int
  Total_st :: int
  ActiveChains_st :: int

record ChainSummary =
  ChainID_cs :: string
  TotalJobs_cs :: int
  MaxSequence_cs :: int
  PendingJobs_cs :: int
  FailedJobs_cs :: int
  LatestStatus_cs :: string

definition zero_JobFilter :: JobFilter where
  "zero_JobFilter = \<lparr>ChainID_flt = [], Status_flt = [], JobType_flt = [], TenantID_flt = [],
     TraceID_flt = [], Search_flt = [], OrderBy_flt = [], OrderDir_flt = [], Offset_flt = 0,
     Limit_flt = 0, ScheduledOnly_flt = False\<rparr>"

definition zero_Stats :: Stats where
  "zero_Stats = \<lparr>Pending_st = 0, Blocked_st = 0, Processing_st = 0, Completed_st = 0,
     Retrying_st = 0, Failed_st = 0, DeadLettered_st = 0, CancelRequested_st = 0,
     Cancelled_st = 0, Scheduled_st = 0, Total_st = 0, ActiveChains_st = 0\<rparr>"

definition zero_ChainSummary :: ChainSummary where
  "zero_ChainSummary = \<lparr>ChainID_cs = [], TotalJobs_cs = 0, MaxSequence_cs = 0,
     PendingJobs_cs = 0, FailedJobs_cs = 0, LatestStatus_cs = []\<rparr>"

section \<open>The finished predecessor\<close>

text \<open>
  \<open>isPredFinished\<close> of the memory repository's \<open>determineInitialStatus\<close> and \<open>Claim\<close> (and of the SQL
  of the other two): completed, or failed for good in a mode that lets the chain go on.
\<close>

definition continues_on_failure :: "string \<Rightarrow> bool" where
  "continues_on_failure mode \<longleftrightarrow>
     mode = OrderingModeSkipOnFailure \<or> mode = OrderingModeDeadLetterAndContinue"

definition isPredFinished :: "job \<Rightarrow> bool" where
  "isPredFinished pred \<longleftrightarrow>
     Status pred = StateCompleted \<or>
     ((Status pred = StateFailed \<or> Status pred = StateDeadLettered) \<and>
      continues_on_failure (OrderingMode pred))"

lemma isPredFinished_strict:
  "OrderingMode p = OrderingModeStrict \<Longrightarrow> isPredFinished p \<longleftrightarrow> Status p = StateCompleted"
  by (simp add: isPredFinished_def continues_on_failure_def)

lemma isPredFinished_terminal: "isPredFinished p \<Longrightarrow> IsTerminal (Status p)"
  by (auto simp: isPredFinished_def IsTerminal_iff)

text \<open>The two terminal tests of the repository, one on a job and one on a state, agree.\<close>

lemma IsTerminal_Job_eq: "IsTerminal_Job j = IsTerminal (Status j)"
  by (simp add: IsTerminal_Job_def IsTerminal_iff state_defs)

end
