(* ===== verification/Context.thy ===== *)
theory Context
  imports Job_Types
begin

text \<open>
  Trace ids in a \<open>context.Context\<close> (src/observability.go) and the event listeners (src/events.go).

  Of a context the code reads two things: the value \<open>WithTraceID\<close> stores under its own key, and
  the OpenTelemetry span of \<open>trace.SpanContextFromContext\<close> (a third-party package), of which it
  uses \<open>IsValid()\<close> and the hexadecimal trace id. A context without a valid span has \<open>span = None\<close>.
\<close>

section \<open>Trace ids\<close>

record ctx =
  traceValue :: "string option"
  span :: "string option"

definition Background :: ctx where
  "Background = \<lparr>traceValue = None, span = None\<rparr>"

definition WithTraceID :: "ctx \<Rightarrow> string \<Rightarrow> ctx" where
  "WithTraceID c traceID = (if traceID = [] then c else c\<lparr>traceValue := Some traceID\<rparr>)"

definition ExtractTraceID :: "ctx \<Rightarrow> string" where
  "ExtractTraceID c = (case traceValue c of Some v \<Rightarrow> v | None \<Rightarrow> [])"

definition InjectOTelTraceContext :: "ctx \<Rightarrow> EnqueueRequest \<Rightarrow> EnqueueRequest" where
  "InjectOTelTraceContext c req =
    (if TraceID_req req \<noteq> [] then req
     else case span c of
       Some tid \<Rightarrow> req\<lparr>TraceID_req := tid\<rparr>
     | None \<Rightarrow>
         (let tID = ExtractTraceID c
          in if tID \<noteq> [] then req\<lparr>TraceID_req := tID\<rparr> else req))"

definition ExtractOTelTraceContext :: "ctx \<Rightarrow> job \<Rightarrow> ctx" where
  "ExtractOTelTraceContext c j = (if TraceID j = [] then c else WithTraceID c (TraceID j))"

lemma ExtractTraceID_WithTraceID:
  "ExtractTraceID (WithTraceID c t) = (if t = [] then ExtractTraceID c else t)"
  by (simp add: ExtractTraceID_def WithTraceID_def)

lemma InjectOTelTraceContext_TraceID:
  "TraceID_req (InjectOTelTraceContext c req) =
   (if TraceID_req req \<noteq> [] then TraceID_req req
    else case span c of Some tid \<Rightarrow> tid | None \<Rightarrow> ExtractTraceID c)"
  by (simp add: InjectOTelTraceContext_def Let_def split: option.splits)

lemma InjectOTelTraceContext_other [simp]:
  "ChainID_req (InjectOTelTraceContext c req) = ChainID_req req"
  "Sequence_req (InjectOTelTraceContext c req) = Sequence_req req"
  "Type_req (InjectOTelTraceContext c req) = Type_req req"
  "Payload_req (InjectOTelTraceContext c req) = Payload_req req"
  "IdempotencyKey_req (InjectOTelTraceContext c req) = IdempotencyKey_req req"
  "OrderingMode_req (InjectOTelTraceContext c req) = OrderingMode_req req"
  "MaxAttempts_req (InjectOTelTraceContext c req) = MaxAttempts_req req"
  "AvailableAt_req (InjectOTelTraceContext c req) = AvailableAt_req req"
  by (simp_all add: InjectOTelTraceContext_def Let_def split: option.splits)

section \<open>Observable effects\<close>

text \<open>The calls of the engine on its metrics, its event listener and its logger (by message), and the
  HTTP requests of the webhook listener (URL, headers, body).\<close>

datatype event =
    SetActiveLeases int
  | IncClaimed
  | ObserveQueueDelay string duration
  | ObserveExecDuration string duration
  | IncCompleted string
  | IncFailed string
  | IncRetry string
  | IncPanics string
  | IncClaimConflicts
  | IncStaleRecovered int
  | IncBlockedChain
  | OnJobFailed job gerror
  | OnChainBlocked string job
  | OnDLQThresholdExceeded int
  | LogInfo string
  | LogError string
  | LogDebug string
  | HttpPost string "(string \<times> string) list" string

text \<open>\<open>FunctionalEventListener\<close>: a callback that may be missing; what it does is a list of events.\<close>

record FunctionalEventListener =
  OnJobFailedFunc :: "(job \<Rightarrow> gerror \<Rightarrow> event list) option"
  OnChainBlockedFunc :: "(string \<Rightarrow> job \<Rightarrow> event list) option"
  OnDLQThresholdExceededFunc :: "(int \<Rightarrow> event list) option"

definition OnJobFailed_fn :: "FunctionalEventListener \<Rightarrow> job \<Rightarrow> gerror \<Rightarrow> event list" where
  "OnJobFailed_fn f j err = (case OnJobFailedFunc f of None \<Rightarrow> [] | Some g \<Rightarrow> g j err)"

definition OnChainBlocked_fn :: "FunctionalEventListener \<Rightarrow> string \<Rightarrow> job \<Rightarrow> event list" where
  "OnChainBlocked_fn f chainID j =
    (case OnChainBlockedFunc f of None \<Rightarrow> [] | Some g \<Rightarrow> g chainID j)"

definition OnDLQThresholdExceeded_fn :: "FunctionalEventListener \<Rightarrow> int \<Rightarrow> event list" where
  "OnDLQThresholdExceeded_fn f dlqCount =
    (case OnDLQThresholdExceededFunc f of None \<Rightarrow> [] | Some g \<Rightarrow> g dlqCount)"

end
