(* ===== verification/Handler.thy ===== *)
theory Handler
  imports Context
begin

text \<open>
  Handlers (src/handler.go): the registry of handlers by job type, and the typed handlers that
  unmarshal and validate the payload before the user's function runs.

  A handler is any function of the context, the job and the world \<open>'s\<close>: it returns an error or
  panics (with a value, given by its printed form), and the world it leaves may have been changed
  by everything else that ran meanwhile.
\<close>

section \<open>Registry\<close>

datatype call_result = Returned "gerror option" | Panicked string

type_synonym 's handler = "ctx \<Rightarrow> job \<Rightarrow> 's \<Rightarrow> call_result \<times> 's"

record 's Registry =
  handlers_reg :: "(string \<times> 's handler) list"

definition NewRegistry :: "'s Registry" where
  "NewRegistry = \<lparr>handlers_reg = []\<rparr>"

definition Register :: "string \<Rightarrow> 's handler \<Rightarrow> 's Registry \<Rightarrow> 's Registry" where
  "Register jobType h r = r\<lparr>handlers_reg := AList.update jobType h (handlers_reg r)\<rparr>"

definition Get_handler :: "'s Registry \<Rightarrow> string \<Rightarrow> 's handler option" where
  "Get_handler r jobType = lookup (handlers_reg r) jobType"

definition MustGet :: "'s Registry \<Rightarrow> string \<Rightarrow> gerror + 's handler" where
  "MustGet r jobType =
    (case Get_handler r jobType of None \<Rightarrow> Inl ErrHandlerNotFound | Some h \<Rightarrow> Inr h)"

definition JobTypes :: "'s Registry \<Rightarrow> string list" where
  "JobTypes r = sort (keys (handlers_reg r))"

definition registry_wf :: "'s Registry \<Rightarrow> bool" where
  "registry_wf r \<longleftrightarrow> distinct (keys (handlers_reg r))"

lemma registry_wf_New: "registry_wf NewRegistry"
  by (simp add: registry_wf_def NewRegistry_def)

lemma registry_wf_Register: "registry_wf r \<Longrightarrow> registry_wf (Register t h r)"
  by (simp add: registry_wf_def Register_def)

lemma MustGet_Register:
  "MustGet (Register t h r) t' = (if t' = t then Inr h else MustGet r t')"
  by (simp add: MustGet_def Get_handler_def Register_def)

lemma set_JobTypes: "set (JobTypes r) = {t. \<exists>h. MustGet r t = Inr h}"
proof -
  have "(\<exists>h. MustGet r t = Inr h) \<longleftrightarrow> lookup (handlers_reg r) t \<noteq> None" for t
    by (auto simp: MustGet_def Get_handler_def split: option.splits)
  then show ?thesis by (auto simp: JobTypes_def map_of_eq_None_iff)
qed

section \<open>Typed handlers\<close>

text \<open>
  What the type parameter \<open>T\<close> brings: its zero value, \<open>json.Unmarshal\<close> into it, and the methods
  \<open>Validate\<close> and \<open>ValidateCtx\<close> if the value or the pointer type has them. A method on the pointer
  may change the payload.
\<close>

record 't payload_type =
  zero_val :: 't
  Unmarshal :: "string \<Rightarrow> gerror + 't"
  Validate_val :: "('t \<Rightarrow> gerror option) option"
  Validate_ptr :: "('t \<Rightarrow> gerror option \<times> 't) option"
  ValidateCtx_val :: "(ctx \<Rightarrow> 't \<Rightarrow> gerror option) option"
  ValidateCtx_ptr :: "(ctx \<Rightarrow> 't \<Rightarrow> gerror option \<times> 't) option"

definition validation_error :: "gerror \<Rightarrow> gerror" where
  "validation_error err = NonRetryableError (Errorf2 ErrValidationFailed '': '' err)"

definition self_validate ::
  "('t \<Rightarrow> gerror option) option \<Rightarrow> ('t \<Rightarrow> gerror option \<times> 't) option \<Rightarrow> 't \<Rightarrow> gerror + 't" where
  "self_validate val ptr p =
    (case val of
       Some v \<Rightarrow> (case v p of Some err \<Rightarrow> Inl (validation_error err) | None \<Rightarrow> Inr p)
     | None \<Rightarrow>
         (case ptr of
            Some v \<Rightarrow>
              (case v p of (Some err, _) \<Rightarrow> Inl (validation_error err) | (None, p') \<Rightarrow> Inr p')
          | None \<Rightarrow> Inr p))"

text \<open>Unmarshalling and the three validations: the payload the user's function gets, or the error.\<close>

definition prepare_payload ::
  "'t payload_type \<Rightarrow> (ctx \<Rightarrow> 't \<Rightarrow> gerror option) option \<Rightarrow> ctx \<Rightarrow> job \<Rightarrow> gerror + 't" where
  "prepare_payload pt validator c j =
    (case (if length (Payload j) > 0 \<and> Payload j \<noteq> ''null'' then Unmarshal pt (Payload j)
           else Inr (zero_val pt)) of
       Inl err \<Rightarrow> Inl (NonRetryableError (Errorf1 ''unmarshal payload: '' err []))
     | Inr p \<Rightarrow>
         (case self_validate (Validate_val pt) (Validate_ptr pt) p of
            Inl err \<Rightarrow> Inl err
          | Inr p \<Rightarrow>
              (case self_validate (map_option (\<lambda>v. v c) (ValidateCtx_val pt))
                      (map_option (\<lambda>v. v c) (ValidateCtx_ptr pt)) p of
                 Inl err \<Rightarrow> Inl err
               | Inr p \<Rightarrow>
                   (case validator of
                      None \<Rightarrow> Inr p
                    | Some v \<Rightarrow>
                        (case v c p of Some err \<Rightarrow> Inl (validation_error err) | None \<Rightarrow> Inr p)))))"

definition typed_handler ::
  "'t payload_type \<Rightarrow> (ctx \<Rightarrow> job \<Rightarrow> 't \<Rightarrow> 's \<Rightarrow> call_result \<times> 's) \<Rightarrow>
   (ctx \<Rightarrow> 't \<Rightarrow> gerror option) option \<Rightarrow> 's handler" where
  "typed_handler pt fn validator c j s =
    (case prepare_payload pt validator c j of
       Inl err \<Rightarrow> (Returned (Some err), s)
     | Inr p \<Rightarrow> fn c j p s)"

definition RegisterTypedWithValidator ::
  "'t payload_type \<Rightarrow> string \<Rightarrow> (ctx \<Rightarrow> job \<Rightarrow> 't \<Rightarrow> 's \<Rightarrow> call_result \<times> 's) \<Rightarrow>
   (ctx \<Rightarrow> 't \<Rightarrow> gerror option) option \<Rightarrow> 's Registry \<Rightarrow> 's Registry" where
  "RegisterTypedWithValidator pt jobType fn validator r =
    Register jobType (typed_handler pt fn validator) r"

definition RegisterTyped ::
  "'t payload_type \<Rightarrow> string \<Rightarrow> (ctx \<Rightarrow> job \<Rightarrow> 't \<Rightarrow> 's \<Rightarrow> call_result \<times> 's) \<Rightarrow> 's Registry \<Rightarrow>
   's Registry" where
  "RegisterTyped pt jobType fn r = RegisterTypedWithValidator pt jobType fn None r"

lemma self_validate_error:
  "self_validate val ptr p = Inl e \<Longrightarrow> \<exists>err. e = validation_error err"
  by (auto simp: self_validate_def split: option.splits prod.splits)

lemma validation_error_sel [simp]:
  "IsNonRetryable (Some (validation_error err))"
  "errors_Is (validation_error err) ErrValidationFailed"
  by (simp_all add: validation_error_def errors_Is_def)

section \<open>Properties\<close>

text \<open>the registry. Registering replaces the handler of one type and no other, a type without
  a handler gives \<open>ErrHandlerNotFound\<close>, and \<open>JobTypes\<close> lists exactly the registered types, each
  once, in increasing order.\<close>

theorem registry_contract:
  assumes "registry_wf r"
  shows "registry_wf (Register t h r) \<and>
    (\<forall>t'. MustGet (Register t h r) t' = (if t' = t then Inr h else MustGet r t')) \<and>
    (\<forall>t' e. MustGet r t' = Inl e \<longrightarrow> e = ErrHandlerNotFound) \<and>
    set (JobTypes r) = {t. \<exists>h. MustGet r t = Inr h} \<and> sorted (JobTypes r) \<and> distinct (JobTypes r)"
proof -
  have "e = ErrHandlerNotFound" if "MustGet r t' = Inl e" for t' e
    using that by (auto simp: MustGet_def split: option.splits)
  then show ?thesis
    using registry_wf_Register [OF assms] assms set_JobTypes [of r]
    by (auto simp: MustGet_Register JobTypes_def registry_wf_def)
qed

theorem registry_contract_witness:
  "registry_wf (Register ''email'' (\<lambda>c j s. (Returned None, s :: nat)) NewRegistry)"
  using registry_contract [OF registry_wf_New] by blast

text \<open>a typed handler runs the user's function only on a payload that was unmarshalled and passed
  every validation. Otherwise the world is untouched and the error is non-retryable; it wraps
  \<open>ErrValidationFailed\<close> unless the payload is no JSON for the type.\<close>

theorem typed_handler_validates:
  "(case prepare_payload pt validator c j of
      Inr p \<Rightarrow> typed_handler pt fn validator c j s = fn c j p s \<and>
        (\<forall>v. validator = Some v \<longrightarrow> v c p = None)
    | Inl e \<Rightarrow> typed_handler pt fn validator c j s = (Returned (Some e), s) \<and>
        IsNonRetryable (Some e) \<and>
        (errors_Is e ErrValidationFailed \<or>
         (\<exists>err. Unmarshal pt (Payload j) = Inl err \<and> Payload j \<noteq> [] \<and> Payload j \<noteq> ''null'' \<and>
            e = NonRetryableError (Errorf1 ''unmarshal payload: '' err []))))"
proof (cases "prepare_payload pt validator c j")
  case (Inr p)
  then show ?thesis
    by (auto simp: typed_handler_def prepare_payload_def split: sum.splits option.splits if_splits)
next
  case (Inl e)
  then have "(\<exists>err. e = validation_error err) \<or>
      (\<exists>err. Unmarshal pt (Payload j) = Inl err \<and> Payload j \<noteq> [] \<and> Payload j \<noteq> ''null'' \<and>
            e = NonRetryableError (Errorf1 ''unmarshal payload: '' err []))"
    by (auto simp: prepare_payload_def dest!: self_validate_error
        split: sum.splits option.splits if_splits)
  with Inl show ?thesis by (auto simp: typed_handler_def)
qed

theorem typed_handler_validates_witness:
  "\<exists>pt :: nat payload_type. \<exists>e.
     typed_handler pt (\<lambda>c j p s. (Returned None, s + p)) (Some (\<lambda>c p. Some (Message ''bad'')))
       Background (zero_Job\<lparr>Payload := ''7''\<rparr>) (3 :: nat) = (Returned (Some e), 3) \<and>
     IsNonRetryable (Some e) \<and> errors_Is e ErrValidationFailed"
proof -
  let ?pt = "\<lparr>zero_val = 0, Unmarshal = (\<lambda>s. Inr (length s)), Validate_val = None,
    Validate_ptr = None, ValidateCtx_val = None, ValidateCtx_ptr = None\<rparr> :: nat payload_type"
  let ?v = "Some (\<lambda>(c :: ctx) (p :: nat). Some (Message ''bad''))"
  let ?j = "zero_Job\<lparr>Payload := ''7''\<rparr>"
  have p: "prepare_payload ?pt ?v Background ?j = Inl (validation_error (Message ''bad''))"
    by (simp add: prepare_payload_def self_validate_def zero_Job_def)
  from typed_handler_validates [where pt = ?pt and validator = ?v and c = Background and j = ?j
      and fn = "\<lambda>c j p s. (Returned None, s + p)" and s = "3 :: nat"]
  show ?thesis unfolding p by (intro exI [of _ ?pt] exI [of _ "validation_error (Message ''bad'')"]) simp
qed

end
