(* ===== verification/Memory.thy ===== *)
theory Memory
  imports Job_Types
begin

text \<open>
  The in-memory repository (src/repository/memory/repository.go): its state, the well-formedness of
  its two indexes, and \<open>Enqueue\<close>, \<open>EnqueueBatch\<close>, \<open>Get\<close> and \<open>GetByChainSeq\<close>.

  Every exported method holds the repository's mutex from its first statement to its return, so a
  method is one function on the state. \<open>time.Now()\<close> and \<open>uuid.New()\<close> are arguments (\<open>now\<close>, \<open>jid\<close>).
  Sequences and counters are unbounded integers: a request's sequence is at most one above the
  largest of its chain, so that 2 ^ 63 is out of reach (theory System bounds it by the
  number of steps).
\<close>

section \<open>State\<close>

record repo =
  jobs :: "(uuid \<times> job) list"
  chain :: "(string \<times> (int \<times> uuid) list) list"

definition New_mem :: repo where
  "New_mem = \<lparr>jobs = [], chain = []\<rparr>"

definition NotifyChannel_mem :: "repo \<Rightarrow> string" where
  "NotifyChannel_mem r = []"

text \<open>\<open>r.jobs[jid] = job\<close>, \<open>r.jobs[jid]\<close> with its zero value, and \<open>r.chain[c][q]\<close>.\<close>

definition setJob :: "uuid \<Rightarrow> job \<Rightarrow> repo \<Rightarrow> repo" where
  "setJob jid j r = r\<lparr>jobs := AList.update jid j (jobs r)\<rparr>"

abbreviation jobAt :: "repo \<Rightarrow> uuid \<Rightarrow> job option" where
  "jobAt r \<equiv> lookup (jobs r)"

definition job_or_zero :: "repo \<Rightarrow> uuid \<Rightarrow> job" where
  "job_or_zero r jid = (case jobAt r jid of None \<Rightarrow> zero_Job | Some j \<Rightarrow> j)"

definition idAt :: "repo \<Rightarrow> string \<Rightarrow> int \<Rightarrow> uuid option" where
  "idAt r c q = (case lookup (chain r) c of None \<Rightarrow> None | Some m \<Rightarrow> lookup m q)"

section \<open>Enqueue\<close>

definition findJobByIdempotencyKey :: "repo \<Rightarrow> string \<Rightarrow> job option" where
  "findJobByIdempotencyKey r key =
    (case List.find (\<lambda>(_, existing). IdempotencyKey existing = key) (jobs r) of
       None \<Rightarrow> None
     | Some (_, existing) \<Rightarrow> Some existing)"

definition getMaxSequence :: "repo \<Rightarrow> string \<Rightarrow> int" where
  "getMaxSequence r c =
    (case lookup (chain r) c of
       None \<Rightarrow> 0
     | Some m \<Rightarrow> fold (\<lambda>(s, _) mx. if s > mx then s else mx) m 0)"

definition validateAndResolveSequence :: "repo \<Rightarrow> string \<Rightarrow> int \<Rightarrow> gerror + int" where
  "validateAndResolveSequence r c seq =
    (if seq = 0 then Inr (getMaxSequence r c + 1)
     else case lookup (chain r) c of
       Some m \<Rightarrow>
         if seq > 1 \<and> lookup m (seq - 1) = None \<and> seq > getMaxSequence r c + 1
         then Inl (Errorf1 [] ErrSequenceGap
           ('': missing predecessor '' @ format_int (seq - 1) @ '' for chain '' @ c))
         else if lookup m seq \<noteq> None then Inl ErrDuplicateChainSeq
         else Inr seq
     | None \<Rightarrow>
         if seq > 1 then Inl (Errorf1 [] ErrSequenceGap '': first job must be seq 1'')
         else Inr seq)"

definition determineInitialStatus :: "repo \<Rightarrow> string \<Rightarrow> int \<Rightarrow> string" where
  "determineInitialStatus r c seq =
    (if seq \<le> 1 then StatePending
     else case lookup (chain r) c of
       None \<Rightarrow> StateBlocked
     | Some m \<Rightarrow>
         (case lookup m (seq - 1) of
            None \<Rightarrow> StateBlocked
          | Some predID \<Rightarrow>
              if \<not> isPredFinished (job_or_zero r predID) then StateBlocked else StatePending))"

text \<open>The payload bytes: an error of \<open>json.Marshal\<close> is dropped, leaving no bytes.\<close>

definition payload_bytes :: "any_value \<Rightarrow> string" where
  "payload_bytes v =
    (let bytes = (case json_Marshal v of Inl _ \<Rightarrow> [] | Inr b \<Rightarrow> b)
     in if length bytes = 0 \<or> bytes = ''null'' then ''{}'' else bytes)"

definition newJob :: "time \<Rightarrow> uuid \<Rightarrow> EnqueueRequest \<Rightarrow> int \<Rightarrow> string \<Rightarrow> job" where
  "newJob now jid req seq status =
    \<lparr>ID = jid, ChainID = ChainID_req req, Sequence = seq, Type = Type_req req,
     Payload = payload_bytes (Payload_req req), IdempotencyKey = IdempotencyKey_req req,
     TenantID = TenantID_req req,
     OrderingMode = (if OrderingMode_req req = [] then OrderingModeStrict
                     else OrderingMode_req req),
     Status = status, Attempt = 0,
     MaxAttempts = (if MaxAttempts_req req = 0 then 5 else MaxAttempts_req req),
     AvailableAt = (case AvailableAt_req req of None \<Rightarrow> now | Some t \<Rightarrow> t),
     DeadlineAt = DeadlineAt_req req, WorkerID = [], LeaseUntil = None, LeaseGeneration = 0,
     LastError = [], CreatedAt = now, UpdatedAt = now, StartedAt = None, CompletedAt = None,
     FailedAt = None, TraceID = TraceID_req req\<rparr>"

definition insertJob :: "job \<Rightarrow> repo \<Rightarrow> repo" where
  "insertJob j r =
    (let r1 = setJob (ID j) j r;
         m = (case lookup (chain r1) (ChainID j) of None \<Rightarrow> [] | Some m \<Rightarrow> m)
     in r1\<lparr>chain := AList.update (ChainID j) (AList.update (Sequence j) (ID j) m) (chain r1)\<rparr>)"

definition enqueueSingleInMemory ::
  "time \<Rightarrow> uuid \<Rightarrow> EnqueueRequest \<Rightarrow> repo \<Rightarrow> (gerror + job) \<times> repo" where
  "enqueueSingleInMemory now jid req r =
    (if ChainID_req req = [] then (Inl (Message ''chain_id required''), r)
     else case (if IdempotencyKey_req req \<noteq> []
                then findJobByIdempotencyKey r (IdempotencyKey_req req) else None) of
       Some existing \<Rightarrow> (Inr existing, r)
     | None \<Rightarrow>
         (case validateAndResolveSequence r (ChainID_req req) (Sequence_req req) of
            Inl err \<Rightarrow> (Inl err, r)
          | Inr seq \<Rightarrow>
              (let status = determineInitialStatus r (ChainID_req req) seq;
                   job = newJob now jid req seq status
               in (Inr job, insertJob job r))))"

definition Enqueue_mem ::
  "time \<Rightarrow> uuid \<Rightarrow> EnqueueRequest \<Rightarrow> repo \<Rightarrow> (gerror + job) \<times> repo" where
  "Enqueue_mem now jid req r = enqueueSingleInMemory now jid req r"

text \<open>
  \<open>EnqueueBatch\<close>: the clock and the id generator are read once per request, so each request comes
  with its own pair. On the first error the two maps are put back.
\<close>

fun enqueue_loop ::
  "((time \<times> uuid) \<times> EnqueueRequest) list \<Rightarrow> job list \<Rightarrow> repo \<Rightarrow> (gerror + job list) \<times> repo" where
  "enqueue_loop [] out r = (Inr out, r)"
| "enqueue_loop (((now, jid), req) # reqs) out r =
     (case enqueueSingleInMemory now jid req r of
        (Inl err, r') \<Rightarrow> (Inl err, r')
      | (Inr job, r') \<Rightarrow> enqueue_loop reqs (out @ [job]) r')"

definition EnqueueBatch_mem ::
  "((time \<times> uuid) \<times> EnqueueRequest) list \<Rightarrow> repo \<Rightarrow> (gerror + job list) \<times> repo" where
  "EnqueueBatch_mem reqs r =
    (let backupJobs = jobs r; backupChain = chain r in
     case enqueue_loop reqs [] r of
       (Inl err, r') \<Rightarrow> (Inl err, r'\<lparr>jobs := backupJobs, chain := backupChain\<rparr>)
     | (Inr out, r') \<Rightarrow> (Inr out, r'))"

section \<open>Reading\<close>

definition Get_mem :: "uuid \<Rightarrow> repo \<Rightarrow> gerror + job" where
  "Get_mem jid r = (case jobAt r jid of None \<Rightarrow> Inl ErrNotFound | Some j \<Rightarrow> Inr j)"

definition GetByChainSeq_mem :: "string \<Rightarrow> int \<Rightarrow> repo \<Rightarrow> gerror + job" where
  "GetByChainSeq_mem c seq r =
    (case lookup (chain r) c of
       Some m \<Rightarrow> (case lookup m seq of
          Some jid \<Rightarrow> Inr (job_or_zero r jid)
        | None \<Rightarrow> Inl ErrNotFound)
     | None \<Rightarrow> Inl ErrNotFound)"

end
