(* ===== verification/Memory_Wf.thy ===== *)
theory Memory_Wf
  imports Memory
begin

text \<open>
  Invariants of the in-memory repository and what \<open>Enqueue\<close> and \<open>EnqueueBatch\<close> do under them.

  \<^item> \<open>repo_wf\<close>: the chain index and the job map describe each other exactly.
  \<^item> \<open>idem_unique\<close>: an idempotency key names at most one job.
  \<^item> \<open>gap_free\<close>: a job above sequence 1 has its predecessor in the repository.
\<close>

section \<open>Reading after writing\<close>

lemma jobAt_setJob [simp, reads]:
  "jobAt (setJob i j r) k = (if k = i then Some j else jobAt r k)"
  by (simp add: setJob_def)

lemma chain_setJob [simp, reads]: "chain (setJob i j r) = chain r"
  by (simp add: setJob_def)

lemma idAt_setJob [simp, reads]: "idAt (setJob i j r) = idAt r"
  by (simp add: idAt_def fun_eq_iff)

lemma keys_setJob: "jobAt r i = Some j \<Longrightarrow> keys (jobs (setJob i j' r)) = keys (jobs r)"
  by (simp add: setJob_def keys_update_old map_of_SomeD [THEN imageI [where f = fst], simplified])

lemma jobAt_insertJob [simp, reads]:
  "jobAt (insertJob j r) k = (if k = ID j then Some j else jobAt r k)"
  by (simp add: insertJob_def Let_def setJob_def)

lemma idAt_insertJob [simp, reads]:
  "idAt (insertJob j r) c q =
   (if c = ChainID j \<and> q = Sequence j then Some (ID j) else idAt r c q)"
  by (auto simp: insertJob_def Let_def idAt_def setJob_def split: option.splits)

section \<open>Well-formedness\<close>

definition repo_wf :: "repo \<Rightarrow> bool" where
  "repo_wf r \<longleftrightarrow>
     distinct (keys (jobs r)) \<and> distinct (keys (chain r)) \<and>
     (\<forall>c m. lookup (chain r) c = Some m \<longrightarrow> m \<noteq> [] \<and> distinct (keys m)) \<and>
     (\<forall>c q i. idAt r c q = Some i \<longleftrightarrow>
        (\<exists>j. jobAt r i = Some j \<and> ChainID j = c \<and> Sequence j = q)) \<and>
     (\<forall>i j. jobAt r i = Some j \<longrightarrow> ID j = i)"

lemma repo_wf_distinct: "repo_wf r \<Longrightarrow> distinct (keys (jobs r))"
  by (simp add: repo_wf_def)

lemma repo_wf_ID: "repo_wf r \<Longrightarrow> jobAt r i = Some j \<Longrightarrow> ID j = i"
  by (simp add: repo_wf_def)

lemma repo_wf_chain: "repo_wf r \<Longrightarrow> lookup (chain r) c = Some m \<Longrightarrow> m \<noteq> [] \<and> distinct (keys m)"
  unfolding repo_wf_def by blast

lemma repo_wf_index: "repo_wf r \<Longrightarrow> jobAt r i = Some j \<Longrightarrow> idAt r (ChainID j) (Sequence j) = Some i"
  by (auto simp: repo_wf_def)

lemma repo_wf_idAt:
  "repo_wf r \<Longrightarrow> idAt r c q = Some i \<Longrightarrow> \<exists>j. jobAt r i = Some j \<and> ChainID j = c \<and> Sequence j = q"
  by (simp add: repo_wf_def)

lemma repo_wf_idAt_iff:
  "repo_wf r \<Longrightarrow> idAt r c q = Some i \<longleftrightarrow>
   (\<exists>j. jobAt r i = Some j \<and> ChainID j = c \<and> Sequence j = q)"
  by (simp add: repo_wf_def)

lemma repo_wf_job_or_zero:
  "repo_wf r \<Longrightarrow> idAt r c q = Some i \<Longrightarrow>
   jobAt r i = Some (job_or_zero r i) \<and> ChainID (job_or_zero r i) = c \<and>
   Sequence (job_or_zero r i) = q"
  by (auto dest!: repo_wf_idAt simp: job_or_zero_def)

lemma repo_wf_unique_slot:
  "repo_wf r \<Longrightarrow> jobAt r i = Some j \<Longrightarrow> jobAt r i' = Some j' \<Longrightarrow>
   ChainID j = ChainID j' \<Longrightarrow> Sequence j = Sequence j' \<Longrightarrow> i = i'"
  by (metis option.inject repo_wf_index)

lemma repo_wf_New: "repo_wf New_mem"
  by (simp add: repo_wf_def New_mem_def idAt_def)

text \<open>The fields no operation of the repository writes after the job was created.\<close>

definition same_identity :: "job \<Rightarrow> job \<Rightarrow> bool" where
  "same_identity j j' \<longleftrightarrow>
     ID j' = ID j \<and> ChainID j' = ChainID j \<and> Sequence j' = Sequence j \<and> Type j' = Type j \<and>
     IdempotencyKey j' = IdempotencyKey j \<and> TenantID j' = TenantID j \<and>
     OrderingMode j' = OrderingMode j \<and> MaxAttempts j' = MaxAttempts j \<and>
     DeadlineAt j' = DeadlineAt j \<and> CreatedAt j' = CreatedAt j \<and> TraceID j' = TraceID j"

lemma same_identity_refl [simp]: "same_identity j j"
  by (simp add: same_identity_def)

lemma same_identity_trans:
  "same_identity a b \<Longrightarrow> same_identity b c \<Longrightarrow> same_identity a c"
  by (simp add: same_identity_def)

lemma repo_wf_setJob [inv_intro]:
  assumes "repo_wf r" and "jobAt r i = Some j" and "same_identity j j'"
  shows "repo_wf (setJob i j' r)"
proof -
  have "distinct (keys (jobs (setJob i j' r)))"
    using assms(1) by (simp add: setJob_def repo_wf_def)
  moreover have "(\<exists>ja. jobAt (setJob i j' r) k = Some ja \<and> ChainID ja = c \<and> Sequence ja = q)
      \<longleftrightarrow> (\<exists>ja. jobAt r k = Some ja \<and> ChainID ja = c \<and> Sequence ja = q)" for k c q
    using assms(2,3) by (auto simp: same_identity_def)
  ultimately show ?thesis
    using assms by (simp add: repo_wf_def same_identity_def)
qed

lemma lookup_chain_insertJob:
  "lookup (chain (insertJob j r)) c =
   (if c = ChainID j
    then Some (AList.update (Sequence j) (ID j)
           (case lookup (chain r) (ChainID j) of None \<Rightarrow> [] | Some m \<Rightarrow> m))
    else lookup (chain r) c)"
  by (simp add: insertJob_def Let_def)

lemma repo_wf_insertJob:
  assumes "repo_wf r" and new: "jobAt r (ID j) = None" "idAt r (ChainID j) (Sequence j) = None"
  shows "repo_wf (insertJob j r)"
proof -
  have "distinct (keys (jobs (insertJob j r)))" "distinct (keys (chain (insertJob j r)))"
    using assms(1) by (simp_all add: repo_wf_def insertJob_def Let_def setJob_def)
  moreover have "m \<noteq> [] \<and> distinct (keys m)" if "lookup (chain (insertJob j r)) c = Some m" for c m
    using assms(1) that
    by (auto simp: repo_wf_def lookup_chain_insertJob split: if_splits option.splits)
  moreover have "idAt (insertJob j r) c q = Some i \<longleftrightarrow>
      (\<exists>ja. jobAt (insertJob j r) i = Some ja \<and> ChainID ja = c \<and> Sequence ja = q)" for c q i
    using repo_wf_idAt [OF assms(1), of c q i] repo_wf_index [OF assms(1), of i] new by auto
  moreover have "ID ja = i" if "jobAt (insertJob j r) i = Some ja" for i ja
    using assms(1) that by (auto simp: repo_wf_def split: if_splits)
  ultimately show ?thesis unfolding repo_wf_def by blast
qed

section \<open>The largest sequence of a chain\<close>

lemma fold_max_bounds:
  fixes m :: "(int \<times> 'a) list"
  defines "f \<equiv> fold (\<lambda>(s, _) mx. if s > mx then s else mx)"
  shows "a \<le> f m a" and "\<forall>q \<in> fst ` set m. q \<le> f m a" and "f m a = a \<or> f m a \<in> fst ` set m"
proof -
  have "a \<le> f m a \<and> (\<forall>q \<in> fst ` set m. q \<le> f m a) \<and> (f m a = a \<or> f m a \<in> fst ` set m)"
    unfolding f_def
  proof (induction m arbitrary: a)
    case (Cons x m)
    obtain s i where x: "x = (s, i)" by (cases x)
    show ?case using Cons [of "if s > a then s else a"] by (auto simp: x split: if_splits)
  qed simp
  then show "a \<le> f m a" and "\<forall>q \<in> fst ` set m. q \<le> f m a"
    and "f m a = a \<or> f m a \<in> fst ` set m" by blast+
qed

lemma getMaxSequence_nonneg: "0 \<le> getMaxSequence r c"
  by (auto simp: getMaxSequence_def fold_max_bounds(1) split: option.splits)

lemma getMaxSequence_upper: "idAt r c q = Some i \<Longrightarrow> q \<le> getMaxSequence r c"
  using fold_max_bounds(2)
  by (fastforce simp: idAt_def getMaxSequence_def split: option.splits
      dest!: map_of_SomeD)

lemma getMaxSequence_attained:
  "getMaxSequence r c = 0 \<or> (\<exists>i. idAt r c (getMaxSequence r c) = Some i)"
proof (cases "lookup (chain r) c")
  case (Some m)
  show ?thesis
    using fold_max_bounds(3) [of m 0] Some
    by (auto simp: getMaxSequence_def idAt_def map_of_eq_None_iff simp flip: not_None_eq)
qed (simp add: getMaxSequence_def)

lemma getMaxSequence_least:
  "(\<And>q i. idAt r c q = Some i \<Longrightarrow> q \<le> b) \<Longrightarrow> 0 \<le> b \<Longrightarrow> getMaxSequence r c \<le> b"
  using getMaxSequence_attained [of r c] by auto

lemma getMaxSequence_cong: "idAt r' c = idAt r c \<Longrightarrow> getMaxSequence r' c = getMaxSequence r c"
  by (metis antisym getMaxSequence_least getMaxSequence_nonneg getMaxSequence_upper)

section \<open>Sequence validation\<close>

lemma validate_accepts:
  assumes "validateAndResolveSequence r c seq = Inr q"
  shows "idAt r c q = None" and "q \<le> getMaxSequence r c + 1" and "seq \<noteq> 0 \<Longrightarrow> q = seq"
    and "seq = 0 \<Longrightarrow> q = getMaxSequence r c + 1"
proof -
  show "idAt r c q = None"
  proof (cases "seq = 0")
    case True
    with assms have "q = getMaxSequence r c + 1" by (simp add: validateAndResolveSequence_def)
    then show ?thesis using getMaxSequence_upper [of r c q] by force
  qed (use assms in \<open>auto simp: validateAndResolveSequence_def idAt_def
        split: option.splits if_splits\<close>)
  have cases: "idAt r c (q - 1) \<noteq> None \<or> q \<le> getMaxSequence r c + 1"
    using assms getMaxSequence_nonneg [of r c]
    by (auto simp: validateAndResolveSequence_def idAt_def split: option.splits if_splits)
  then show "q \<le> getMaxSequence r c + 1"
    using getMaxSequence_upper [of r c "q - 1"] by fastforce
qed (use assms in \<open>auto simp: validateAndResolveSequence_def split: option.splits if_splits\<close>)

section \<open>Looking a job up by its idempotency key\<close>

definition idem_unique :: "repo \<Rightarrow> bool" where
  "idem_unique r \<longleftrightarrow>
     (\<forall>i i' j j'. jobAt r i = Some j \<and> jobAt r i' = Some j' \<and> IdempotencyKey j \<noteq> [] \<and>
        IdempotencyKey j = IdempotencyKey j' \<longrightarrow> i = i')"

lemma findJob_Some:
  "repo_wf r \<Longrightarrow> findJobByIdempotencyKey r key = Some j \<Longrightarrow>
   jobAt r (ID j) = Some j \<and> IdempotencyKey j = key"
proof -
  assume repo_wf: "repo_wf r" and "findJobByIdempotencyKey r key = Some j"
  then obtain i where "List.find (\<lambda>(_, j). IdempotencyKey j = key) (jobs r) = Some (i, j)"
    by (auto simp: findJobByIdempotencyKey_def split: option.splits)
  then have "(i, j) \<in> set (jobs r)" and key: "IdempotencyKey j = key"
    by (auto dest: find_Some_mem)
  then have "jobAt r i = Some j" using repo_wf by (simp add: repo_wf_distinct)
  with repo_wf_ID [OF repo_wf this] key show ?thesis by simp
qed

lemma findJob_None:
  assumes "findJobByIdempotencyKey r key = None" and "jobAt r i = Some j"
  shows "IdempotencyKey j \<noteq> key"
  using assms by (auto simp: findJobByIdempotencyKey_def find_None_iff split: option.splits
      dest!: map_of_SomeD)

lemma findJob_unique:
  assumes "repo_wf r" "idem_unique r" "jobAt r i = Some j" "IdempotencyKey j = key" "key \<noteq> []"
  shows "findJobByIdempotencyKey r key = Some j"
proof (cases "findJobByIdempotencyKey r key")
  case None
  with findJob_None assms show ?thesis by blast
next
  case (Some k)
  with findJob_Some [OF assms(1) Some] assms show ?thesis
    by (metis idem_unique_def option.inject)
qed

end
