(* ===== verification/Memory_Enqueue.thy ===== *)
theory Memory_Enqueue
  imports Memory_Wf
begin

text \<open>
  What \<open>Enqueue\<close> and \<open>EnqueueBatch\<close> of the in-memory repository do: which sequence numbers are
  accepted, which status a new job gets, the idempotency of keys, the atomicity of a batch, and the
  invariants they keep. \<open>uuid.New()\<close> is assumed not to repeat an id of the repository, which is
  what the code relies on; it is a hypothesis of the lemmas that need it.
\<close>

section \<open>The result of an enqueue, branch by branch\<close>

text \<open>Sequence validation decides by the largest sequence alone.\<close>

lemma validate_spec:
  "validateAndResolveSequence r c seq =
   (if seq = 0 then Inr (getMaxSequence r c + 1)
    else if seq > getMaxSequence r c + 1 then
      Inl (if lookup (chain r) c = None then Errorf1 [] ErrSequenceGap '': first job must be seq 1''
           else Errorf1 [] ErrSequenceGap
             ('': missing predecessor '' @ format_int (seq - 1) @ '' for chain '' @ c))
    else if idAt r c seq \<noteq> None then Inl ErrDuplicateChainSeq
    else Inr seq)"
proof (cases "lookup (chain r) c")
  case None
  then show ?thesis
    by (auto simp: validateAndResolveSequence_def idAt_def getMaxSequence_def)
next
  case (Some m)
  have "lookup m (seq - 1) = None" if "seq > getMaxSequence r c + 1"
    using that getMaxSequence_upper [of r c "seq - 1"] Some by (force simp: idAt_def)
  then show ?thesis
    using Some getMaxSequence_nonneg [of r c]
    by (simp add: validateAndResolveSequence_def idAt_def)
qed

lemma validate_gap:
  "seq > getMaxSequence r c + 1 \<Longrightarrow>
   \<exists>e. validateAndResolveSequence r c seq = Inl e \<and> errors_Is e ErrSequenceGap"
  using getMaxSequence_nonneg [of r c] by (simp add: validate_spec errors_Is_def)

lemma enqueue_cases:
  obtains
    (no_chain) "ChainID_req req = []"
      "enqueueSingleInMemory now jid req r = (Inl (Message ''chain_id required''), r)"
  | (known) e where "ChainID_req req \<noteq> []" "IdempotencyKey_req req \<noteq> []"
      "findJobByIdempotencyKey r (IdempotencyKey_req req) = Some e"
      "enqueueSingleInMemory now jid req r = (Inr e, r)"
  | (rejected) err where "ChainID_req req \<noteq> []"
      "validateAndResolveSequence r (ChainID_req req) (Sequence_req req) = Inl err"
      "enqueueSingleInMemory now jid req r = (Inl err, r)"
  | (created) q j where "ChainID_req req \<noteq> []"
      "IdempotencyKey_req req = [] \<or>
       findJobByIdempotencyKey r (IdempotencyKey_req req) = None"
      "validateAndResolveSequence r (ChainID_req req) (Sequence_req req) = Inr q"
      "j = newJob now jid req q (determineInitialStatus r (ChainID_req req) q)"
      "enqueueSingleInMemory now jid req r = (Inr j, insertJob j r)"
proof -
  let ?look = "if IdempotencyKey_req req \<noteq> []
    then findJobByIdempotencyKey r (IdempotencyKey_req req) else None"
  let ?val = "validateAndResolveSequence r (ChainID_req req) (Sequence_req req)"
  consider "ChainID_req req = []" | e where "ChainID_req req \<noteq> []" "?look = Some e"
    | err where "ChainID_req req \<noteq> []" "?look = None" "?val = Inl err"
    | q where "ChainID_req req \<noteq> []" "?look = None" "?val = Inr q"
    by (cases "?look"; cases "?val") auto
  then show thesis
  proof cases
    case 1
    then show thesis by (intro no_chain) (simp_all add: enqueueSingleInMemory_def)
  next
    case 2
    then show thesis
      by (intro known) (auto simp: enqueueSingleInMemory_def split: if_splits)
  next
    case 3
    then show thesis by (intro rejected) (simp_all add: enqueueSingleInMemory_def)
  next
    case 4
    then show thesis
      by (intro created) (auto simp: enqueueSingleInMemory_def Let_def split: if_splits)
  qed
qed

lemma newJob_sel [simp]:
  "ID (newJob now jid req q st) = jid"
  "ChainID (newJob now jid req q st) = ChainID_req req"
  "Sequence (newJob now jid req q st) = q"
  "Status (newJob now jid req q st) = st"
  "IdempotencyKey (newJob now jid req q st) = IdempotencyKey_req req"
  "StartedAt (newJob now jid req q st) = None"
  "CompletedAt (newJob now jid req q st) = None"
  "WorkerID (newJob now jid req q st) = []"
  "LeaseGeneration (newJob now jid req q st) = 0"
  "LeaseUntil (newJob now jid req q st) = None"
  "Attempt (newJob now jid req q st) = 0"
  "Type (newJob now jid req q st) = Type_req req"
  by (simp_all add: newJob_def)

lemma determineInitialStatus_idAt:
  "determineInitialStatus r c q =
   (if q \<le> 1 then StatePending
    else case idAt r c (q - 1) of
      None \<Rightarrow> StateBlocked
    | Some i \<Rightarrow> if isPredFinished (job_or_zero r i) then StatePending else StateBlocked)"
  by (simp add: determineInitialStatus_def idAt_def split: option.splits)

section \<open>Invariants\<close>

definition gap_free :: "repo \<Rightarrow> bool" where
  "gap_free r \<longleftrightarrow> (\<forall>c q i. idAt r c q = Some i \<and> 1 < q \<longrightarrow> idAt r c (q - 1) \<noteq> None)"

lemma gap_free_below:
  assumes "gap_free r" and "idAt r c q \<noteq> None" and "1 \<le> p" and "p \<le> q"
  shows "idAt r c p \<noteq> None"
  using assms(4,3,2)
proof (induction p rule: int_le_induct)
  case (step p)
  from step.prems(1) have p: "1 \<le> p" "1 < p" by simp_all
  from step.IH [OF p(1) step.prems(2)] obtain i where "idAt r c p = Some i" by blast
  with p(2) assms(1) show ?case unfolding gap_free_def by blast
qed simp

lemma gap_free_next:
  assumes "gap_free r" and "idAt r c q = None" and "1 < q" and "q \<le> getMaxSequence r c + 1"
  shows "q = getMaxSequence r c + 1" and "idAt r c (q - 1) \<noteq> None"
proof -
  have "1 \<le> getMaxSequence r c" using assms(3,4) by simp
  then obtain i where i: "idAt r c (getMaxSequence r c) = Some i"
    using getMaxSequence_attained [of r c] by auto
  show q: "q = getMaxSequence r c + 1"
  proof (rule ccontr)
    assume "q \<noteq> getMaxSequence r c + 1"
    with assms(3,4) have "1 \<le> q" and "q \<le> getMaxSequence r c" by linarith+
    with i have "idAt r c q \<noteq> None"
      using gap_free_below [OF assms(1), of c "getMaxSequence r c" q] by blast
    with assms(2) show False by simp
  qed
  show "idAt r c (q - 1) \<noteq> None" by (simp add: q i)
qed

lemma gap_free_insertJob:
  assumes gf: "gap_free r" and "idAt r (ChainID j) (Sequence j) = None"
    and "Sequence j \<le> getMaxSequence r (ChainID j) + 1"
  shows "gap_free (insertJob j r)"
  unfolding gap_free_def
proof (intro allI impI)
  fix c q i
  assume q: "idAt (insertJob j r) c q = Some i \<and> 1 < q"
  show "idAt (insertJob j r) c (q - 1) \<noteq> None"
  proof (cases "c = ChainID j \<and> q = Sequence j")
    case True
    with gap_free_next(2) [OF gf, of "ChainID j" "Sequence j"] assms(2,3) q show ?thesis by auto
  next
    case False
    then have "idAt r c q = Some i" using q by auto
    then have "idAt r c (q - 1) \<noteq> None" using gf q by (auto simp: gap_free_def)
    then show ?thesis by simp
  qed
qed

text \<open>The invariants of a repository nothing was purged from, together.\<close>

definition repo_ok :: "repo \<Rightarrow> bool" where
  "repo_ok r \<longleftrightarrow> repo_wf r \<and> idem_unique r"

lemma idem_unique_insertJob:
  assumes "idem_unique r" and "jobAt r (ID j) = None"
    and "IdempotencyKey j = [] \<or> (\<forall>i k. jobAt r i = Some k \<longrightarrow> IdempotencyKey k \<noteq> IdempotencyKey j)"
  shows "idem_unique (insertJob j r)"
  using assms unfolding idem_unique_def jobAt_insertJob by (metis option.inject)

lemma idem_unique_setJob [inv_intro]:
  assumes "idem_unique r" and "jobAt r i = Some j" and "same_identity j j'"
  shows "idem_unique (setJob i j' r)"
proof -
  have "IdempotencyKey j' = IdempotencyKey j" using assms(3) by (simp add: same_identity_def)
  then have "\<exists>k'. jobAt r a = Some k' \<and> IdempotencyKey k' = IdempotencyKey k"
    if "jobAt (setJob i j' r) a = Some k" for a k
    using that assms(2) by (auto split: if_splits)
  with assms(1) show ?thesis unfolding idem_unique_def by metis
qed

lemma repo_ok_setJob [inv_intro]:
  "repo_ok r \<Longrightarrow> jobAt r i = Some j \<Longrightarrow> same_identity j j' \<Longrightarrow> repo_ok (setJob i j' r)"
  by (auto simp: repo_ok_def intro: inv_intro)

lemma gap_free_setJob [simp]: "gap_free (setJob i j r) = gap_free r"
  by (simp add: gap_free_def)

lemma repo_ok_New: "repo_ok New_mem"
  using repo_wf_New by (simp add: repo_ok_def idem_unique_def) (simp add: New_mem_def)

lemma enqueueSingle_repo_ok:
  assumes "repo_ok r" and "jobAt r jid = None"
  shows "repo_ok (snd (enqueueSingleInMemory now jid req r))"
proof (cases rule: enqueue_cases [of req now jid r])
  case (created q j)
  then have "idAt r (ChainID j) (Sequence j) = None"
    using validate_accepts(1) by simp
  moreover have "IdempotencyKey j = [] \<or>
      (\<forall>i k. jobAt r i = Some k \<longrightarrow> IdempotencyKey k \<noteq> IdempotencyKey j)"
    using created findJob_None by auto
  ultimately show ?thesis
    using assms created by (auto simp: repo_ok_def intro!: repo_wf_insertJob idem_unique_insertJob)
qed (use assms in simp_all)

lemma enqueueSingle_gap_free:
  assumes "gap_free r"
  shows "gap_free (snd (enqueueSingleInMemory now jid req r))"
proof (cases rule: enqueue_cases [of req now jid r])
  case (created q j)
  with validate_accepts [OF created(3)] assms show ?thesis
    by (auto intro!: gap_free_insertJob)
qed (use assms in simp_all)

section \<open>Batches\<close>

text \<open>Ids of a batch that the repository does not hold yet, no two alike.\<close>

definition fresh_batch :: "((time \<times> uuid) \<times> EnqueueRequest) list \<Rightarrow> repo \<Rightarrow> bool" where
  "fresh_batch reqs r \<longleftrightarrow>
     distinct (map (\<lambda>((_, i), _). i) reqs) \<and> (\<forall>((_, i), _) \<in> set reqs. jobAt r i = None)"

lemma enqueueSingle_jobAt:
  assumes "i \<noteq> jid"
  shows "jobAt (snd (enqueueSingleInMemory now jid req r)) i = jobAt r i"
  by (cases rule: enqueue_cases [of req now jid r]) (use assms in simp_all)

lemma enqueueSingle_keeps:
  assumes "jobAt r jid = None" and "jobAt r i = Some j"
  shows "jobAt (snd (enqueueSingleInMemory now jid req r)) i = Some j"
  using assms by (subst enqueueSingle_jobAt) auto

lemma enqueueSingle_stored:
  assumes "repo_wf r" and "enqueueSingleInMemory now jid req r = (Inr j, r')"
  shows "jobAt r' (ID j) = Some j"
  by (cases rule: enqueue_cases [of req now jid r])
     (use assms findJob_Some in \<open>auto\<close>)

lemma fresh_batch_Cons:
  assumes "fresh_batch (((now, jid), req) # reqs) r"
  shows "jobAt r jid = None" and "fresh_batch reqs (snd (enqueueSingleInMemory now jid req r))"
proof -
  show "jobAt r jid = None" using assms by (simp add: fresh_batch_def)
  have "jobAt (snd (enqueueSingleInMemory now jid req r)) i = None"
    if "((n, i), q) \<in> set reqs" for n i q
  proof -
    from that assms have "i \<noteq> jid" and "jobAt r i = None"
      by (force simp: fresh_batch_def)+
    then show ?thesis by (simp add: enqueueSingle_jobAt)
  qed
  with assms show "fresh_batch reqs (snd (enqueueSingleInMemory now jid req r))"
    by (auto simp: fresh_batch_def)
qed

lemma enqueue_loop_ok:
  assumes "enqueue_loop reqs out r = (Inr res, r')" and "repo_ok r" and "fresh_batch reqs r"
    and "\<forall>j \<in> set out. jobAt r (ID j) = Some j"
  shows "repo_ok r' \<and> length res = length out + length reqs \<and>
    (\<forall>j \<in> set res. jobAt r' (ID j) = Some j) \<and> take (length out) res = out"
  using assms
proof (induction reqs arbitrary: out r)
  case (Cons x reqs)
  obtain now jid req where x: "x = ((now, jid), req)" by (metis prod.exhaust)
  obtain j r1 where e: "enqueueSingleInMemory now jid req r = (Inr j, r1)"
    and rest: "enqueue_loop reqs (out @ [j]) r1 = (Inr res, r')"
    using Cons.prems(1) by (auto simp: x split: prod.splits sum.splits)
  have r1: "r1 = snd (enqueueSingleInMemory now jid req r)" by (simp add: e)
  have fresh: "jobAt r jid = None" "fresh_batch reqs r1"
    using fresh_batch_Cons [of now jid req reqs r] Cons.prems(3) by (simp_all add: x r1)
  have ok: "repo_ok r1" unfolding r1 using Cons.prems(2) fresh(1) by (rule enqueueSingle_repo_ok)
  have "jobAt r1 (ID j) = Some j"
    using enqueueSingle_stored [OF _ e] Cons.prems(2) by (simp add: repo_ok_def)
  moreover have "\<forall>k \<in> set out. jobAt r1 (ID k) = Some k"
    using Cons.prems(4) enqueueSingle_keeps [OF fresh(1)] by (simp add: r1)
  ultimately have "\<forall>k \<in> set (out @ [j]). jobAt r1 (ID k) = Some k" by simp
  from Cons.IH [OF rest ok fresh(2) this] show ?case
    by (auto simp: take_Suc_conv_app_nth dest: arg_cong [where f = "take (length out)"])
qed simp

text \<open>A batch of automatic sequences on one chain, without keys.\<close>

definition auto_req :: "string \<Rightarrow> EnqueueRequest \<Rightarrow> bool" where
  "auto_req c req \<longleftrightarrow> ChainID_req req = c \<and> Sequence_req req = 0 \<and> IdempotencyKey_req req = []"

lemma enqueueSingle_auto:
  assumes "auto_req c req" and "c \<noteq> []"
  shows "\<exists>j. enqueueSingleInMemory now jid req r = (Inr j, insertJob j r) \<and>
    ChainID j = c \<and> Sequence j = getMaxSequence r c + 1 \<and> ID j = jid"
  using assms
  by (cases rule: enqueue_cases [of req now jid r]) (auto simp: auto_req_def validate_spec)

lemma getMaxSequence_insertJob:
  assumes "getMaxSequence r (ChainID j) \<le> Sequence j"
  shows "getMaxSequence (insertJob j r) (ChainID j) = Sequence j"
proof (rule antisym)
  show "getMaxSequence (insertJob j r) (ChainID j) \<le> Sequence j"
    using assms getMaxSequence_nonneg [of r "ChainID j"] getMaxSequence_upper [of r "ChainID j"]
    by (intro getMaxSequence_least) (force split: if_splits)+
  show "Sequence j \<le> getMaxSequence (insertJob j r) (ChainID j)"
    by (rule getMaxSequence_upper [of _ _ _ "ID j"]) simp
qed

lemma enqueue_loop_auto:
  assumes "\<forall>(_, req) \<in> set reqs. auto_req c req" and "c \<noteq> []"
  shows "\<exists>res r'. enqueue_loop reqs out r = (Inr (out @ res), r') \<and> length res = length reqs \<and>
    map Sequence res = map (\<lambda>k. getMaxSequence r c + 1 + int k) [0..<length reqs]"
  using assms(1)
proof (induction reqs arbitrary: out r)
  case (Cons x reqs)
  obtain now jid req where x: "x = ((now, jid), req)" by (metis prod.exhaust)
  obtain j where j: "enqueueSingleInMemory now jid req r = (Inr j, insertJob j r)"
      "ChainID j = c" "Sequence j = getMaxSequence r c + 1"
    using enqueueSingle_auto [of c req now jid r] Cons.prems assms(2) by (auto simp: x)
  then have mx: "getMaxSequence (insertJob j r) c = getMaxSequence r c + 1"
    using getMaxSequence_insertJob [of r j] by simp
  obtain res r' where "enqueue_loop reqs (out @ [j]) (insertJob j r) = (Inr ((out @ [j]) @ res), r')"
      "length res = length reqs"
      "map Sequence res = map (\<lambda>k. getMaxSequence r c + 1 + 1 + int k) [0..<length reqs]"
    using Cons.IH [of "out @ [j]" "insertJob j r"] Cons.prems mx by auto
  moreover have "map (\<lambda>k. a + int k) [0..<Suc n] = a # map (\<lambda>k. a + 1 + int k) [0..<n]"
    for a :: int and n
    by (subst upt_conv_Cons) (simp_all add: map_Suc_upt [symmetric] del: upt_Suc)
  ultimately show ?case
    using j by (intro exI [of _ "j # res"] exI [of _ r']) (simp add: x del: upt_Suc)
qed simp

section \<open>Properties\<close>

text \<open>C8: a chain without gaps stays without gaps. In a repository whose chains have no gaps, a job
  created by \<open>Enqueue\<close> (for a request whose idempotency key, if any, is not taken) has a number that
  was free. Either it is below 1, which only happens when the request names that number; or it is
  exactly the next number of its chain, one above the largest, and its predecessor is in the
  repository unless it is the first. The chains have no gaps afterwards.\<close>

theorem enqueue_takes_next_number:
  assumes "gap_free r" and "Enqueue_mem now jid req r = (Inr j, r')"
    and "IdempotencyKey_req req = [] \<or> findJobByIdempotencyKey r (IdempotencyKey_req req) = None"
  shows "gap_free r' \<and> idAt r (ChainID_req req) (Sequence j) = None \<and>
    (if Sequence j < 1 then Sequence_req req = Sequence j
     else Sequence j = getMaxSequence r (ChainID_req req) + 1 \<and>
       (Sequence j = 1 \<or> idAt r (ChainID_req req) (Sequence j - 1) \<noteq> None))"
proof (cases rule: enqueue_cases [of req now jid r])
  case (created q k)
  note v = validate_accepts [OF created(3)]
  have q: "Sequence j = q" and r': "r' = snd (enqueueSingleInMemory now jid req r)"
    using assms(2) created by (auto simp: Enqueue_mem_def)
  have low: "q < 1 \<Longrightarrow> Sequence_req req = q"
    using created(3) getMaxSequence_nonneg [of r "ChainID_req req"]
    by (auto simp: validate_spec split: if_splits)
  have one: "getMaxSequence r (ChainID_req req) = 0" if "q = 1"
  proof (rule ccontr)
    assume "getMaxSequence r (ChainID_req req) \<noteq> 0"
    then have m: "1 \<le> getMaxSequence r (ChainID_req req)"
      using getMaxSequence_nonneg [of r "ChainID_req req"] by linarith
    then have "idAt r (ChainID_req req) (getMaxSequence r (ChainID_req req)) \<noteq> None"
      using getMaxSequence_attained [of r "ChainID_req req"] by auto
    from gap_free_below [OF assms(1) this order_refl m] v(1) that show False by simp
  qed
  show ?thesis
    using gap_free_next [OF assms(1) v(1)] v(1,2) low one enqueueSingle_gap_free [OF assms(1)]
    by (cases "q = 1") (auto simp: q r')
qed (use assms in \<open>auto simp: Enqueue_mem_def\<close>)

theorem enqueue_takes_next_number_witness:
  "\<exists>r j r'. gap_free r \<and> Enqueue_mem 6 8 (sample_req ''c'' 0 []) r = (Inr j, r') \<and>
     Sequence j = getMaxSequence r ''c'' + 1 \<and> idAt r ''c'' (Sequence j - 1) \<noteq> None"
proof -
  let ?r = "snd (enqueueSingleInMemory 5 7 (sample_req ''c'' 1 []) New_mem)"
  let ?e = "Enqueue_mem 6 8 (sample_req ''c'' 0 []) ?r"
  have gf: "gap_free ?r"
    by (rule enqueueSingle_gap_free) (simp add: gap_free_def idAt_def New_mem_def)
  have e: "?e = (Inr (projr (fst ?e)), snd ?e)" by code_simp
  have s: "IdempotencyKey_req (sample_req ''c'' 0 []) = []" "1 < Sequence (projr (fst ?e))"
      "ChainID_req (sample_req ''c'' 0 []) = ''c''"
    by code_simp+
  show ?thesis
    using enqueue_takes_next_number [OF gf e disjI1 [OF s(1)]] gf e s(2) unfolding s(3)
    by (intro exI conjI) auto
qed

text \<open>C34: what \<open>Enqueue\<close> answers to a request without an idempotency key: the next number of the
  chain for sequence 0, the requested number when it is free and not beyond the next one, a
  sequence-gap error beyond it, a duplicate error when it is taken; errors leave the repository as
  it was. Numbers below 1 are accepted like any other.\<close>

theorem enqueue_sequence_contract:
  assumes "ChainID_req req \<noteq> []" and "IdempotencyKey_req req = []"
  shows "case Enqueue_mem now jid req r of
      (Inr j, r') \<Rightarrow>
        Sequence j = (if Sequence_req req = 0 then getMaxSequence r (ChainID_req req) + 1
                      else Sequence_req req) \<and>
        Sequence j \<le> getMaxSequence r (ChainID_req req) + 1 \<and>
        idAt r (ChainID_req req) (Sequence j) = None \<and>
        jobAt r' jid = Some j \<and> idAt r' (ChainID_req req) (Sequence j) = Some jid
    | (Inl e, r') \<Rightarrow> r' = r \<and>
        (if Sequence_req req > getMaxSequence r (ChainID_req req) + 1
         then errors_Is e ErrSequenceGap
         else e = ErrDuplicateChainSeq \<and> Sequence_req req \<noteq> 0 \<and>
              idAt r (ChainID_req req) (Sequence_req req) \<noteq> None)"
proof (cases rule: enqueue_cases [of req now jid r])
  case (rejected err)
  with getMaxSequence_nonneg [of r "ChainID_req req"] show ?thesis
    by (auto simp: Enqueue_mem_def validate_spec errors_Is_def split: if_splits)
next
  case (created q j)
  with validate_accepts [OF created(3)] show ?thesis by (auto simp: Enqueue_mem_def)
qed (use assms in \<open>auto simp: Enqueue_mem_def\<close>)

theorem enqueue_sequence_contract_witness:
  "fst (Enqueue_mem 6 8 (sample_req ''c'' 3 []) New_mem) =
     Inl (Errorf1 [] ErrSequenceGap '': first job must be seq 1'') \<and>
   (case Enqueue_mem 6 8 (sample_req ''c'' 3 []) New_mem of
      (Inr j, r') \<Rightarrow> False | (Inl e, r') \<Rightarrow> r' = New_mem \<and> errors_Is e ErrSequenceGap)"
proof -
  have e: "Enqueue_mem 6 8 (sample_req ''c'' 3 []) New_mem =
      (Inl (Errorf1 [] ErrSequenceGap '': first job must be seq 1''), New_mem)" by code_simp
  have s: "ChainID_req (sample_req ''c'' 3 []) \<noteq> []"
      "IdempotencyKey_req (sample_req ''c'' 3 []) = []"
      "Sequence_req (sample_req ''c'' 3 []) > getMaxSequence New_mem ''c'' + 1"
      "ChainID_req (sample_req ''c'' 3 []) = ''c''"
    by code_simp+
  from enqueue_sequence_contract [OF s(1,2), where now = 6 and jid = 8 and r = New_mem] show ?thesis
    unfolding e using s(3,4) by simp
qed

text \<open>the initial status. A created job is pending when it is first in its chain or its
  predecessor is finished, and blocked otherwise.\<close>

theorem enqueue_initial_status:
  assumes "repo_wf r" and "jobAt r jid = None" and "Enqueue_mem now jid req r = (Inr j, r')"
    and "ID j = jid"
  shows "Status j =
    (if Sequence j \<le> 1 \<or>
        (\<exists>i p. jobAt r i = Some p \<and> ChainID p = ChainID j \<and> Sequence p = Sequence j - 1 \<and>
               isPredFinished p)
     then StatePending else StateBlocked)"
proof (cases rule: enqueue_cases [of req now jid r])
  case (known e)
  then show ?thesis using assms findJob_Some [OF assms(1)] by (auto simp: Enqueue_mem_def)
next
  case (created q k)
  then have j: "j = newJob now jid req q (determineInitialStatus r (ChainID_req req) q)"
    using assms(3) by (simp add: Enqueue_mem_def)
  show ?thesis
  proof (cases "idAt r (ChainID_req req) (q - 1)")
    case None
    then have "\<not> (\<exists>i p. jobAt r i = Some p \<and> ChainID p = ChainID_req req \<and> Sequence p = q - 1)"
      using repo_wf_index [OF assms(1)] by force
    with None show ?thesis by (auto simp: j determineInitialStatus_idAt)
  next
    case (Some i)
    then have "jobAt r i' = Some p \<and> ChainID p = ChainID_req req \<and> Sequence p = q - 1 \<longleftrightarrow>
        i' = i \<and> p = job_or_zero r i" for i' p
      using repo_wf_job_or_zero [OF assms(1) Some] repo_wf_index [OF assms(1), of i' p] by auto
    then have "(\<exists>i' p. jobAt r i' = Some p \<and> ChainID p = ChainID_req req \<and> Sequence p = q - 1 \<and>
        isPredFinished p) \<longleftrightarrow> isPredFinished (job_or_zero r i)" by metis
    with Some show ?thesis by (simp add: j determineInitialStatus_idAt)
  qed
qed (use assms in \<open>auto simp: Enqueue_mem_def\<close>)

theorem enqueue_initial_status_witness:
  "\<exists>r j r'. Enqueue_mem 6 8 (sample_req ''c'' 0 []) r = (Inr j, r') \<and> Status j = StateBlocked"
proof -
  let ?r = "snd (enqueueSingleInMemory 5 7 (sample_req ''c'' 1 []) New_mem)"
  let ?e = "Enqueue_mem 6 8 (sample_req ''c'' 0 []) ?r"
  have "repo_ok ?r" by (rule enqueueSingle_repo_ok [OF repo_ok_New]) (simp add: New_mem_def)
  then have wf: "repo_wf ?r" by (simp add: repo_ok_def)
  have e: "jobAt ?r 8 = None" "?e = (Inr (projr (fst ?e)), snd ?e)" "ID (projr (fst ?e)) = 8"
      "Status (projr (fst ?e)) = StateBlocked" by code_simp+
  from enqueue_initial_status [OF wf e(1-3)] e(2,4) show ?thesis by metis
qed

text \<open>idempotency. Once a keyed request has been answered with a job, every later request with
  the same key is answered with the job stored under that key and changes nothing, whatever its
  chain, type or sequence.\<close>

theorem enqueue_idempotent:
  assumes "repo_ok r" and "jobAt r jid = None" and "Enqueue_mem now jid req r = (Inr j, r')"
    and "IdempotencyKey_req req = key" and "key \<noteq> []"
    and "IdempotencyKey_req req2 = key" and "ChainID_req req2 \<noteq> []"
  shows "Enqueue_mem now2 jid2 req2 r' = (Inr j, r')"
proof -
  have e: "enqueueSingleInMemory now jid req r = (Inr j, r')"
    using assms(3) by (simp add: Enqueue_mem_def)
  have "repo_ok r'" using enqueueSingle_repo_ok [OF assms(1,2), of now req] by (simp add: e)
  moreover have "jobAt r' (ID j) = Some j"
    using enqueueSingle_stored [OF _ e] assms(1) by (simp add: repo_ok_def)
  moreover have "IdempotencyKey j = key"
    by (cases rule: enqueue_cases [of req now jid r])
       (use e assms(1,4) findJob_Some in \<open>auto simp: repo_ok_def\<close>)
  ultimately have "findJobByIdempotencyKey r' key = Some j"
    using findJob_unique assms(5) by (auto simp: repo_ok_def)
  with assms(5-7) show ?thesis by (simp add: Enqueue_mem_def enqueueSingleInMemory_def)
qed

theorem enqueue_idempotent_witness:
  "\<exists>j r'. Enqueue_mem 5 7 (sample_req ''c'' 1 ''k'') New_mem = (Inr j, r') \<and>
     Enqueue_mem 9 8 (sample_req ''other'' 4 ''k'') r' = (Inr j, r')"
proof -
  let ?e = "Enqueue_mem 5 7 (sample_req ''c'' 1 ''k'') New_mem"
  have e: "jobAt New_mem 7 = None" "?e = (Inr (projr (fst ?e)), snd ?e)"
      "IdempotencyKey_req (sample_req ''c'' 1 ''k'') = ''k''" "''k'' \<noteq> []"
      "IdempotencyKey_req (sample_req ''other'' 4 ''k'') = ''k''"
      "ChainID_req (sample_req ''other'' 4 ''k'') \<noteq> []" by code_simp+
  from enqueue_idempotent [OF repo_ok_New e, of 9 8] e(2) show ?thesis by blast
qed

text \<open>a batch is all or nothing. On an error the repository is as before the call; otherwise
  every request has its job, stored under its id, and the invariants hold.\<close>

theorem enqueue_batch_atomic:
  assumes "repo_ok r" and "fresh_batch reqs r"
  shows "case EnqueueBatch_mem reqs r of
      (Inl e, r') \<Rightarrow> r' = r
    | (Inr out, r') \<Rightarrow> length out = length reqs \<and> repo_ok r' \<and>
        (\<forall>j \<in> set out. jobAt r' (ID j) = Some j)"
proof (cases "enqueue_loop reqs [] r")
  case (Pair res r')
  show ?thesis
  proof (cases res)
    case (Inl e)
    with Pair show ?thesis by (simp add: EnqueueBatch_mem_def Let_def)
  next
    case (Inr out)
    with enqueue_loop_ok [of reqs "[]" r out r'] assms Pair show ?thesis
      by (simp add: EnqueueBatch_mem_def Let_def)
  qed
qed

theorem enqueue_batch_atomic_witness:
  "EnqueueBatch_mem [((5, 7), sample_req ''c'' 1 []), ((6, 8), sample_req ''c'' 9 [])] New_mem =
     (Inl (Errorf1 [] ErrSequenceGap '': missing predecessor 8 for chain c''), New_mem)"
proof -
  let ?rs = "[((5, 7), sample_req ''c'' 1 []), ((6, 8), sample_req ''c'' 9 [])]"
  have f: "fresh_batch ?rs New_mem" by (simp add: fresh_batch_def New_mem_def)
  have e: "fst (EnqueueBatch_mem ?rs New_mem) =
      Inl (Errorf1 [] ErrSequenceGap '': missing predecessor 8 for chain c'')" by code_simp
  from enqueue_batch_atomic [OF repo_ok_New f] e show ?thesis
    by (cases "EnqueueBatch_mem ?rs New_mem") simp
qed

text \<open>a batch of automatic sequences on one chain always succeeds and numbers its jobs
  consecutively, in the order of the requests.\<close>

theorem enqueue_batch_numbers:
  assumes "\<forall>(_, req) \<in> set reqs. auto_req c req" and "c \<noteq> []"
  shows "\<exists>out r'. EnqueueBatch_mem reqs r = (Inr out, r') \<and>
    map Sequence out = map (\<lambda>k. getMaxSequence r c + 1 + int k) [0..<length reqs]"
proof -
  obtain res r' where "enqueue_loop reqs [] r = (Inr ([] @ res), r')"
      "map Sequence res = map (\<lambda>k. getMaxSequence r c + 1 + int k) [0..<length reqs]"
    using enqueue_loop_auto [OF assms, of "[]" r] by blast
  then show ?thesis by (intro exI [of _ res] exI [of _ r']) (simp add: EnqueueBatch_mem_def Let_def)
qed

theorem enqueue_batch_numbers_witness:
  "\<exists>out r'. EnqueueBatch_mem [((5, 7), sample_req ''c'' 0 []), ((6, 8), sample_req ''c'' 0 [])]
     New_mem = (Inr out, r') \<and> map Sequence out = [1, 2]"
proof -
  let ?rs = "[((5, 7), sample_req ''c'' 0 []), ((6, 8), sample_req ''c'' 0 [])]"
  have a: "\<forall>(_, req) \<in> set ?rs. auto_req ''c'' req"
    by (simp add: auto_req_def sample_req_def zero_EnqueueRequest_def)
  have m: "getMaxSequence New_mem ''c'' = 0" by code_simp
  from enqueue_batch_numbers [OF a, of New_mem] show ?thesis
    by (simp add: m upt_rec)
qed

end
