(* ===== verification/Memory_Ops.thy ===== *)
theory Memory_Ops
  imports Memory_Enqueue
begin

text \<open>
  The operations of the in-memory repository on existing jobs (src/repository/memory/repository.go,
  \<open>Claim\<close> to \<open>RescheduleJob\<close>), each with the case split its lemmas use, and the facts every one of
  them satisfies: the invariants are kept and no job changes its identity.
\<close>

section \<open>Claim\<close>

text \<open>The candidates: pending or retrying, due, and first in the chain or after a finished job.\<close>

definition claim_eligible :: "repo \<Rightarrow> time \<Rightarrow> job \<Rightarrow> bool" where
  "claim_eligible r now j \<longleftrightarrow>
     (Status j = StatePending \<or> Status j = StateRetrying) \<and> \<not> AvailableAt j > now \<and>
     (if Sequence j = 1 then True
      else case lookup (chain r) (ChainID j) of
        None \<Rightarrow> False
      | Some m \<Rightarrow>
          (case lookup m (Sequence j - 1) of
             None \<Rightarrow> False
           | Some predID \<Rightarrow>
               (case jobAt r predID of None \<Rightarrow> False | Some pred \<Rightarrow> isPredFinished pred)))"

definition claim_less :: "job \<Rightarrow> job \<Rightarrow> bool" where
  "claim_less a b =
    (if AvailableAt a \<noteq> AvailableAt b then AvailableAt a < AvailableAt b
     else CreatedAt a < CreatedAt b)"

definition claim_cands :: "repo \<Rightarrow> time \<Rightarrow> job list" where
  "claim_cands r now = sort_slice claim_less (filter (claim_eligible r now) (map snd (jobs r)))"

text \<open>Whether some job of the chain is being processed.\<close>

definition claim_conflict :: "repo \<Rightarrow> string \<Rightarrow> bool" where
  "claim_conflict r c \<longleftrightarrow> list_ex (\<lambda>(_, j). ChainID j = c \<and> Status j = StateProcessing) (jobs r)"

definition claimed :: "time \<Rightarrow> string \<Rightarrow> duration \<Rightarrow> job \<Rightarrow> job" where
  "claimed now workerID lease j =
    j\<lparr>Status := StateProcessing, WorkerID := workerID, LeaseGeneration := LeaseGeneration j + 1,
      LeaseUntil := Some (now + lease), Attempt := Attempt j + 1,
      StartedAt := (case StartedAt j of None \<Rightarrow> Some now | Some t \<Rightarrow> Some t), UpdatedAt := now\<rparr>"

definition Claim_mem ::
  "time \<Rightarrow> string \<Rightarrow> duration \<Rightarrow> repo \<Rightarrow> (gerror + job) \<times> repo" where
  "Claim_mem now workerID lease r =
    (case claim_cands r now of
       [] \<Rightarrow> (Inl ErrNotFound, r)
     | first # rest \<Rightarrow>
         (case (if claim_conflict r (ChainID first)
                then List.find (\<lambda>next. \<not> claim_conflict r (ChainID next)) rest
                else Some first) of
            None \<Rightarrow> (Inl ErrNotFound, r)
          | Some job \<Rightarrow>
              (let job = claimed now workerID lease job in (Inr job, setJob (ID job) job r))))"

section \<open>Operations that need the lease\<close>

text \<open>The lookup and the fencing check \<open>Complete\<close>, \<open>Fail\<close>, \<open>Retry\<close>, \<open>Heartbeat\<close> and
  \<open>ConfirmCancel\<close> start with. The check looks at the worker and the generation only.\<close>

definition with_lease ::
  "uuid \<Rightarrow> string \<Rightarrow> int \<Rightarrow> repo \<Rightarrow> (job \<Rightarrow> repo) \<Rightarrow> gerror option \<times> repo" where
  "with_lease jid workerID leaseGen r body =
    (case jobAt r jid of
       None \<Rightarrow> (Some ErrNotFound, r)
     | Some j \<Rightarrow>
         if WorkerID j \<noteq> workerID \<or> LeaseGeneration j \<noteq> leaseGen then (Some ErrLeaseConflict, r)
         else (None, body j))"

text \<open>Unblock the successor of sequence \<open>q\<close>.\<close>

definition promote :: "time \<Rightarrow> string \<Rightarrow> int \<Rightarrow> repo \<Rightarrow> repo" where
  "promote now c q r =
    (case lookup (chain r) c of
       None \<Rightarrow> r
     | Some m \<Rightarrow>
         (case lookup m (q + 1) of
            None \<Rightarrow> r
          | Some nextID \<Rightarrow>
              (let next = job_or_zero r nextID in
               if Status next = StateBlocked
               then setJob nextID (next\<lparr>Status := StatePending, UpdatedAt := now\<rparr>) r
               else r)))"

definition completed :: "time \<Rightarrow> job \<Rightarrow> job" where
  "completed now j =
    j\<lparr>Status := StateCompleted, CompletedAt := Some now, UpdatedAt := now, LeaseUntil := None\<rparr>"

definition Complete_mem ::
  "time \<Rightarrow> uuid \<Rightarrow> string \<Rightarrow> int \<Rightarrow> repo \<Rightarrow> gerror option \<times> repo" where
  "Complete_mem now jid workerID leaseGen r =
    with_lease jid workerID leaseGen r
      (\<lambda>j. promote now (ChainID j) (Sequence j) (setJob jid (completed now j) r))"

definition failed :: "time \<Rightarrow> string \<Rightarrow> bool \<Rightarrow> job \<Rightarrow> job" where
  "failed now errMsg terminal j =
    (if terminal then
       j\<lparr>LastError := errMsg, UpdatedAt := now,
         Status := (if OrderingMode j = OrderingModeDeadLetterAndContinue
                    then StateDeadLettered else StateFailed),
         FailedAt := Some now, LeaseUntil := None\<rparr>
     else
       j\<lparr>LastError := errMsg, UpdatedAt := now, Status := StateFailed, FailedAt := Some now,
         LeaseUntil := None\<rparr>)"

definition Fail_mem ::
  "time \<Rightarrow> uuid \<Rightarrow> string \<Rightarrow> int \<Rightarrow> string \<Rightarrow> bool \<Rightarrow> repo \<Rightarrow> gerror option \<times> repo" where
  "Fail_mem now jid workerID leaseGen errMsg terminal r =
    with_lease jid workerID leaseGen r (\<lambda>j. setJob jid (failed now errMsg terminal j) r)"

definition retrying :: "time \<Rightarrow> string \<Rightarrow> time \<Rightarrow> job \<Rightarrow> job" where
  "retrying now errMsg nextAvailable j =
    j\<lparr>Status := StateRetrying, LastError := errMsg, AvailableAt := nextAvailable,
      UpdatedAt := now, LeaseUntil := None\<rparr>"

definition Retry_mem ::
  "time \<Rightarrow> uuid \<Rightarrow> string \<Rightarrow> int \<Rightarrow> string \<Rightarrow> time \<Rightarrow> repo \<Rightarrow> gerror option \<times> repo" where
  "Retry_mem now jid workerID leaseGen errMsg nextAvailable r =
    with_lease jid workerID leaseGen r (\<lambda>j. setJob jid (retrying now errMsg nextAvailable j) r)"

definition Heartbeat_mem ::
  "time \<Rightarrow> uuid \<Rightarrow> string \<Rightarrow> int \<Rightarrow> duration \<Rightarrow> repo \<Rightarrow> gerror option \<times> repo" where
  "Heartbeat_mem now jid workerID leaseGen lease r =
    with_lease jid workerID leaseGen r
      (\<lambda>j. setJob jid (j\<lparr>LeaseUntil := Some (now + lease), UpdatedAt := now\<rparr>) r)"

section \<open>Cancellation\<close>

definition RequestCancel_mem :: "time \<Rightarrow> uuid \<Rightarrow> repo \<Rightarrow> gerror option \<times> repo" where
  "RequestCancel_mem now jid r =
    (case jobAt r jid of
       None \<Rightarrow> (Some ErrNotFound, r)
     | Some j \<Rightarrow>
         (if Status j = StatePending \<or> Status j = StateRetrying \<or> Status j = StateBlocked
          then (None, setJob jid (j\<lparr>Status := StateCancelRequested, UpdatedAt := now\<rparr>) r)
          else (None, r)))"

definition ConfirmCancel_mem ::
  "time \<Rightarrow> uuid \<Rightarrow> string \<Rightarrow> int \<Rightarrow> repo \<Rightarrow> gerror option \<times> repo" where
  "ConfirmCancel_mem now jid workerID leaseGen r =
    with_lease jid workerID leaseGen r
      (\<lambda>j. setJob jid (j\<lparr>Status := StateCancelled, UpdatedAt := now, LeaseUntil := None\<rparr>) r)"

section \<open>Recovery and promotion\<close>

text \<open>
  The loop over the job map reads each entry when it reaches it and stops once \<open>limit\<close> jobs were
  recovered. The retry policy may be nil.
\<close>

definition is_stale :: "time \<Rightarrow> job \<Rightarrow> bool" where
  "is_stale now j \<longleftrightarrow>
     Status j = StateProcessing \<and> (case LeaseUntil j of None \<Rightarrow> False | Some t \<Rightarrow> t < now)"

definition recovered :: "time \<Rightarrow> (int \<Rightarrow> duration) option \<Rightarrow> job \<Rightarrow> job" where
  "recovered now retryPolicy j =
    (let delay = (case retryPolicy of None \<Rightarrow> Second | Some p \<Rightarrow> p (Attempt j))
     in j\<lparr>Status := StateRetrying, AvailableAt := now + delay,
          LastError := ''stale lease recovered'', UpdatedAt := now, LeaseUntil := None\<rparr>)"

fun recover_loop ::
  "time \<Rightarrow> int \<Rightarrow> (int \<Rightarrow> duration) option \<Rightarrow> uuid list \<Rightarrow> int \<Rightarrow> repo \<Rightarrow> int \<times> repo" where
  "recover_loop now limit retryPolicy [] n r = (n, r)"
| "recover_loop now limit retryPolicy (i # ids) n r =
    (if n \<ge> limit then (n, r)
     else case jobAt r i of
       None \<Rightarrow> recover_loop now limit retryPolicy ids n r
     | Some j \<Rightarrow>
         if is_stale now j
         then recover_loop now limit retryPolicy ids (n + 1)
                (setJob i (recovered now retryPolicy j) r)
         else recover_loop now limit retryPolicy ids n r)"

definition RecoverStale_mem ::
  "time \<Rightarrow> int \<Rightarrow> (int \<Rightarrow> duration) option \<Rightarrow> repo \<Rightarrow> int \<times> repo" where
  "RecoverStale_mem now limit retryPolicy r =
    recover_loop now limit retryPolicy (keys (jobs r)) 0 r"

definition PromoteNext_mem :: "time \<Rightarrow> string \<Rightarrow> int \<Rightarrow> repo \<Rightarrow> gerror option \<times> repo" where
  "PromoteNext_mem now chainID completedSeq r = (None, promote now chainID completedSeq r)"

definition ListPendingChains_mem :: "repo \<Rightarrow> string list" where
  "ListPendingChains_mem r =
    remdups (map (ChainID \<circ> snd) (filter (\<lambda>(_, j). Status j = StatePending) (jobs r)))"

section \<open>Replay, skip, reschedule\<close>

definition replayable :: "job \<Rightarrow> bool" where
  "replayable j \<longleftrightarrow>
     Status j = StateFailed \<or> Status j = StateCancelled \<or> Status j = StateDeadLettered"

definition replayed :: "time \<Rightarrow> job \<Rightarrow> job" where
  "replayed now j =
    j\<lparr>Status := StatePending, Attempt := 0, LastError := [], AvailableAt := now, UpdatedAt := now,
      LeaseUntil := None\<rparr>"

definition ReplayJob_mem :: "time \<Rightarrow> uuid \<Rightarrow> repo \<Rightarrow> gerror option \<times> repo" where
  "ReplayJob_mem now jid r =
    (case jobAt r jid of
       None \<Rightarrow> (Some ErrNotFound, r)
     | Some j \<Rightarrow> (None, if replayable j then setJob jid (replayed now j) r else r))"

definition ReplayJobWithPayload_mem ::
  "time \<Rightarrow> uuid \<Rightarrow> string \<Rightarrow> repo \<Rightarrow> gerror option \<times> repo" where
  "ReplayJobWithPayload_mem now jid newPayload r =
    (case jobAt r jid of
       None \<Rightarrow> (Some ErrNotFound, r)
     | Some j \<Rightarrow>
         (None,
          if replayable j
          then setJob jid
            (let j = replayed now j
             in if 0 < length newPayload then j\<lparr>Payload := newPayload\<rparr> else j) r
          else r))"

definition SkipJob_mem :: "time \<Rightarrow> uuid \<Rightarrow> repo \<Rightarrow> gerror option \<times> repo" where
  "SkipJob_mem now jid r =
    (case jobAt r jid of
       None \<Rightarrow> (Some ErrNotFound, r)
     | Some j \<Rightarrow>
         (None,
          if replayable j
          then promote now (ChainID j) (Sequence j) (setJob jid (completed now j) r)
          else r))"

definition RescheduleJob_mem ::
  "time \<Rightarrow> uuid \<Rightarrow> time \<Rightarrow> repo \<Rightarrow> (gerror + job) \<times> repo" where
  "RescheduleJob_mem now jid availableAt r =
    (case jobAt r jid of
       None \<Rightarrow> (Inl ErrNotFound, r)
     | Some j \<Rightarrow>
         if Status j \<noteq> StatePending \<and> Status j \<noteq> StateRetrying then (Inl ErrJobNotEligible, r)
         else
           (let j = j\<lparr>AvailableAt := availableAt, UpdatedAt := now\<rparr>
            in (Inr j, setJob jid j r)))"

section \<open>What every operation keeps\<close>

text \<open>
  A repository evolves by rewriting stored jobs without touching their identity. Everything but
  \<open>Enqueue\<close> and \<open>BulkPurgeDLQ\<close> is such an evolution.
\<close>

inductive evolves :: "repo \<Rightarrow> repo \<Rightarrow> bool" where
  evolves_refl [intro]: "evolves r r"
| evolves_step: "evolves r r1 \<Longrightarrow> jobAt r1 i = Some j \<Longrightarrow> same_identity j j' \<Longrightarrow>
    evolves r (setJob i j' r1)"

lemma evolves_setJob [intro]:
  "jobAt r i = Some j \<Longrightarrow> same_identity j j' \<Longrightarrow> evolves r (setJob i j' r)"
  by (blast intro: evolves.intros)

lemma evolves_trans: "evolves r1 r2 \<Longrightarrow> evolves r r1 \<Longrightarrow> evolves r r2"
  by (induction rule: evolves.induct) (auto intro: evolves_step)

lemma evolves_repo_ok: "evolves r r' \<Longrightarrow> repo_ok r \<Longrightarrow> repo_ok r'"
  by (induction rule: evolves.induct) (auto intro: repo_ok_setJob)

lemma evolves_repo_wf: "evolves r r' \<Longrightarrow> repo_wf r \<Longrightarrow> repo_wf r'"
  by (induction rule: evolves.induct) (auto intro: repo_wf_setJob)

lemma evolves_idAt: "evolves r r' \<Longrightarrow> idAt r' = idAt r"
  by (induction rule: evolves.induct) auto

lemma evolves_gap_free: "evolves r r' \<Longrightarrow> gap_free r' = gap_free r"
  by (simp add: gap_free_def evolves_idAt)

lemma evolves_keys: "evolves r r' \<Longrightarrow> keys (jobs r') = keys (jobs r)"
  by (induction rule: evolves.induct) (auto simp: keys_setJob)

lemma evolves_jobAt:
  "evolves r r' \<Longrightarrow> jobAt r i = Some j \<Longrightarrow> \<exists>j'. jobAt r' i = Some j' \<and> same_identity j j'"
proof (induction rule: evolves.induct)
  case (evolves_step r r1 k jk jk')
  then obtain j1 where "jobAt r1 i = Some j1" "same_identity j j1" by blast
  with evolves_step show ?case by (auto intro: same_identity_trans)
qed auto

lemma evolves_jobAt_None: "evolves r r' \<Longrightarrow> jobAt r' i = None \<longleftrightarrow> jobAt r i = None"
  using evolves_keys [of r r'] by (metis map_of_eq_None_iff set_map)

lemma same_identity_updates [simp, intro]:
  "same_identity j (claimed now w l j)"
  "same_identity j (completed now j)"
  "same_identity j (failed now e t j)"
  "same_identity j (retrying now e a j)"
  "same_identity j (recovered now p j)"
  "same_identity j (replayed now j)"
  "same_identity j (j\<lparr>Status := s, UpdatedAt := now\<rparr>)"
  "same_identity j (j\<lparr>Status := s, UpdatedAt := now, LeaseUntil := None\<rparr>)"
  "same_identity j (j\<lparr>LeaseUntil := u, UpdatedAt := now\<rparr>)"
  "same_identity j (j\<lparr>AvailableAt := a, UpdatedAt := now\<rparr>)"
  "same_identity j ((replayed now j)\<lparr>Payload := pl\<rparr>)"
  by (simp_all add: same_identity_def claimed_def completed_def failed_def retrying_def
      recovered_def replayed_def Let_def)

section \<open>Pointwise effect of promotion\<close>

definition unblocked :: "time \<Rightarrow> job \<Rightarrow> job" where
  "unblocked now j =
    (if Status j = StateBlocked then j\<lparr>Status := StatePending, UpdatedAt := now\<rparr> else j)"

lemma same_identity_unblocked [simp, intro]: "same_identity j (unblocked now j)"
  by (simp add: unblocked_def)

lemma promote_idAt:
  "promote now c q r =
   (case idAt r c (q + 1) of
      None \<Rightarrow> r
    | Some i \<Rightarrow>
        if Status (job_or_zero r i) = StateBlocked
        then setJob i (unblocked now (job_or_zero r i)) r else r)"
  by (simp add: promote_def idAt_def Let_def unblocked_def split: option.splits)

lemma jobAt_promote:
  assumes "repo_wf r"
  shows "jobAt (promote now c q r) k =
    (if idAt r c (q + 1) = Some k then map_option (unblocked now) (jobAt r k) else jobAt r k)"
proof (cases "idAt r c (q + 1)")
  case (Some i)
  then show ?thesis
    using repo_wf_job_or_zero [OF assms Some] by (auto simp: promote_idAt unblocked_def)
qed (simp add: promote_idAt)

lemma evolves_promote:
  assumes "repo_wf r"
  shows "evolves r (promote now c q r)"
  using repo_wf_job_or_zero [OF assms]
  by (auto simp: promote_idAt split: option.splits)

lemma idAt_promote [simp]: "idAt (promote now c q r) = idAt r"
  by (simp add: promote_idAt split: option.splits)

lemma repo_ok_wf: "repo_ok r \<Longrightarrow> repo_wf r"
  by (simp add: repo_ok_def)

section \<open>Every operation is an evolution\<close>

lemma with_lease_cases:
  obtains
    (missing) "jobAt r jid = None" "with_lease jid w g r body = (Some ErrNotFound, r)"
  | (conflict) j where "jobAt r jid = Some j" "WorkerID j \<noteq> w \<or> LeaseGeneration j \<noteq> g"
      "with_lease jid w g r body = (Some ErrLeaseConflict, r)"
  | (held) j where "jobAt r jid = Some j" "WorkerID j = w" "LeaseGeneration j = g"
      "with_lease jid w g r body = (None, body j)"
  by (cases "jobAt r jid") (force simp: with_lease_def)+

lemma evolves_with_lease:
  assumes "\<And>j. jobAt r jid = Some j \<Longrightarrow> evolves r (body j)"
  shows "evolves r (snd (with_lease jid w g r body))"
  by (cases rule: with_lease_cases [of r jid w g body]) (use assms in auto)

lemma evolves_completed_promote:
  assumes "repo_wf r" and "jobAt r i = Some j"
  shows "evolves r (promote now c q (setJob i (completed now j) r))"
proof -
  have "repo_wf (setJob i (completed now j) r)" using assms by (rule repo_wf_setJob) simp
  then have "evolves (setJob i (completed now j) r) (promote now c q (setJob i (completed now j) r))"
    by (rule evolves_promote)
  then show ?thesis by (rule evolves_trans) (use assms in blast)
qed

lemma find_claim_mem:
  "claim_cands r now = first # rest \<Longrightarrow>
   (if b then List.find P rest else Some first) = Some job \<Longrightarrow> job \<in> set (claim_cands r now)"
  by (auto dest: find_Some_mem split: if_splits)

lemma claim_cands_set:
  "set (claim_cands r now) = {j \<in> snd ` set (jobs r). claim_eligible r now j}"
  by (auto simp: claim_cands_def)

lemma claim_cands_stored:
  assumes "repo_wf r" and "j \<in> set (claim_cands r now)"
  shows "jobAt r (ID j) = Some j \<and> claim_eligible r now j"
proof -
  from assms(2) obtain i where "(i, j) \<in> set (jobs r)" and "claim_eligible r now j"
    by (auto simp: claim_cands_set)
  moreover from this have "jobAt r i = Some j"
    using repo_wf_distinct [OF assms(1)] by simp
  ultimately show ?thesis using repo_wf_ID [OF assms(1)] by metis
qed

lemma Claim_cases:
  assumes "repo_wf r"
  obtains
    (none) "Claim_mem now w l r = (Inl ErrNotFound, r)"
  | (some) j where "jobAt r (ID j) = Some j" "claim_eligible r now j"
      "\<not> claim_conflict r (ChainID j)"
      "Claim_mem now w l r = (Inr (claimed now w l j), setJob (ID j) (claimed now w l j) r)"
proof (cases "claim_cands r now")
  case Nil
  then show thesis by (intro none) (simp add: Claim_mem_def)
next
  case (Cons first rest)
  let ?pick = "if claim_conflict r (ChainID first)
    then List.find (\<lambda>next. \<not> claim_conflict r (ChainID next)) rest else Some first"
  have id_claimed: "ID (claimed now w l j) = ID j" for j by (simp add: claimed_def)
  show thesis
  proof (cases ?pick)
    case None
    with Cons show thesis by (intro none) (simp add: Claim_mem_def)
  next
    case (Some j)
    have "\<not> claim_conflict r (ChainID j)"
      using Some by (auto dest: find_Some_mem split: if_splits)
    moreover have "jobAt r (ID j) = Some j \<and> claim_eligible r now j"
      using claim_cands_stored [OF assms find_claim_mem [OF Cons Some]] .
    moreover have "Claim_mem now w l r =
        (Inr (claimed now w l j), setJob (ID j) (claimed now w l j) r)"
      using Cons Some by (simp add: Claim_mem_def Let_def id_claimed)
    ultimately show thesis by (intro some) auto
  qed
qed

lemma evolves_Claim:
  assumes "repo_wf r" shows "evolves r (snd (Claim_mem now w l r))"
  by (cases rule: Claim_cases [OF assms, of now w l]) auto

lemma evolves_Complete:
  assumes "repo_wf r" shows "evolves r (snd (Complete_mem now jid w g r))"
  unfolding Complete_mem_def
  by (rule evolves_with_lease) (rule evolves_completed_promote [OF assms])

lemma evolves_lease_ops:
  "evolves r (snd (Fail_mem now jid w g e t r))"
  "evolves r (snd (Retry_mem now jid w g e a r))"
  "evolves r (snd (Heartbeat_mem now jid w g l r))"
  "evolves r (snd (ConfirmCancel_mem now jid w g r))"
  unfolding Fail_mem_def Retry_mem_def Heartbeat_mem_def ConfirmCancel_mem_def
  by (rule evolves_with_lease, blast)+

lemma evolves_cancel_replay:
  "evolves r (snd (RequestCancel_mem now jid r))"
  "evolves r (snd (ReplayJob_mem now jid r))"
  "evolves r (snd (ReplayJobWithPayload_mem now jid pl r))"
  "evolves r (snd (RescheduleJob_mem now jid a r))"
  by (auto simp: RequestCancel_mem_def ReplayJob_mem_def ReplayJobWithPayload_mem_def
      RescheduleJob_mem_def Let_def split: option.splits)

lemma evolves_Skip:
  assumes "repo_wf r" shows "evolves r (snd (SkipJob_mem now jid r))"
  using evolves_completed_promote [OF assms]
  by (auto simp: SkipJob_mem_def split: option.splits)

lemma evolves_Promote:
  assumes "repo_wf r" shows "evolves r (snd (PromoteNext_mem now c q r))"
  using evolves_promote [OF assms] by (simp add: PromoteNext_mem_def)

lemma evolves_recover_loop: "evolves r (snd (recover_loop now limit p ids n r))"
proof (induction ids arbitrary: n r)
  case (Cons i ids)
  show ?case
  proof (cases "jobAt r i")
    case (Some j)
    then have "evolves r (setJob i (recovered now p j) r)" by blast
    with Cons Some show ?thesis by (auto intro: evolves_trans)
  qed (use Cons in auto)
qed auto

lemma evolves_Recover: "evolves r (snd (RecoverStale_mem now limit p r))"
  by (simp add: RecoverStale_mem_def evolves_recover_loop)

lemmas evolves_ops = evolves_Claim evolves_Complete evolves_lease_ops evolves_cancel_replay
  evolves_Skip evolves_Promote evolves_Recover

end
