(* ===== verification/Memory_Claims.thy ===== *)
theory Memory_Claims
  imports Memory_Ops
begin

text \<open>
  What the operations of the in-memory repository on existing jobs promise: \<open>Claim\<close> picks the
  earliest startable job, the lease fences late workers off, \<open>Complete\<close>, \<open>Fail\<close> and \<open>SkipJob\<close> open
  the chain for the successor, \<open>RecoverStale\<close> recovers stale jobs only and up to its limit.
\<close>

section \<open>Claim picks the earliest startable job\<close>

definition claim_before :: "job \<Rightarrow> job \<Rightarrow> bool" where
  "claim_before a b \<longleftrightarrow>
     AvailableAt a < AvailableAt b \<or> AvailableAt a = AvailableAt b \<and> CreatedAt a \<le> CreatedAt b"

interpretation claim_sort: slice_order claim_less claim_before
  by unfold_locales (auto simp: claim_less_def claim_before_def split: if_splits)

lemma claim_pick:
  "claim_cands r now = first # rest \<Longrightarrow>
   (if claim_conflict r (ChainID first)
    then List.find (\<lambda>next. \<not> claim_conflict r (ChainID next)) rest else Some first) =
   List.find (\<lambda>j. \<not> claim_conflict r (ChainID j)) (claim_cands r now)"
  by simp

lemma Claim_find:
  "Claim_mem now w l r =
   (case List.find (\<lambda>j. \<not> claim_conflict r (ChainID j)) (claim_cands r now) of
      None \<Rightarrow> (Inl ErrNotFound, r)
    | Some j \<Rightarrow> (Inr (claimed now w l j), setJob (ID j) (claimed now w l j) r))"
  by (cases "claim_cands r now")
     (simp_all add: Claim_mem_def Let_def claimed_def split: option.splits)

text \<open>What a claim may start, said with the index: due, in turn, its chain idle.\<close>

definition startable :: "repo \<Rightarrow> time \<Rightarrow> job \<Rightarrow> bool" where
  "startable r now j \<longleftrightarrow>
     (Status j = StatePending \<or> Status j = StateRetrying) \<and> AvailableAt j \<le> now \<and>
     (Sequence j = 1 \<or>
      (\<exists>i p. jobAt r i = Some p \<and> ChainID p = ChainID j \<and> Sequence p = Sequence j - 1 \<and>
             isPredFinished p)) \<and>
     (\<forall>i k. jobAt r i = Some k \<and> ChainID k = ChainID j \<longrightarrow> Status k \<noteq> StateProcessing)"

lemma claim_conflict_iff:
  assumes "repo_wf r"
  shows "claim_conflict r c \<longleftrightarrow>
    (\<exists>i j. jobAt r i = Some j \<and> ChainID j = c \<and> Status j = StateProcessing)"
  using repo_wf_distinct [OF assms]
  by (force simp: claim_conflict_def list_ex_iff dest: map_of_SomeD)

lemma claim_eligible_iff:
  assumes "repo_wf r"
  shows "claim_eligible r now j \<longleftrightarrow>
    (Status j = StatePending \<or> Status j = StateRetrying) \<and> AvailableAt j \<le> now \<and>
    (Sequence j = 1 \<or>
      (\<exists>i p. jobAt r i = Some p \<and> ChainID p = ChainID j \<and> Sequence p = Sequence j - 1 \<and>
             isPredFinished p))"
proof -
  have "(case lookup (chain r) (ChainID j) of
        None \<Rightarrow> False
      | Some m \<Rightarrow>
          (case lookup m (Sequence j - 1) of
             None \<Rightarrow> False
           | Some predID \<Rightarrow>
               (case jobAt r predID of None \<Rightarrow> False | Some pred \<Rightarrow> isPredFinished pred)))
    \<longleftrightarrow> (\<exists>i p. idAt r (ChainID j) (Sequence j - 1) = Some i \<and> jobAt r i = Some p \<and>
          isPredFinished p)"
    by (auto simp: idAt_def split: option.splits)
  also have "\<dots> \<longleftrightarrow> (\<exists>i p. jobAt r i = Some p \<and> ChainID p = ChainID j \<and>
      Sequence p = Sequence j - 1 \<and> isPredFinished p)"
    unfolding repo_wf_idAt_iff [OF assms] by force
  finally show ?thesis unfolding claim_eligible_def not_less by simp
qed

lemma startable_iff:
  "repo_wf r \<Longrightarrow> startable r now j \<longleftrightarrow>
   claim_eligible r now j \<and> \<not> claim_conflict r (ChainID j)"
  unfolding startable_def claim_eligible_iff claim_conflict_iff by blast

lemma claim_cands_iff:
  assumes "repo_wf r"
  shows "j \<in> set (claim_cands r now) \<longleftrightarrow>
    jobAt r (ID j) = Some j \<and> claim_eligible r now j"
proof
  assume "jobAt r (ID j) = Some j \<and> claim_eligible r now j"
  then have "(ID j, j) \<in> set (jobs r)" "claim_eligible r now j" by (auto dest: map_of_SomeD)
  then show "j \<in> set (claim_cands r now)" by (force simp: claim_cands_set)
qed (rule claim_cands_stored [OF assms])

section \<open>Completing and skipping\<close>

lemma jobAt_completed_promote:
  assumes wf: "repo_wf r" and i: "jobAt r i = Some j"
  shows "jobAt (promote now (ChainID j) (Sequence j) (setJob i (completed now j) r)) k =
    (if k = i then Some (completed now j)
     else if idAt r (ChainID j) (Sequence j + 1) = Some k then map_option (unblocked now) (jobAt r k)
     else jobAt r k)"
proof -
  have wf': "repo_wf (setJob i (completed now j) r)" using assms by (rule repo_wf_setJob) simp
  have "idAt r (ChainID j) (Sequence j + 1) \<noteq> Some i"
    using i by (auto simp: repo_wf_idAt_iff [OF wf])
  then show ?thesis by (auto simp: jobAt_promote [OF wf'])
qed

text \<open>What finishing job \<open>j\<close> in place of \<open>j'\<close> does to the others: its successor, if blocked, becomes
  pending.\<close>

definition others_promoted :: "time \<Rightarrow> job \<Rightarrow> repo \<Rightarrow> repo \<Rightarrow> bool" where
  "others_promoted now j r r' \<longleftrightarrow>
     (\<forall>k s. jobAt r k = Some s \<and> k \<noteq> ID j \<longrightarrow>
        jobAt r' k = Some (if ChainID s = ChainID j \<and> Sequence s = Sequence j + 1
                           then unblocked now s else s))"

lemma others_promoted_completed:
  assumes wf: "repo_wf r" and i: "jobAt r i = Some j"
  shows "others_promoted now j r
    (promote now (ChainID j) (Sequence j) (setJob i (completed now j) r))"
  using repo_wf_ID [OF assms]
  by (auto simp: others_promoted_def jobAt_completed_promote [OF assms] repo_wf_idAt_iff [OF wf])

lemma Complete_held:
  "jobAt r i = Some j \<Longrightarrow> WorkerID j = w \<Longrightarrow> LeaseGeneration j = g \<Longrightarrow>
   Complete_mem now i w g r =
     (None, promote now (ChainID j) (Sequence j) (setJob i (completed now j) r))"
  by (simp add: Complete_mem_def with_lease_def)

lemma completed_sel [simp]:
  "Status (completed now j) = StateCompleted" "ChainID (completed now j) = ChainID j"
  "Sequence (completed now j) = Sequence j" "ID (completed now j) = ID j"
  by (simp_all add: completed_def)

lemma unblocked_sel [simp]:
  "Status (unblocked now j) = (if Status j = StateBlocked then StatePending else Status j)"
  "ChainID (unblocked now j) = ChainID j" "Sequence (unblocked now j) = Sequence j"
  "AvailableAt (unblocked now j) = AvailableAt j" "ID (unblocked now j) = ID j"
  by (simp_all add: unblocked_def)

lemma isPredFinished_completed [simp]: "isPredFinished (completed now j)"
  by (simp add: isPredFinished_def)

lemma failed_sel [simp]:
  "LastError (failed now e t j) = e" "LeaseUntil (failed now e t j) = None"
  "FailedAt (failed now e t j) = Some now" "OrderingMode (failed now e t j) = OrderingMode j"
  "Status (failed now e t j) = (if t \<and> OrderingMode j = OrderingModeDeadLetterAndContinue
     then StateDeadLettered else StateFailed)"
  by (simp_all add: failed_def)

lemma isPredFinished_failed [simp]:
  "isPredFinished (failed now e t j) \<longleftrightarrow> continues_on_failure (OrderingMode j)"
  by (auto simp: isPredFinished_def)

section \<open>Stale recovery\<close>

definition stale_at :: "time \<Rightarrow> repo \<Rightarrow> uuid \<Rightarrow> bool" where
  "stale_at now r i \<longleftrightarrow> (case jobAt r i of None \<Rightarrow> False | Some j \<Rightarrow> is_stale now j)"

lemma not_stale_recovered [simp]: "\<not> is_stale now' (recovered now p j)"
  by (simp add: is_stale_def recovered_def Let_def)

lemma stale_at_Some: "jobAt r i = Some j \<Longrightarrow> stale_at now r i = is_stale now j"
  by (simp add: stale_at_def)

lemma stale_atD: "stale_at now r i \<Longrightarrow> \<exists>j. jobAt r i = Some j \<and> is_stale now j"
  by (auto simp: stale_at_def split: option.splits)

lemma filter_stale_setJob:
  "i \<notin> set ids \<Longrightarrow> filter (stale_at now (setJob i j r)) ids = filter (stale_at now r) ids"
  by (rule filter_cong) (auto simp: stale_at_def)

text \<open>One iteration: past the limit the loop stops, a stale job is recovered, any other skipped.\<close>

lemma recover_loop_stop: "limit \<le> n \<Longrightarrow> recover_loop now limit p ids n r = (n, r)"
  by (cases ids) auto

lemma recover_loop_stale:
  "n < limit \<Longrightarrow> jobAt r i = Some j \<Longrightarrow> is_stale now j \<Longrightarrow>
   recover_loop now limit p (i # ids) n r =
   recover_loop now limit p ids (n + 1) (setJob i (recovered now p j) r)"
  by simp

lemma recover_loop_skip:
  "n < limit \<Longrightarrow> \<not> stale_at now r i \<Longrightarrow>
   recover_loop now limit p (i # ids) n r = recover_loop now limit p ids n r"
  by (auto simp: stale_at_def split: option.splits)

lemmas recover_loop_steps = recover_loop_stop recover_loop_stale recover_loop_skip

lemma recover_loop_cases:
  fixes limit n now :: int and r i
  obtains (stop) "limit \<le> n"
  | (stale) j where "n < limit" "jobAt r i = Some j" "is_stale now j"
  | (skip) "n < limit" "\<not> stale_at now r i"
  using stale_atD linorder_not_le by blast

lemma recover_loop_count:
  "distinct ids \<Longrightarrow>
   fst (recover_loop now limit p ids n r) =
   n + min (max (limit - n) 0) (int (length (filter (stale_at now r) ids)))"
proof (induction ids arbitrary: n r)
  case (Cons i ids)
  show ?case
  proof (cases rule: recover_loop_cases [where limit = limit and n = n and r = r and i = i and now = now])
    case (stale j)
    then have "limit - n = (limit - (n + 1)) + 1" "0 \<le> limit - (n + 1)" by simp_all
    with Cons.IH [of "n + 1" "setJob i (recovered now p j) r"] Cons.prems stale show ?thesis
      unfolding recover_loop_stale [OF stale]
      by (simp add: filter_stale_setJob stale_at_Some)
  next
    case skip
    with Cons.IH [of n r] Cons.prems show ?thesis
      unfolding recover_loop_skip [OF skip] by simp
  qed (simp add: recover_loop_stop)
qed simp

lemma recover_loop_keeps:
  "jobAt r k = Some j \<Longrightarrow> \<not> is_stale now j \<Longrightarrow>
   jobAt (snd (recover_loop now limit p ids n r)) k = Some j"
proof (induction ids arbitrary: n r)
  case (Cons i ids)
  show ?case
  proof (cases rule: recover_loop_cases [where limit = limit and n = n and r = r and i = i and now = now])
    case (stale ji)
    with Cons have "jobAt (setJob i (recovered now p ji) r) k = Some j" by auto
    with Cons show ?thesis unfolding recover_loop_stale [OF stale] by blast
  next
    case skip
    with Cons show ?thesis unfolding recover_loop_skip [OF skip] by blast
  qed (use Cons.prems in \<open>simp add: recover_loop_stop\<close>)
qed simp

lemma recover_loop_jobAt:
  "jobAt r k = Some j \<Longrightarrow>
   jobAt (snd (recover_loop now limit p ids n r)) k = Some j \<or>
   is_stale now j \<and>
   jobAt (snd (recover_loop now limit p ids n r)) k = Some (recovered now p j)"
proof (induction ids arbitrary: n r)
  case (Cons i ids)
  show ?case
  proof (cases rule: recover_loop_cases [where limit = limit and n = n and r = r and i = i and now = now])
    case (stale ji)
    show ?thesis
    proof (cases "k = i")
      case True
      with stale(2,3) Cons.prems show ?thesis
        unfolding recover_loop_stale [OF stale] by (simp add: recover_loop_keeps)
    next
      case False
      with Cons.prems have "jobAt (setJob i (recovered now p ji) r) k = Some j" by simp
      then show ?thesis unfolding recover_loop_stale [OF stale] by (rule Cons.IH)
    qed
  next
    case skip
    show ?thesis unfolding recover_loop_skip [OF skip] using Cons.prems by (rule Cons.IH)
  qed (use Cons.prems in \<open>simp add: recover_loop_stop\<close>)
qed simp

lemma recover_loop_left:
  "distinct (keys (jobs r)) \<Longrightarrow>
   int (count_if (is_stale now) (jobs (snd (recover_loop now limit p ids n r)))) +
     fst (recover_loop now limit p ids n r) = int (count_if (is_stale now) (jobs r)) + n"
proof (induction ids arbitrary: n r)
  case (Cons i ids)
  show ?case
  proof (cases rule: recover_loop_cases [where limit = limit and n = n and r = r and i = i and now = now])
    case (stale j)
    have d: "distinct (keys (jobs (setJob i (recovered now p j) r)))"
      unfolding keys_setJob [OF stale(2)] by (rule Cons.prems)
    have "count_if (is_stale now) (jobs (setJob i (recovered now p j) r)) + 1 =
        count_if (is_stale now) (jobs r)"
      using count_if_update_old [OF Cons.prems stale(2), of "is_stale now" "recovered now p j"]
        stale(3)
      by (simp add: setJob_def)
    with Cons.IH [OF d, of "n + 1"] show ?thesis unfolding recover_loop_stale [OF stale] by simp
  next
    case skip
    show ?thesis unfolding recover_loop_skip [OF skip] using Cons.prems by (rule Cons.IH)
  qed (simp add: recover_loop_stop)
qed simp

lemma count_if_keys:
  assumes "distinct (keys (jobs r))"
  shows "length (filter (stale_at now r) (keys (jobs r))) = count_if (is_stale now) (jobs r)"
proof -
  have "stale_at now r (fst e) = is_stale now (snd e)" if "e \<in> set (jobs r)" for e
    using assms that by (cases e) (simp add: stale_at_def)
  then have "filter (stale_at now r \<circ> fst) (jobs r) = filter (is_stale now \<circ> snd) (jobs r)"
    by (intro filter_cong) auto
  then show ?thesis by (simp add: filter_map count_if_def comp_def case_prod_unfold)
qed

section \<open>Properties\<close>

text \<open>C4: \<open>Claim\<close> answers not-found, changing nothing, exactly when no job is startable (due, its
  predecessor finished, its chain idle); otherwise it starts a startable job than which none is
  earlier by (available_at, created_at), and writes that job only.\<close>

theorem claim_starts_earliest:
  assumes wf: "repo_wf r"
  shows "case Claim_mem now w l r of
      (Inl e, r') \<Rightarrow> e = ErrNotFound \<and> r' = r \<and>
        \<not> (\<exists>i j. jobAt r i = Some j \<and> startable r now j)
    | (Inr j', r') \<Rightarrow>
        (\<exists>j. jobAt r (ID j) = Some j \<and> startable r now j \<and> j' = claimed now w l j \<and>
           r' = setJob (ID j) j' r \<and>
           (\<forall>i k. jobAt r i = Some k \<and> startable r now k \<longrightarrow> claim_before j k))"
proof (cases "List.find (\<lambda>j. \<not> claim_conflict r (ChainID j)) (claim_cands r now)")
  case None
  have "\<not> (\<exists>i j. jobAt r i = Some j \<and> startable r now j)"
    using None claim_cands_iff [OF wf] repo_wf_ID [OF wf]
    by (auto simp: find_None_iff startable_iff [OF wf])
  with None show ?thesis by (simp add: Claim_find)
next
  case (Some j)
  have j: "j \<in> set (claim_cands r now)" "\<not> claim_conflict r (ChainID j)"
    using find_Some_mem [OF Some] by auto
  have least: "claim_before j k" if "jobAt r i = Some k" "startable r now k" for i k
    using claim_sort.find_sorted_least [OF claim_sort.sort_slice_ordered
        Some [unfolded claim_cands_def], of k] that claim_cands_iff [OF wf, of k now]
      repo_wf_ID [OF wf that(1)]
    by (simp add: startable_iff [OF wf] claim_cands_def)
  show ?thesis
    using Some j least by (simp add: Claim_find startable_iff [OF wf] claim_cands_iff [OF wf]) blast
qed

text \<open>Small repositories for closed instances: one job, two jobs of a chain, the first claimed.\<close>

definition one_job :: repo where
  "one_job = snd (Enqueue_mem 5 7 (sample_req ''c'' 1 []) New_mem)"

definition two_jobs :: repo where
  "two_jobs = snd (Enqueue_mem 6 8 (sample_req ''c'' 0 []) one_job)"

definition two_jobs_claimed :: repo where
  "two_jobs_claimed = snd (Claim_mem 10 ''w'' 30 two_jobs)"

lemma two_jobs_ok: "repo_ok two_jobs"
proof -
  have "repo_ok one_job" unfolding one_job_def Enqueue_mem_def
    by (rule enqueueSingle_repo_ok [OF repo_ok_New]) (simp add: New_mem_def)
  moreover have "jobAt one_job 8 = None" by code_simp
  ultimately show ?thesis unfolding two_jobs_def Enqueue_mem_def by (rule enqueueSingle_repo_ok)
qed

lemma two_jobs_claimed_ok: "repo_ok two_jobs_claimed"
  unfolding two_jobs_claimed_def
  by (rule evolves_repo_ok [OF evolves_Claim two_jobs_ok]) (rule repo_ok_wf [OF two_jobs_ok])

theorem claim_starts_earliest_witness:
  "\<exists>j r'. Claim_mem 10 ''w'' 30 two_jobs = (Inr j, r') \<and> ID j = 7 \<and> startable two_jobs 10
     (job_or_zero two_jobs 7)"
proof -
  have e: "fst (Claim_mem 10 ''w'' 30 two_jobs) =
      Inr (claimed 10 ''w'' 30 (job_or_zero two_jobs 7))"
    "ID (claimed 10 ''w'' 30 (job_or_zero two_jobs 7)) = 7" by code_simp+
  obtain r' where c: "Claim_mem 10 ''w'' 30 two_jobs =
      (Inr (claimed 10 ''w'' 30 (job_or_zero two_jobs 7)), r')"
    using e by (cases "Claim_mem 10 ''w'' 30 two_jobs") auto
  from claim_starts_earliest [OF repo_ok_wf [OF two_jobs_ok], where now = 10 and w = "''w''" and l = 30]
  obtain j where j: "jobAt two_jobs (ID j) = Some j" "startable two_jobs 10 j"
      "claimed 10 ''w'' 30 (job_or_zero two_jobs 7) = claimed 10 ''w'' 30 j"
    unfolding c by auto
  then have "ID j = 7" using e(2) by (simp add: claimed_def)
  with j have "job_or_zero two_jobs 7 = j" by (simp add: job_or_zero_def)
  with j c e(2) show ?thesis by simp
qed

text \<open>C6: \<open>Complete\<close> by the holder of the lease completes the job and opens the chain: the
  successor becomes pending when it was blocked, every other job stays as it was.\<close>

theorem complete_promotes_successor:
  assumes "repo_wf r" and "jobAt r i = Some j" and "WorkerID j = w" and "LeaseGeneration j = g"
  shows "\<exists>r'. Complete_mem now i w g r = (None, r') \<and> jobAt r' i = Some (completed now j) \<and>
    others_promoted now j r r' \<and> keys (jobs r') = keys (jobs r) \<and> repo_wf r'"
proof -
  let ?r' = "promote now (ChainID j) (Sequence j) (setJob i (completed now j) r)"
  have ev: "evolves r ?r'" by (rule evolves_completed_promote [OF assms(1,2)])
  show ?thesis
    using evolves_keys [OF ev] evolves_repo_wf [OF ev assms(1)] Complete_held [OF assms(2-4)]
      others_promoted_completed [OF assms(1,2)]
    by (simp add: jobAt_completed_promote [OF assms(1,2)])
qed

theorem complete_promotes_successor_witness:
  "\<exists>r'. Complete_mem 20 7 ''w'' 1 two_jobs_claimed = (None, r') \<and>
     others_promoted 20 (job_or_zero two_jobs_claimed 7) two_jobs_claimed r'"
proof -
  have e: "jobAt two_jobs_claimed 7 = Some (job_or_zero two_jobs_claimed 7)"
    "WorkerID (job_or_zero two_jobs_claimed 7) = ''w''"
    "LeaseGeneration (job_or_zero two_jobs_claimed 7) = 1" by code_simp+
  from complete_promotes_successor [OF repo_ok_wf [OF two_jobs_claimed_ok] e, of 20]
  show ?thesis by blast
qed

text \<open>a chain moves on. Once the only job of a chain that is being processed is completed, its
  successor, if it waited for it or was pending, is startable as soon as it is due.\<close>

theorem complete_makes_successor_startable:
  assumes "repo_wf r" and "jobAt r i = Some j" and "WorkerID j = w" and "LeaseGeneration j = g"
    and "jobAt r k = Some s" and "ChainID s = ChainID j" and "Sequence s = Sequence j + 1"
    and "Status s = StateBlocked \<or> Status s = StatePending \<or> Status s = StateRetrying"
    and "\<And>k' s'. jobAt r k' = Some s' \<Longrightarrow> ChainID s' = ChainID j \<Longrightarrow> Status s' = StateProcessing \<Longrightarrow>
      k' = i"
    and "AvailableAt s \<le> later"
  shows "\<exists>r' s'. Complete_mem now i w g r = (None, r') \<and> jobAt r' k = Some s' \<and>
    startable r' later s'"
proof -
  let ?r' = "promote now (ChainID j) (Sequence j) (setJob i (completed now j) r)"
  note at = jobAt_completed_promote [OF assms(1,2), of now]
  have k: "k \<noteq> i" "idAt r (ChainID j) (Sequence j + 1) = Some k"
    using assms(2,5-7) by (auto simp: repo_wf_idAt_iff [OF assms(1)])
  have "Status x \<noteq> StateProcessing" if "jobAt ?r' k' = Some x" "ChainID x = ChainID j" for k' x
    using that assms(9) [of k'] by (auto simp: at split: if_splits)
  moreover have "jobAt ?r' i = Some (completed now j)" by (simp add: at)
  ultimately have "startable ?r' later (unblocked now s)"
    using assms(6-8,10) unfolding startable_def
    by (auto intro!: exI [of _ i] exI [of _ "completed now j"])
  with Complete_held [OF assms(2-4)] k assms(5) show ?thesis by (simp add: at)
qed

theorem complete_makes_successor_startable_witness:
  "\<exists>r' s'. Complete_mem 20 7 ''w'' 1 two_jobs_claimed = (None, r') \<and> jobAt r' 8 = Some s' \<and>
    startable r' 21 s'"
proof -
  let ?r = two_jobs_claimed
  have e: "jobAt ?r 7 = Some (job_or_zero ?r 7)" "WorkerID (job_or_zero ?r 7) = ''w''"
    "LeaseGeneration (job_or_zero ?r 7) = 1"
    "jobAt ?r 8 = Some (job_or_zero ?r 8)" "ChainID (job_or_zero ?r 8) = ChainID (job_or_zero ?r 7)"
    "Sequence (job_or_zero ?r 8) = Sequence (job_or_zero ?r 7) + 1"
    "Status (job_or_zero ?r 8) = StateBlocked" "AvailableAt (job_or_zero ?r 8) \<le> 21"
    by code_simp+
  have "keys (jobs ?r) = [7, 8]" by code_simp
  then have dom: "k' = 7 \<or> k' = 8" if "jobAt ?r k' = Some s'" for k' s'
    using map_of_SomeD [OF that] by force
  have p: "k' = 7" if "jobAt ?r k' = Some s'" "ChainID s' = ChainID (job_or_zero ?r 7)"
      "Status s' = StateProcessing" for k' s'
    using dom [OF that(1)] that(1,3) e(4,7) by auto
  show ?thesis
    by (rule complete_makes_successor_startable [OF repo_ok_wf [OF two_jobs_claimed_ok] e(1-6)
          disjI1 [OF e(7)] p e(8)]) assumption+
qed

text \<open>C5: fencing. A worker whose name or lease generation is not the job's gets a lease conflict from
  every operation of a lease holder, one that names no job gets not-found, and in both cases the
  repository does not change.\<close>

theorem lease_fencing:
  assumes "\<And>j. jobAt r i = Some j \<Longrightarrow> WorkerID j \<noteq> w \<or> LeaseGeneration j \<noteq> g"
  defines "e \<equiv> (if jobAt r i = None then ErrNotFound else ErrLeaseConflict)"
  shows "Complete_mem now i w g r = (Some e, r) \<and> Fail_mem now i w g msg t r = (Some e, r) \<and>
    Retry_mem now i w g msg at r = (Some e, r) \<and> Heartbeat_mem now i w g l r = (Some e, r) \<and>
    ConfirmCancel_mem now i w g r = (Some e, r)"
proof -
  have "with_lease i w g r body = (Some e, r)" for body
    using assms by (auto simp: with_lease_def split: option.splits)
  then show ?thesis
    by (simp add: Complete_mem_def Fail_mem_def Retry_mem_def Heartbeat_mem_def
        ConfirmCancel_mem_def)
qed

theorem lease_fencing_witness:
  "Complete_mem 20 7 ''w'' 0 two_jobs_claimed = (Some ErrLeaseConflict, two_jobs_claimed) \<and>
   Retry_mem 20 7 ''w'' 0 [] 5 two_jobs_claimed = (Some ErrLeaseConflict, two_jobs_claimed)"
proof -
  have j: "jobAt two_jobs_claimed 7 = Some (job_or_zero two_jobs_claimed 7)"
    "LeaseGeneration (job_or_zero two_jobs_claimed 7) \<noteq> 0" by code_simp+
  have n: "jobAt two_jobs_claimed 7 \<noteq> None" by (simp add: j(1))
  have h: "WorkerID j \<noteq> ''w'' \<or> LeaseGeneration j \<noteq> 0" if "jobAt two_jobs_claimed 7 = Some j" for j
    using j that by simp
  show ?thesis
    using lease_fencing [where now = 20 and w = "''w''" and g = 0, OF h, where at = 5 and msg = "[]"]
      n by simp
qed

text \<open>the lease is fenced by its token alone. The holder that completed a job still passes the
  check afterwards: a late \<open>Fail\<close> with the same token turns the completed job into a failed one.\<close>

theorem token_survives_completion:
  assumes "repo_wf r" and "jobAt r i = Some j" and "WorkerID j = w" and "LeaseGeneration j = g"
    and "OrderingMode j \<noteq> OrderingModeDeadLetterAndContinue"
    and "Complete_mem now i w g r = (None, r')"
  shows "\<exists>r'' f. Fail_mem now' i w g msg t r' = (None, r'') \<and> jobAt r'' i = Some f \<and>
    Status f = StateFailed \<and> CompletedAt f = Some now"
proof -
  have "jobAt r' i = Some (completed now j)"
    using assms(6) Complete_held [OF assms(2-4)] jobAt_completed_promote [OF assms(1,2)] by auto
  with assms(3-5) show ?thesis
    by (simp add: Fail_mem_def with_lease_def completed_def failed_def)
qed

theorem token_survives_completion_witness:
  "\<exists>r' r'' f. Complete_mem 20 7 ''w'' 1 two_jobs_claimed = (None, r') \<and>
     Fail_mem 30 7 ''w'' 1 ''late'' True r' = (None, r'') \<and> jobAt r'' 7 = Some f \<and>
     Status f = StateFailed"
proof -
  let ?r = two_jobs_claimed
  let ?c = "Complete_mem 20 7 ''w'' 1 ?r"
  have e: "jobAt ?r 7 = Some (job_or_zero ?r 7)" "WorkerID (job_or_zero ?r 7) = ''w''"
    "LeaseGeneration (job_or_zero ?r 7) = 1"
    "OrderingMode (job_or_zero ?r 7) \<noteq> OrderingModeDeadLetterAndContinue"
    "?c = (None, snd ?c)" by code_simp+
  from token_survives_completion [OF repo_ok_wf [OF two_jobs_claimed_ok] e, of 30 "''late''" True] e(5)
  show ?thesis by metis
qed

text \<open>how a failure ends. \<open>Fail\<close> by the holder stores the message, drops the lease and leaves the
  job dead-lettered when the failure is terminal in a dead-letter-and-continue chain, failed
  otherwise; no other job changes, so the successor stays blocked until it is promoted. The chain
  may go on past the failed job exactly in the two modes that continue on failure.\<close>

theorem fail_outcome:
  assumes "jobAt r i = Some j" and "WorkerID j = w" and "LeaseGeneration j = g"
  shows "\<exists>r' f. Fail_mem now i w g msg terminal r = (None, r') \<and> jobAt r' i = Some f \<and>
    same_identity j f \<and> LastError f = msg \<and> LeaseUntil f = None \<and> FailedAt f = Some now \<and>
    Status f = (if terminal \<and> OrderingMode j = OrderingModeDeadLetterAndContinue
                then StateDeadLettered else StateFailed) \<and>
    (isPredFinished f \<longleftrightarrow> continues_on_failure (OrderingMode j)) \<and>
    (\<forall>k. k \<noteq> i \<longrightarrow> jobAt r' k = jobAt r k)"
proof -
  have "Fail_mem now i w g msg terminal r = (None, setJob i (failed now msg terminal j) r)"
    using assms by (simp add: Fail_mem_def with_lease_def)
  then show ?thesis by simp
qed

theorem fail_outcome_witness:
  "\<exists>r' f. Fail_mem 20 7 ''w'' 1 ''boom'' True two_jobs_claimed = (None, r') \<and>
     jobAt r' 7 = Some f \<and> Status f = StateFailed \<and> jobAt r' 8 = jobAt two_jobs_claimed 8"
proof -
  let ?r = two_jobs_claimed
  have e: "jobAt ?r 7 = Some (job_or_zero ?r 7)" "WorkerID (job_or_zero ?r 7) = ''w''"
    "LeaseGeneration (job_or_zero ?r 7) = 1"
    "OrderingMode (job_or_zero ?r 7) \<noteq> OrderingModeDeadLetterAndContinue" by code_simp+
  obtain r' f where "Fail_mem 20 7 ''w'' 1 ''boom'' True ?r = (None, r')" "jobAt r' 7 = Some f"
      "Status f = (if True \<and> OrderingMode (job_or_zero ?r 7) = OrderingModeDeadLetterAndContinue
         then StateDeadLettered else StateFailed)" "\<forall>k. k \<noteq> 7 \<longrightarrow> jobAt r' k = jobAt ?r k"
    using fail_outcome [OF e(1-3), of 20 "''boom''" True] by blast
  then show ?thesis using e(4) by auto
qed

text \<open>C35: \<open>RecoverStale\<close> recovers as many stale jobs as there are, up to the limit (none for a
  negative one): each goes to retrying with its attempt's delay and loses its lease, so that
  exactly that many fewer are stale, and no job that is not stale changes.\<close>

theorem recover_stale_exact:
  assumes "repo_wf r" and "RecoverStale_mem now limit p r = (n, r')"
  shows "n = min (max limit 0) (int (count_if (is_stale now) (jobs r))) \<and>
    int (count_if (is_stale now) (jobs r')) + n = int (count_if (is_stale now) (jobs r)) \<and>
    keys (jobs r') = keys (jobs r) \<and>
    (\<forall>i j. jobAt r i = Some j \<longrightarrow>
       jobAt r' i = Some j \<or> is_stale now j \<and> jobAt r' i = Some (recovered now p j))"
proof -
  note d = repo_wf_distinct [OF assms(1)]
  have r: "recover_loop now limit p (keys (jobs r)) 0 r = (n, r')"
    using assms(2) by (simp add: RecoverStale_mem_def)
  then have ev: "evolves r r'"
    using evolves_recover_loop [of r now limit p "keys (jobs r)" 0] by simp
  have "n = min (max limit 0) (int (count_if (is_stale now) (jobs r)))"
    using recover_loop_count [OF d, of now limit p 0 r] unfolding count_if_keys [OF d] r by simp
  moreover have "int (count_if (is_stale now) (jobs r')) + n = int (count_if (is_stale now) (jobs r))"
    using recover_loop_left [OF d, of now limit p "keys (jobs r)" 0] unfolding r by simp
  moreover have "jobAt r' i = Some j \<or> is_stale now j \<and> jobAt r' i = Some (recovered now p j)"
    if "jobAt r i = Some j" for i j
    using recover_loop_jobAt [OF that, of now limit p "keys (jobs r)" 0] unfolding r by simp
  ultimately show ?thesis using evolves_keys [OF ev] by blast
qed

theorem recover_stale_exact_witness:
  "\<exists>r'. RecoverStale_mem 1000 5 None two_jobs_claimed = (1, r') \<and>
     count_if (is_stale 1000) (jobs r') = 0"
proof -
  let ?x = "RecoverStale_mem 1000 5 None two_jobs_claimed"
  have e: "?x = (fst ?x, snd ?x)" "fst ?x = 1" "count_if (is_stale 1000) (jobs two_jobs_claimed) = 1"
    by code_simp+
  from recover_stale_exact [OF repo_ok_wf [OF two_jobs_claimed_ok] e(1)] e show ?thesis by auto
qed

text \<open>the operator's actions. A failed, cancelled or dead-lettered job can be replayed (pending
  again, from attempt 0, due now) or skipped, which treats it as completed and opens its chain. On
  a job in any other state both report success and change nothing.\<close>

theorem replay_and_skip:
  assumes "repo_wf r" and "jobAt r i = Some j"
  shows "if replayable j
    then (\<exists>r'. ReplayJob_mem now i r = (None, r') \<and> jobAt r' i = Some (replayed now j) \<and>
            (\<forall>k. k \<noteq> i \<longrightarrow> jobAt r' k = jobAt r k)) \<and>
         (\<exists>r'. SkipJob_mem now i r = (None, r') \<and> jobAt r' i = Some (completed now j) \<and>
            others_promoted now j r r')
    else ReplayJob_mem now i r = (None, r) \<and> SkipJob_mem now i r = (None, r) \<and>
         ReplayJobWithPayload_mem now i pl r = (None, r)"
  using assms(2) others_promoted_completed [OF assms] jobAt_completed_promote [OF assms]
  by (simp add: ReplayJob_mem_def SkipJob_mem_def ReplayJobWithPayload_mem_def)

theorem replay_and_skip_witness:
  "SkipJob_mem 20 7 two_jobs = (None, two_jobs) \<and> ReplayJob_mem 20 7 two_jobs = (None, two_jobs)"
proof -
  have e: "jobAt two_jobs 7 = Some (job_or_zero two_jobs 7)" "\<not> replayable (job_or_zero two_jobs 7)"
    by code_simp+
  from replay_and_skip [OF repo_ok_wf [OF two_jobs_ok] e(1), of 20] e(2) show ?thesis by simp
qed

end
