(* ===== verification/Memory_DLQ.thy ===== *)
theory Memory_DLQ
  imports Memory_Claims
begin

text \<open>
  The dead-letter operations of the in-memory repository: \<open>matchesDLQFilter\<close>, \<open>BulkReplayDLQ\<close>,
  \<open>BulkSkipDLQ\<close>, \<open>BulkPurgeDLQ\<close> and \<open>CountDLQ\<close>. The three bulk operations are one loop over the
  job map with different bodies; locale \<open>bulk_action\<close> states what the loop needs of a body.
  \<open>uuid.UUID.String\<close> (a third-party package) is the parameter \<open>uuidString\<close>.
\<close>

section \<open>Operations\<close>

definition matchesDLQFilter :: "(uuid \<Rightarrow> string) \<Rightarrow> job \<Rightarrow> JobFilter \<Rightarrow> bool" where
  "matchesDLQFilter uuidString j flt =
    (if Status j \<noteq> StateFailed \<and> Status j \<noteq> StateDeadLettered then False
     else if ChainID_flt flt \<noteq> [] \<and> ChainID j \<noteq> ChainID_flt flt then False
     else if JobType_flt flt \<noteq> [] \<and> Type j \<noteq> JobType_flt flt then False
     else if TenantID_flt flt \<noteq> [] \<and> TenantID j \<noteq> TenantID_flt flt then False
     else if TraceID_flt flt \<noteq> [] \<and> TraceID j \<noteq> TraceID_flt flt then False
     else if Search_flt flt \<noteq> [] \<and>
       (let search = ToLower (Search_flt flt);
            idStr = ToLower (uuidString (ID j));
            keyStr = ToLower (IdempotencyKey j);
            traceStr = ToLower (TraceID j);
            errStr = ToLower (LastError j)
        in \<not> Contains idStr search \<and> \<not> Contains keyStr search \<and>
           \<not> Contains traceStr search \<and> \<not> Contains errStr search)
     then False
     else True)"

text \<open>The loop: each entry is read when it is reached.\<close>

fun bulk_loop ::
  "(job \<Rightarrow> bool) \<Rightarrow> (uuid \<Rightarrow> job \<Rightarrow> repo \<Rightarrow> repo) \<Rightarrow> uuid list \<Rightarrow> int \<Rightarrow> repo \<Rightarrow> int \<times> repo" where
  "bulk_loop hit act [] n r = (n, r)"
| "bulk_loop hit act (i # ids) n r =
    (case jobAt r i of
       None \<Rightarrow> bulk_loop hit act ids n r
     | Some j \<Rightarrow>
         if hit j then bulk_loop hit act ids (n + 1) (act i j r)
         else bulk_loop hit act ids n r)"

definition BulkReplayDLQ_mem ::
  "(uuid \<Rightarrow> string) \<Rightarrow> time \<Rightarrow> JobFilter \<Rightarrow> repo \<Rightarrow> int \<times> repo" where
  "BulkReplayDLQ_mem uuidString now flt r =
    bulk_loop (\<lambda>j. matchesDLQFilter uuidString j flt)
      (\<lambda>i j. setJob i (replayed now j)) (keys (jobs r)) 0 r"

definition skip_one :: "time \<Rightarrow> uuid \<Rightarrow> job \<Rightarrow> repo \<Rightarrow> repo" where
  "skip_one now i j r = promote now (ChainID j) (Sequence j) (setJob i (completed now j) r)"

definition BulkSkipDLQ_mem ::
  "(uuid \<Rightarrow> string) \<Rightarrow> time \<Rightarrow> JobFilter \<Rightarrow> repo \<Rightarrow> int \<times> repo" where
  "BulkSkipDLQ_mem uuidString now flt r =
    bulk_loop (\<lambda>j. matchesDLQFilter uuidString j flt) (skip_one now) (keys (jobs r)) 0 r"

definition purge_one :: "uuid \<Rightarrow> job \<Rightarrow> repo \<Rightarrow> repo" where
  "purge_one i j r =
    (let r1 = r\<lparr>jobs := AList.delete i (jobs r)\<rparr>
     in case lookup (chain r1) (ChainID j) of
          None \<Rightarrow> r1
        | Some m \<Rightarrow>
            (let m' = AList.delete (Sequence j) m
             in if length m' = 0 then r1\<lparr>chain := AList.delete (ChainID j) (chain r1)\<rparr>
                else r1\<lparr>chain := AList.update (ChainID j) m' (chain r1)\<rparr>))"

definition BulkPurgeDLQ_mem ::
  "(uuid \<Rightarrow> string) \<Rightarrow> JobFilter \<Rightarrow> repo \<Rightarrow> int \<times> repo" where
  "BulkPurgeDLQ_mem uuidString flt r =
    bulk_loop (\<lambda>j. matchesDLQFilter uuidString j flt) purge_one (keys (jobs r)) 0 r"

definition in_dlq :: "job \<Rightarrow> bool" where
  "in_dlq j \<longleftrightarrow> Status j = StateFailed \<or> Status j = StateDeadLettered"

definition CountDLQ_mem :: "repo \<Rightarrow> int" where
  "CountDLQ_mem r = fold (\<lambda>(_, j) n. if in_dlq j then n + 1 else n) (jobs r) 0"

section \<open>The loop and what it asks of its body\<close>

definition hit_at :: "(job \<Rightarrow> bool) \<Rightarrow> repo \<Rightarrow> uuid \<Rightarrow> bool" where
  "hit_at hit r i \<longleftrightarrow> (case jobAt r i of None \<Rightarrow> False | Some j \<Rightarrow> hit j)"

lemma hit_at_simps [simp]:
  "jobAt r i = None \<Longrightarrow> \<not> hit_at hit r i"
  "jobAt r i = Some j \<Longrightarrow> hit_at hit r i = hit j"
  by (simp_all add: hit_at_def)

lemma hit_atD: "hit_at hit r i \<Longrightarrow> \<exists>j. jobAt r i = Some j \<and> hit j"
  by (auto simp: hit_at_def split: option.splits)

lemma bulk_loop_hit:
  "jobAt r i = Some j \<Longrightarrow> hit j \<Longrightarrow>
   bulk_loop hit act (i # ids) n r = bulk_loop hit act ids (n + 1) (act i j r)"
  by simp

lemma bulk_loop_miss:
  "\<not> hit_at hit r i \<Longrightarrow> bulk_loop hit act (i # ids) n r = bulk_loop hit act ids n r"
  by (auto simp: hit_at_def split: option.splits)

lemma hits_count:
  assumes "distinct (keys (jobs r))"
  shows "length (filter (hit_at P r) (keys (jobs r))) = count_if P (jobs r)"
proof -
  have "hit_at P r (fst e) = P (snd e)" if "e \<in> set (jobs r)" for e
    using assms that by (cases e) (simp add: hit_at_def)
  then have "filter (hit_at P r \<circ> fst) (jobs r) = filter (P \<circ> snd) (jobs r)"
    by (intro filter_cong) auto
  then show ?thesis by (simp add: filter_map count_if_def comp_def case_prod_unfold)
qed

lemma no_hits_count:
  assumes "repo_wf r" and "\<And>i. \<not> hit_at P r i"
  shows "count_if P (jobs r) = 0"
  using hits_count [OF repo_wf_distinct [OF assms(1)], of P] assms(2) by simp

declare bulk_loop.simps(2) [simp del]
declare bulk_loop_hit [simp] bulk_loop_miss [simp]

locale bulk_action =
  fixes hit :: "job \<Rightarrow> bool"
    and act :: "uuid \<Rightarrow> job \<Rightarrow> repo \<Rightarrow> repo"
  assumes act_wf: "repo_wf r \<Longrightarrow> jobAt r i = Some j \<Longrightarrow> hit j \<Longrightarrow> repo_wf (act i j r)"
    and act_own: "repo_wf r \<Longrightarrow> jobAt r i = Some j \<Longrightarrow> hit j \<Longrightarrow> \<not> hit_at hit (act i j r) i"
    and act_others: "repo_wf r \<Longrightarrow> jobAt r i = Some j \<Longrightarrow> hit j \<Longrightarrow> k \<noteq> i \<Longrightarrow>
      hit_at hit (act i j r) k = hit_at hit r k"
begin

lemma loop_induct [consumes 1, case_names Nil hit miss]:
  assumes wf: "repo_wf r"
    and Nil: "\<And>n r. repo_wf r \<Longrightarrow> P [] n r"
    and hit: "\<And>i ids n r j. repo_wf r \<Longrightarrow> jobAt r i = Some j \<Longrightarrow> hit j \<Longrightarrow>
      P ids (n + 1) (act i j r) \<Longrightarrow> P (i # ids) n r"
    and miss: "\<And>i ids n r. repo_wf r \<Longrightarrow> \<not> hit_at hit r i \<Longrightarrow> P ids n r \<Longrightarrow> P (i # ids) n r"
  shows "P ids n r"
  using wf
proof (induction ids arbitrary: n r)
  case (Cons i ids)
  show ?case
  proof (cases "hit_at hit r i")
    case True
    then obtain j where j: "jobAt r i = Some j" "hit j" by (auto dest: hit_atD)
    with Cons show ?thesis by (blast intro: local.hit act_wf)
  qed (use Cons local.miss in blast)
qed (rule local.Nil)

lemma loop_wf: "repo_wf r \<Longrightarrow> repo_wf (snd (bulk_loop hit act ids n r))"
  by (induction r rule: loop_induct [where ids = ids and n = n]) simp_all

lemma filter_act:
  assumes "repo_wf r" "jobAt r i = Some j" "hit j" "i \<notin> set ids"
  shows "filter (hit_at hit (act i j r)) ids = filter (hit_at hit r) ids"
  by (rule filter_cong [OF refl]) (use act_others [OF assms(1-3)] assms(4) in metis)

lemma loop_count:
  "repo_wf r \<Longrightarrow> distinct ids \<Longrightarrow>
   fst (bulk_loop hit act ids n r) = n + int (length (filter (hit_at hit r) ids))"
proof (induction r rule: loop_induct [where ids = ids and n = n])
  case (hit i ids n r j)
  then show ?case using filter_act [OF hit(1-3), of ids] by simp
qed simp_all

lemma loop_keeps_miss:
  "repo_wf r \<Longrightarrow> \<not> hit_at hit r k \<Longrightarrow> \<not> hit_at hit (snd (bulk_loop hit act ids n r)) k"
proof (induction r rule: loop_induct [where ids = ids and n = n])
  case (hit i ids n r j)
  then have "\<not> hit_at hit (act i j r) k"
    using act_own [OF hit(1-3)] act_others [OF hit(1-3), of k] by (cases "k = i") auto
  with hit show ?case by simp
qed simp_all

lemma loop_clears:
  "repo_wf r \<Longrightarrow> k \<in> set ids \<Longrightarrow> \<not> hit_at hit (snd (bulk_loop hit act ids n r)) k"
proof (induction r rule: loop_induct [where ids = ids and n = n])
  case (hit i ids n r j)
  have "\<not> hit_at hit (snd (bulk_loop hit act ids (n + 1) (act i j r))) i"
    using loop_keeps_miss [OF act_wf [OF hit(1-3)] act_own [OF hit(1-3)]] .
  with hit show ?case by auto
next
  case (miss i ids n r)
  then show ?case using loop_keeps_miss [OF miss(1,2)] by auto
qed simp

text \<open>The whole run: every hit is counted, none is left.\<close>

lemma run_count:
  "repo_wf r \<Longrightarrow>
   fst (bulk_loop hit act (keys (jobs r)) 0 r) = int (count_if hit (jobs r))"
  using loop_count [OF _ repo_wf_distinct] hits_count [OF repo_wf_distinct] by simp

lemma run_empties:
  assumes "repo_wf r"
  shows "count_if hit (jobs (snd (bulk_loop hit act (keys (jobs r)) 0 r))) = 0"
proof (rule no_hits_count [OF loop_wf [OF assms]])
  fix i
  have "\<not> hit_at hit r i \<or> i \<in> set (keys (jobs r))"
    using lookup_in_keys [of "jobs r" i] by (cases "jobAt r i") auto
  then show "\<not> hit_at hit (snd (bulk_loop hit act (keys (jobs r)) 0 r)) i"
    using loop_keeps_miss [OF assms] loop_clears [OF assms] by metis
qed

end

text \<open>Bodies that rewrite or remove their own entry only.\<close>

locale pointwise_action = bulk_action +
  fixes upd :: "job \<Rightarrow> job option"
  assumes act_jobAt: "repo_wf r \<Longrightarrow> jobAt r i = Some j \<Longrightarrow> hit j \<Longrightarrow>
    jobAt (act i j r) k = (if k = i then upd j else jobAt r k)"
begin

lemma loop_jobAt:
  "repo_wf r \<Longrightarrow> distinct ids \<Longrightarrow>
   jobAt (snd (bulk_loop hit act ids n r)) k =
   (case jobAt r k of
      None \<Rightarrow> None
    | Some j \<Rightarrow> if k \<in> set ids \<and> hit j then upd j else Some j)"
proof (induction r rule: loop_induct [where ids = ids and n = n])
  case (hit i ids n r j)
  then show ?case by (auto simp: act_jobAt split: option.splits)
next
  case (miss i ids n r)
  then show ?case by (auto simp: hit_at_def split: option.splits)
qed (auto split: option.splits)

lemma run_jobAt:
  "repo_wf r \<Longrightarrow>
   jobAt (snd (bulk_loop hit act (keys (jobs r)) 0 r)) k =
   (case jobAt r k of None \<Rightarrow> None | Some j \<Rightarrow> if hit j then upd j else Some j)"
  using loop_jobAt [OF _ repo_wf_distinct, of r r 0 k] lookup_in_keys [of "jobs r" k]
  by (cases "jobAt r k") simp_all

end

section \<open>The three bodies satisfy it\<close>

lemma matchesDLQFilter_dlq: "matchesDLQFilter us j f \<Longrightarrow> in_dlq j"
  by (auto simp: matchesDLQFilter_def in_dlq_def split: if_splits)

lemma matches_updated [simp]:
  "\<not> matchesDLQFilter us (completed now j) f"
  "\<not> matchesDLQFilter us (replayed now j) f"
  "matchesDLQFilter us (unblocked now j) f = matchesDLQFilter us j f"
  by (simp_all add: matchesDLQFilter_def replayed_def unblocked_def)

lemma matches_zero_filter: "matchesDLQFilter us j zero_JobFilter \<longleftrightarrow> in_dlq j"
  by (auto simp: matchesDLQFilter_def zero_JobFilter_def in_dlq_def)

lemma jobAt_skip_one:
  assumes "repo_wf r" and "jobAt r i = Some j"
  shows "jobAt (skip_one now i j r) k =
    (if k = i then Some (completed now j)
     else if idAt r (ChainID j) (Sequence j + 1) = Some k then map_option (unblocked now) (jobAt r k)
     else jobAt r k)"
  unfolding skip_one_def by (rule jobAt_completed_promote [OF assms])

lemma evolves_skip_one:
  "repo_wf r \<Longrightarrow> jobAt r i = Some j \<Longrightarrow> evolves r (skip_one now i j r)"
  unfolding skip_one_def by (rule evolves_completed_promote)

lemma jobAt_purge_one [simp]:
  "jobAt (purge_one i j r) k = (if k = i then None else jobAt r k)"
  by (simp add: purge_one_def Let_def split: option.splits)

lemma idAt_purge_one [simp]:
  "idAt (purge_one i j r) c q =
   (if c = ChainID j \<and> q = Sequence j then None else idAt r c q)"
proof (cases "lookup (chain r) (ChainID j)")
  case (Some m)
  have "lookup m q = None" if "AList.delete (Sequence j) m = []" "q \<noteq> Sequence j"
    using that lookup_delete [of "Sequence j" m q] by simp
  with Some show ?thesis by (auto simp: purge_one_def Let_def idAt_def)
qed (auto simp: purge_one_def idAt_def)

lemma repo_wf_purge_one:
  assumes wf: "repo_wf r" and i: "jobAt r i = Some j"
  shows "repo_wf (purge_one i j r)"
proof -
  have "distinct (keys (jobs (purge_one i j r)))" "distinct (keys (chain (purge_one i j r)))"
    using wf by (simp_all add: repo_wf_def purge_one_def Let_def split: option.splits)
  moreover have "m \<noteq> [] \<and> distinct (keys m)" if "lookup (chain (purge_one i j r)) c = Some m" for c m
    using repo_wf_chain [OF wf, of "ChainID j"] repo_wf_chain [OF wf, of c] that
    by (auto simp: purge_one_def Let_def simp del: map_of_eq_Some_iff split: if_splits option.splits)
  moreover have "idAt (purge_one i j r) c q = Some k \<longleftrightarrow>
      (\<exists>ja. jobAt (purge_one i j r) k = Some ja \<and> ChainID ja = c \<and> Sequence ja = q)" for c q k
  proof (cases "k = i")
    case True
    then show ?thesis using i by (simp add: repo_wf_idAt_iff [OF wf]) blast
  next
    case False
    then have "\<not> (\<exists>ja. jobAt r k = Some ja \<and> ChainID ja = ChainID j \<and> Sequence ja = Sequence j)"
      using repo_wf_unique_slot [OF wf i, of k] by metis
    with False show ?thesis by (cases "c = ChainID j \<and> q = Sequence j")
        (simp_all add: repo_wf_idAt_iff [OF wf])
  qed
  moreover have "ID ja = k" if "jobAt (purge_one i j r) k = Some ja" for k ja
    using that repo_wf_ID [OF wf] by (simp split: if_splits)
  ultimately show ?thesis unfolding repo_wf_def by blast
qed

interpretation bulk_replay: pointwise_action "\<lambda>j. matchesDLQFilter us j f"
  "\<lambda>i j. setJob i (replayed now j)" "\<lambda>j. Some (replayed now j)" for us f now
  by unfold_locales (auto simp: hit_at_def intro: repo_wf_setJob)

interpretation bulk_purge: pointwise_action "\<lambda>j. matchesDLQFilter us j f" purge_one "\<lambda>j. None"
  for us f
  by unfold_locales (auto simp: hit_at_def intro: repo_wf_purge_one)

interpretation bulk_skip: bulk_action "\<lambda>j. matchesDLQFilter us j f" "skip_one now" for us f now
proof unfold_locales
  fix r i j k
  assume a: "repo_wf r" "jobAt r i = Some j" "matchesDLQFilter us j f"
  show "repo_wf (skip_one now i j r)" using evolves_repo_wf [OF evolves_skip_one [OF a(1,2)] a(1)] .
  show "\<not> hit_at (\<lambda>j. matchesDLQFilter us j f) (skip_one now i j r) i"
    by (simp add: hit_at_def jobAt_skip_one [OF a(1,2)])
  show "k \<noteq> i \<Longrightarrow> hit_at (\<lambda>j. matchesDLQFilter us j f) (skip_one now i j r) k =
      hit_at (\<lambda>j. matchesDLQFilter us j f) r k"
    by (cases "jobAt r k") (simp_all add: hit_at_def jobAt_skip_one [OF a(1,2)])
qed

section \<open>Counting\<close>

lemma fold_count: "fold (\<lambda>(_, j) n. if P j then n + 1 else n) m n = n + int (count_if P m)"
  by (induction m arbitrary: n) (auto simp: count_if_def)

lemma CountDLQ_count: "CountDLQ_mem r = int (count_if in_dlq (jobs r))"
  by (simp add: CountDLQ_mem_def fold_count)

section \<open>The pointwise effect of a bulk skip\<close>

text \<open>Whether one of the listed jobs is skipped and has \<open>s\<close> as its successor.\<close>

definition succeeds_hit :: "(job \<Rightarrow> bool) \<Rightarrow> uuid list \<Rightarrow> repo \<Rightarrow> job \<Rightarrow> bool" where
  "succeeds_hit hit ids r s \<longleftrightarrow>
     (\<exists>i j. i \<in> set ids \<and> jobAt r i = Some j \<and> hit j \<and> ChainID s = ChainID j \<and>
            Sequence s = Sequence j + 1)"

lemma unblocked_idem [simp]: "unblocked now (unblocked now s) = unblocked now s"
  by (simp add: unblocked_def)

lemma unblocked_not_blocked: "in_dlq s \<Longrightarrow> unblocked now s = s"
  by (auto simp: unblocked_def in_dlq_def)

lemma completed_not_hit [simp]: "unblocked now (completed now' j) = completed now' j"
  by (simp add: unblocked_def)

lemma jobAt_skip_one_job:
  assumes wf: "repo_wf r" and i: "jobAt r i = Some j" and k: "jobAt r k = Some s"
  shows "jobAt (skip_one now i j r) k =
    Some (if k = i then completed now j
          else if ChainID s = ChainID j \<and> Sequence s = Sequence j + 1 then unblocked now s else s)"
  using k by (auto simp: jobAt_skip_one [OF wf i] repo_wf_idAt_iff [OF wf])

lemma jobAt_skip_one_hit:
  assumes "repo_wf r" and "jobAt r i = Some j" and "k \<noteq> i" and "matchesDLQFilter us x f"
  shows "jobAt (skip_one now i j r) k = Some x \<longleftrightarrow> jobAt r k = Some x"
proof (cases "jobAt r k")
  case (Some s)
  have "unblocked now s = x \<longleftrightarrow> s = x"
  proof
    assume u: "unblocked now s = x"
    with assms(4) have "matchesDLQFilter us s f" by auto
    with u show "s = x" using matchesDLQFilter_dlq unblocked_not_blocked by metis
  next
    assume "s = x"
    then show "unblocked now s = x" using assms(4) matchesDLQFilter_dlq unblocked_not_blocked by metis
  qed
  with Some assms(3) show ?thesis by (simp add: jobAt_skip_one [OF assms(1,2)])
qed (use assms(3) in \<open>simp add: jobAt_skip_one [OF assms(1,2)]\<close>)

lemma succeeds_hit_skip_one:
  assumes "repo_wf r" and "jobAt r i = Some j" and "matchesDLQFilter us j f" and "i \<notin> set ids"
  shows "succeeds_hit (\<lambda>j. matchesDLQFilter us j f) (i # ids) r s \<longleftrightarrow>
    ChainID s = ChainID j \<and> Sequence s = Sequence j + 1 \<or>
    succeeds_hit (\<lambda>j. matchesDLQFilter us j f) ids (skip_one now i j r) s"
proof -
  have "k \<in> set ids \<and> jobAt (skip_one now i j r) k = Some x \<and> matchesDLQFilter us x f \<longleftrightarrow>
      k \<in> set ids \<and> jobAt r k = Some x \<and> matchesDLQFilter us x f" for k x
    using jobAt_skip_one_hit [OF assms(1,2), of k us x f now] assms(4) by auto
  then show ?thesis using assms(2,3) unfolding succeeds_hit_def by auto
qed

lemma succeeds_hit_fields:
  "ChainID s' = ChainID s \<Longrightarrow> Sequence s' = Sequence s \<Longrightarrow>
   succeeds_hit hit ids r s' = succeeds_hit hit ids r s"
  by (simp add: succeeds_hit_def)

lemma bulk_skip_jobAt:
  fixes us f
  defines "hit \<equiv> \<lambda>j. matchesDLQFilter us j f"
  assumes "repo_wf r" and "distinct ids" and "jobAt r k = Some s"
  shows "jobAt (snd (bulk_loop hit (skip_one now) ids n r)) k =
    Some (if k \<in> set ids \<and> hit s then completed now s
          else if succeeds_hit hit ids r s then unblocked now s else s)"
  using assms(2-4) unfolding hit_def
proof (induction r arbitrary: s rule: bulk_skip.loop_induct
    [where ids = ids and n = n and us = us and f = f and now = now])
  case (hit i ids n r j)
  note step = jobAt_skip_one_job [OF hit(1,2), of _ _ now]
  note sh = succeeds_hit_skip_one [OF hit(1-3), of ids _ now]
  let ?s1 = "if k = i then completed now j
      else if ChainID s = ChainID j \<and> Sequence s = Sequence j + 1 then unblocked now s else s"
  have "jobAt (snd (bulk_loop (\<lambda>j. matchesDLQFilter us j f) (skip_one now) ids (n + 1)
        (skip_one now i j r))) k =
      Some (if k \<in> set ids \<and> matchesDLQFilter us ?s1 f then completed now ?s1
        else if succeeds_hit (\<lambda>j. matchesDLQFilter us j f) ids (skip_one now i j r) ?s1
        then unblocked now ?s1 else ?s1)"
    by (rule hit.IH) (use hit.prems step in auto)
  note loop = this
  consider (own) "k = i" | (skipped) "k \<noteq> i" "matchesDLQFilter us s f"
    | (other) "k \<noteq> i" "\<not> matchesDLQFilter us s f" by blast
  then show ?case
  proof cases
    case own
    with hit.hyps hit.prems have "s = j" "k \<notin> set ids" by auto
    with own loop hit.hyps show ?thesis by simp
  next
    case skipped
    have u: "unblocked now s = s"
      by (rule unblocked_not_blocked [OF matchesDLQFilter_dlq [OF skipped(2)]])
    show ?thesis using loop skipped hit.hyps hit.prems sh [of s] by (simp add: u)
  next
    case other
    have "succeeds_hit (\<lambda>j. matchesDLQFilter us j f) ids (skip_one now i j r) (unblocked now s) =
        succeeds_hit (\<lambda>j. matchesDLQFilter us j f) ids (skip_one now i j r) s"
      by (rule succeeds_hit_fields) simp_all
    with loop other hit.hyps hit.prems sh [of s] show ?thesis by simp
  qed
next
  case (miss i ids n r)
  then have "succeeds_hit (\<lambda>j. matchesDLQFilter us j f) (i # ids) r s =
      succeeds_hit (\<lambda>j. matchesDLQFilter us j f) ids r s"
    by (auto simp: succeeds_hit_def)
  with miss show ?case by auto
qed (simp add: succeeds_hit_def)

section \<open>Properties\<close>

text \<open>The chain of two after its first job failed, for closed instances.\<close>

definition two_jobs_failed :: repo where
  "two_jobs_failed = snd (Fail_mem 20 7 ''w'' 1 ''boom'' True two_jobs_claimed)"

lemma two_jobs_failed_wf: "repo_wf two_jobs_failed"
  unfolding two_jobs_failed_def
  by (rule evolves_repo_wf [OF evolves_lease_ops(1) repo_ok_wf [OF two_jobs_claimed_ok]])

lemma two_jobs_failed_reads:
  "jobAt two_jobs_failed 7 = Some (job_or_zero two_jobs_failed 7)"
  "jobAt two_jobs_failed 8 = Some (job_or_zero two_jobs_failed 8)"
  "in_dlq (job_or_zero two_jobs_failed 7)" "\<not> in_dlq (job_or_zero two_jobs_failed 8)"
  "ChainID (job_or_zero two_jobs_failed 8) = ChainID (job_or_zero two_jobs_failed 7)"
  "Sequence (job_or_zero two_jobs_failed 8) = Sequence (job_or_zero two_jobs_failed 7) + 1"
  "Sequence (job_or_zero two_jobs_failed 8) \<noteq> 1"
  by code_simp+

text \<open>\<open>BulkSkipDLQ\<close> completes every dead-letter job the filter matches, returns their number,
  makes pending every blocked job whose predecessor was among them, and changes nothing else.\<close>

theorem bulk_skip_contract:
  assumes "repo_wf r" and "BulkSkipDLQ_mem us now f r = (n, r')"
  shows "n = int (count_if (\<lambda>j. matchesDLQFilter us j f) (jobs r)) \<and> repo_wf r' \<and>
    (\<forall>k s. jobAt r k = Some s \<longrightarrow>
       jobAt r' k = Some
         (if matchesDLQFilter us s f then completed now s
          else if \<exists>i j. jobAt r i = Some j \<and> matchesDLQFilter us j f \<and>
                    ChainID s = ChainID j \<and> Sequence s = Sequence j + 1
          then unblocked now s else s))"
proof -
  note d = repo_wf_distinct [OF assms(1)]
  have r: "bulk_loop (\<lambda>j. matchesDLQFilter us j f) (skip_one now) (keys (jobs r)) 0 r = (n, r')"
    using assms(2) by (simp add: BulkSkipDLQ_mem_def)
  have all: "i \<in> set (keys (jobs r))" if "jobAt r i = Some j" for i j
    using that by (rule lookup_in_keys)
  have sh: "succeeds_hit (\<lambda>j. matchesDLQFilter us j f) (keys (jobs r)) r s \<longleftrightarrow>
      (\<exists>i j. jobAt r i = Some j \<and> matchesDLQFilter us j f \<and> ChainID s = ChainID j \<and>
             Sequence s = Sequence j + 1)" for s
    using all unfolding succeeds_hit_def by blast
  have "jobAt r' k = Some (if matchesDLQFilter us s f then completed now s
      else if succeeds_hit (\<lambda>j. matchesDLQFilter us j f) (keys (jobs r)) r s
      then unblocked now s else s)" if "jobAt r k = Some s" for k s
    using bulk_skip_jobAt [OF assms(1) d that, of us f now 0] all [OF that] unfolding r by simp
  moreover have "n = int (count_if (\<lambda>j. matchesDLQFilter us j f) (jobs r))"
    using bulk_skip.run_count [OF assms(1), of us f now] unfolding r by simp
  moreover have "repo_wf r'"
    using bulk_skip.loop_wf [OF assms(1), of us f now "keys (jobs r)" 0] unfolding r by simp
  ultimately show ?thesis unfolding sh by blast
qed

theorem bulk_skip_contract_witness:
  "\<exists>r'. BulkSkipDLQ_mem format_nat 30 zero_JobFilter two_jobs_failed = (1, r') \<and>
     jobAt r' 7 = Some (completed 30 (job_or_zero two_jobs_failed 7))"
proof -
  let ?b = "BulkSkipDLQ_mem format_nat 30 zero_JobFilter two_jobs_failed"
  have e: "?b = (fst ?b, snd ?b)" "fst ?b = 1" by code_simp+
  from bulk_skip_contract [OF two_jobs_failed_wf e(1)] two_jobs_failed_reads(1,3) e show ?thesis
    by (intro exI [of _ "snd ?b"]) (simp add: matches_zero_filter)
qed

text \<open>\<open>BulkPurgeDLQ\<close> removes exactly the dead-letter jobs the filter matches, from the job map
  and from the chain index, which still describe each other, and returns their number.\<close>

theorem bulk_purge_contract:
  assumes "repo_wf r" and "BulkPurgeDLQ_mem us f r = (n, r')"
  shows "n = int (count_if (\<lambda>j. matchesDLQFilter us j f) (jobs r)) \<and> repo_wf r' \<and>
    (\<forall>k. jobAt r' k = (case jobAt r k of
        None \<Rightarrow> None | Some s \<Rightarrow> if matchesDLQFilter us s f then None else Some s))"
proof -
  note d = repo_wf_distinct [OF assms(1)]
  have r: "bulk_loop (\<lambda>j. matchesDLQFilter us j f) purge_one (keys (jobs r)) 0 r = (n, r')"
    using assms(2) by (simp add: BulkPurgeDLQ_mem_def)
  have "n = int (count_if (\<lambda>j. matchesDLQFilter us j f) (jobs r))"
    using bulk_purge.run_count [OF assms(1), of us f] unfolding r by simp
  moreover have "repo_wf r'"
    using bulk_purge.loop_wf [OF assms(1), of us f "keys (jobs r)" 0] unfolding r by simp
  moreover have "jobAt r' k = (case jobAt r k of
      None \<Rightarrow> None | Some s \<Rightarrow> if matchesDLQFilter us s f then None else Some s)" for k
    using bulk_purge.run_jobAt [OF assms(1), of us f k] unfolding r by simp
  ultimately show ?thesis by blast
qed

theorem bulk_purge_contract_witness:
  "\<exists>r'. BulkPurgeDLQ_mem format_nat zero_JobFilter two_jobs_failed = (1, r') \<and>
     jobAt r' 7 = None \<and> jobAt r' 8 = jobAt two_jobs_failed 8"
proof -
  let ?b = "BulkPurgeDLQ_mem format_nat zero_JobFilter two_jobs_failed"
  have e: "?b = (fst ?b, snd ?b)" "fst ?b = 1" by code_simp+
  from bulk_purge_contract [OF two_jobs_failed_wf e(1)] two_jobs_failed_reads(1-4) e show ?thesis
    by (intro exI [of _ "snd ?b"]) (simp add: matches_zero_filter)
qed

text \<open>each bulk operation with the empty filter empties the dead-letter queue and returns the
  number \<open>CountDLQ\<close> reported before.\<close>

theorem bulk_empties_dlq:
  assumes "repo_wf r"
    and "b = BulkReplayDLQ_mem us now zero_JobFilter r \<or> b = BulkSkipDLQ_mem us now zero_JobFilter r
      \<or> b = BulkPurgeDLQ_mem us zero_JobFilter r"
  shows "fst b = CountDLQ_mem r \<and> CountDLQ_mem (snd b) = 0"
proof -
  have hit: "(\<lambda>j. matchesDLQFilter us j zero_JobFilter) = in_dlq"
    by (simp add: matches_zero_filter fun_eq_iff)
  show ?thesis
    using assms(2) bulk_replay.run_count [OF assms(1), of us zero_JobFilter now]
      bulk_replay.run_empties [OF assms(1), of us zero_JobFilter now]
      bulk_skip.run_count [OF assms(1), of us zero_JobFilter now]
      bulk_skip.run_empties [OF assms(1), of us zero_JobFilter now]
      bulk_purge.run_count [OF assms(1), of us zero_JobFilter]
      bulk_purge.run_empties [OF assms(1), of us zero_JobFilter]
    unfolding CountDLQ_count BulkReplayDLQ_mem_def BulkSkipDLQ_mem_def BulkPurgeDLQ_mem_def hit
    by auto
qed

theorem bulk_empties_dlq_witness:
  "CountDLQ_mem two_jobs_failed = 1 \<and>
   CountDLQ_mem (snd (BulkReplayDLQ_mem format_nat 30 zero_JobFilter two_jobs_failed)) = 0"
proof -
  have "CountDLQ_mem two_jobs_failed = 1" by code_simp
  with bulk_empties_dlq [OF two_jobs_failed_wf disjI1 [OF refl], of format_nat 30]
  show ?thesis by blast
qed

text \<open>C38: a purge strands the successor. When \<open>BulkPurgeDLQ\<close> removes a failed job, its successor
  cannot be started at any time afterwards, whatever the later operations are, as long as none of
  them enqueues or purges: promoting it does not help, because \<open>Claim\<close> asks for the removed
  predecessor.\<close>

theorem purge_strands_successor:
  assumes "repo_wf r" and "jobAt r i = Some j" and "matchesDLQFilter us j f"
    and "jobAt r k = Some s" and "\<not> matchesDLQFilter us s f"
    and "ChainID s = ChainID j" and "Sequence s = Sequence j + 1" and "Sequence s \<noteq> 1"
    and "BulkPurgeDLQ_mem us f r = (n, r')" and "evolves r' r''"
  shows "\<exists>s''. jobAt r'' k = Some s'' \<and> (\<forall>t. \<not> startable r'' t s'')"
proof -
  have r: "bulk_loop (\<lambda>j. matchesDLQFilter us j f) purge_one (keys (jobs r)) 0 r = (n, r')"
    using assms(9) by (simp add: BulkPurgeDLQ_mem_def)
  have wf': "repo_wf r'"
    using bulk_purge.loop_wf [OF assms(1), of us f "keys (jobs r)" 0] unfolding r by simp
  have at: "jobAt r' x = (case jobAt r x of
      None \<Rightarrow> None | Some s \<Rightarrow> if matchesDLQFilter us s f then None else Some s)" for x
    using bulk_purge.run_jobAt [OF assms(1), of us f x] unfolding r by simp
  have "idAt r' (ChainID j) (Sequence j) = None"
  proof (rule ccontr)
    assume "idAt r' (ChainID j) (Sequence j) \<noteq> None"
    then obtain x p where x: "jobAt r' x = Some p" "ChainID p = ChainID j" "Sequence p = Sequence j"
      by (auto simp: repo_wf_idAt_iff [OF wf'])
    then have "jobAt r x = Some p" "\<not> matchesDLQFilter us p f"
      by (auto simp: at split: option.splits if_splits)
    with x assms(2,3) repo_wf_unique_slot [OF assms(1,2)] show False by force
  qed
  then have gone: "idAt r'' (ChainID j) (Sequence j) = None" by (simp add: evolves_idAt [OF assms(10)])
  have wf'': "repo_wf r''" by (rule evolves_repo_wf [OF assms(10) wf'])
  have "jobAt r' k = Some s" using assms(4,5) by (simp add: at)
  then obtain s'' where s'': "jobAt r'' k = Some s''" "same_identity s s''"
    using evolves_jobAt [OF assms(10)] by blast
  then have "ChainID s'' = ChainID j" "Sequence s'' - 1 = Sequence j" "Sequence s'' \<noteq> 1"
    using assms(6-8) by (simp_all add: same_identity_def)
  then have "\<not> startable r'' t s''" for t
    using gone repo_wf_index [OF wf''] unfolding startable_def by (metis option.distinct(1))
  with s'' show ?thesis by blast
qed

theorem purge_strands_successor_witness:
  "\<exists>r' s''. BulkPurgeDLQ_mem format_nat zero_JobFilter two_jobs_failed = (1, r') \<and>
     jobAt (snd (PromoteNext_mem 40 ''c'' 1 r')) 8 = Some s'' \<and>
     (\<forall>t. \<not> startable (snd (PromoteNext_mem 40 ''c'' 1 r')) t s'')"
proof -
  let ?r = two_jobs_failed
  let ?b = "BulkPurgeDLQ_mem format_nat zero_JobFilter ?r"
  have e: "?b = (fst ?b, snd ?b)" "fst ?b = 1" by code_simp+
  note q = two_jobs_failed_reads
  have m: "matchesDLQFilter format_nat (job_or_zero ?r 7) zero_JobFilter"
    "\<not> matchesDLQFilter format_nat (job_or_zero ?r 8) zero_JobFilter"
    using q(3,4) by (simp_all add: matches_zero_filter)
  have "repo_wf (snd ?b)"
    unfolding BulkPurgeDLQ_mem_def by (rule bulk_purge.loop_wf [OF two_jobs_failed_wf])
  note ev = evolves_Promote [OF this, of 40 "''c''" 1]
  from purge_strands_successor [OF two_jobs_failed_wf q(1) m(1) q(2) m(2) q(5,6,7) e(1) ev] e
  show ?thesis by (intro exI [of _ "snd ?b"]) auto
qed

end
