(* ===== verification/Memory_Query.thy ===== *)
theory Memory_Query
  imports Memory_DLQ
begin

text \<open>
  The reports of the in-memory repository: \<open>GetStats\<close>, \<open>ListJobs\<close> and \<open>ListChains\<close>, with the
  comparators they hand to \<open>sort.Slice\<close> and the paging they share. A slice expression out of range
  panics in Go, so the paged results are outcomes.
\<close>

section \<open>GetStats\<close>

definition stats_step :: "time \<Rightarrow> uuid \<times> job \<Rightarrow> Stats \<Rightarrow> Stats" where
  "stats_step now e st =
    (let j = snd e;
         st = (if (Status j = StatePending \<or> Status j = StateRetrying) \<and> AvailableAt j > now
               then st\<lparr>Scheduled_st := Scheduled_st st + 1\<rparr> else st)
     in if Status j = StatePending then st\<lparr>Pending_st := Pending_st st + 1\<rparr>
        else if Status j = StateBlocked then st\<lparr>Blocked_st := Blocked_st st + 1\<rparr>
        else if Status j = StateProcessing then st\<lparr>Processing_st := Processing_st st + 1\<rparr>
        else if Status j = StateCompleted then st\<lparr>Completed_st := Completed_st st + 1\<rparr>
        else if Status j = StateRetrying then st\<lparr>Retrying_st := Retrying_st st + 1\<rparr>
        else if Status j = StateFailed then st\<lparr>Failed_st := Failed_st st + 1\<rparr>
        else if Status j = StateDeadLettered then st\<lparr>DeadLettered_st := DeadLettered_st st + 1\<rparr>
        else if Status j = StateCancelRequested
        then st\<lparr>CancelRequested_st := CancelRequested_st st + 1\<rparr>
        else if Status j = StateCancelled then st\<lparr>Cancelled_st := Cancelled_st st + 1\<rparr>
        else st)"

definition GetStats_mem :: "time \<Rightarrow> repo \<Rightarrow> Stats" where
  "GetStats_mem now r =
    fold (stats_step now) (jobs r)
      (zero_Stats\<lparr>Total_st := int (length (jobs r)), ActiveChains_st := int (length (chain r))\<rparr>)"

section \<open>Paging\<close>

text \<open>\<open>xs[lo:hi]\<close> and the offset and limit of a filter. The sum of the two is a 64-bit addition.\<close>

definition go_slice :: "'a list \<Rightarrow> int \<Rightarrow> int \<Rightarrow> 'a list outcome" where
  "go_slice xs lo hi =
    (if 0 \<le> lo \<and> lo \<le> hi \<and> hi \<le> int (length xs)
     then Returns (take (nat (hi - lo)) (drop (nat lo) xs))
     else Panics ''slice bounds out of range'')"

definition paginate :: "int \<Rightarrow> int \<Rightarrow> 'a list \<Rightarrow> 'a list outcome" where
  "paginate offset limit xs =
    (if offset \<ge> int (length xs) then Returns []
     else
       (let e = wrap64 (offset + limit);
            e = (if limit \<le> 0 \<or> e > int (length xs) then int (length xs) else e)
        in go_slice xs offset e))"

section \<open>ListJobs\<close>

definition job_matches :: "(uuid \<Rightarrow> string) \<Rightarrow> time \<Rightarrow> JobFilter \<Rightarrow> job \<Rightarrow> bool" where
  "job_matches uuidString now flt j =
    (let search = ToLower (Search_flt flt)
     in if ScheduledOnly_flt flt \<and>
           ((Status j \<noteq> StatePending \<and> Status j \<noteq> StateRetrying) \<or> \<not> AvailableAt j > now)
        then False
        else if ChainID_flt flt \<noteq> [] \<and> ChainID j \<noteq> ChainID_flt flt then False
        else if Status_flt flt \<noteq> [] \<and> Status j \<noteq> Status_flt flt then False
        else if JobType_flt flt \<noteq> [] \<and> Type j \<noteq> JobType_flt flt then False
        else if TenantID_flt flt \<noteq> [] \<and> TenantID j \<noteq> TenantID_flt flt then False
        else if TraceID_flt flt \<noteq> [] \<and> TraceID j \<noteq> TraceID_flt flt then False
        else if search \<noteq> [] \<and>
          (let idStr = ToLower (uuidString (ID j));
               keyStr = ToLower (IdempotencyKey j);
               traceStr = ToLower (TraceID j)
           in \<not> Contains idStr search \<and> \<not> Contains keyStr search \<and> \<not> Contains traceStr search)
        then False
        else True)"

definition job_less :: "string \<Rightarrow> job \<Rightarrow> job \<Rightarrow> bool" where
  "job_less orderBy a b =
    (let k = ToLower orderBy
     in if k = ''sequence'' then Sequence a < Sequence b
        else if k = ''job_type'' then Type a < Type b
        else if k = ''status'' then Status a < Status b
        else if k = ''available_at'' then AvailableAt a < AvailableAt b
        else CreatedAt a < CreatedAt b)"

definition directed :: "bool \<Rightarrow> ('a \<Rightarrow> 'a \<Rightarrow> bool) \<Rightarrow> 'a \<Rightarrow> 'a \<Rightarrow> bool" where
  "directed isAsc lt a b = (let less' = lt a b in if isAsc then less' else \<not> less')"

definition sorted_jobs :: "(uuid \<Rightarrow> string) \<Rightarrow> time \<Rightarrow> JobFilter \<Rightarrow> repo \<Rightarrow> job list" where
  "sorted_jobs uuidString now flt r =
    sort_slice (directed (EqualFold (OrderDir_flt flt) ''ASC'') (job_less (OrderBy_flt flt)))
      (filter (job_matches uuidString now flt) (map snd (jobs r)))"

definition ListJobs_mem ::
  "(uuid \<Rightarrow> string) \<Rightarrow> time \<Rightarrow> JobFilter \<Rightarrow> repo \<Rightarrow> job list outcome \<times> int" where
  "ListJobs_mem uuidString now flt r =
    (let matched = sorted_jobs uuidString now flt r
     in (paginate (Offset_flt flt) (Limit_flt flt) matched, int (length matched)))"

section \<open>ListChains\<close>

definition summary_step ::
  "repo \<Rightarrow> int \<times> uuid \<Rightarrow> int \<times> job \<times> ChainSummary \<Rightarrow> int \<times> job \<times> ChainSummary" where
  "summary_step r e acc =
    (case (e, acc) of ((seq, jid), (maxSeq, latestJob, cs)) \<Rightarrow>
      (let (maxSeq, latestJob) =
             (if seq > maxSeq then (seq, job_or_zero r jid) else (maxSeq, latestJob));
           j = job_or_zero r jid;
           cs = (if Status j = StatePending \<or> Status j = StateProcessing \<or> Status j = StateRetrying
                 then cs\<lparr>PendingJobs_cs := PendingJobs_cs cs + 1\<rparr> else cs);
           cs = (if Status j = StateFailed \<or> Status j = StateDeadLettered
                 then cs\<lparr>FailedJobs_cs := FailedJobs_cs cs + 1\<rparr> else cs)
       in (maxSeq, latestJob, cs)))"

definition chain_summary :: "repo \<Rightarrow> string \<Rightarrow> (int \<times> uuid) list \<Rightarrow> ChainSummary" where
  "chain_summary r chainID m =
    (let cs = zero_ChainSummary\<lparr>ChainID_cs := chainID, TotalJobs_cs := int (length m)\<rparr>;
         (maxSeq, latestJob, cs) = fold (summary_step r) m (0, zero_Job, cs)
     in cs\<lparr>MaxSequence_cs := maxSeq, LatestStatus_cs := Status latestJob\<rparr>)"

definition chain_less :: "string \<Rightarrow> ChainSummary \<Rightarrow> ChainSummary \<Rightarrow> bool" where
  "chain_less orderBy a b =
    (let k = ToLower orderBy
     in if k = ''total_jobs'' then TotalJobs_cs a < TotalJobs_cs b
        else if k = ''max_sequence'' then MaxSequence_cs a < MaxSequence_cs b
        else if k = ''pending_jobs'' then PendingJobs_cs a < PendingJobs_cs b
        else if k = ''failed_jobs'' then FailedJobs_cs a < FailedJobs_cs b
        else ChainID_cs a < ChainID_cs b)"

definition sorted_chains :: "ChainFilter \<Rightarrow> repo \<Rightarrow> ChainSummary list" where
  "sorted_chains flt r =
    (let search = ToLower (Search_cflt flt);
         summaries = map (\<lambda>(chainID, m). chain_summary r chainID m)
           (filter (\<lambda>(chainID, m). \<not> (search \<noteq> [] \<and> \<not> Contains (ToLower chainID) search)) (chain r));
         isAsc = (if OrderDir_cflt flt = [] then True else EqualFold (OrderDir_cflt flt) ''ASC'')
     in sort_slice (directed isAsc (chain_less (OrderBy_cflt flt))) summaries)"

definition ListChains_mem :: "ChainFilter \<Rightarrow> repo \<Rightarrow> ChainSummary list outcome \<times> int" where
  "ListChains_mem flt r =
    (let summaries = sorted_chains flt r
     in (paginate (Offset_cflt flt) (Limit_cflt flt) summaries, int (length summaries)))"

section \<open>The comparators order the slices\<close>

text \<open>\<open>a\<close> may stand before \<open>b\<close>: in ascending order \<open>b\<close> is not below it, in descending order it is
  not below \<open>b\<close>.\<close>

definition in_order :: "bool \<Rightarrow> ('a \<Rightarrow> 'a \<Rightarrow> bool) \<Rightarrow> 'a \<Rightarrow> 'a \<Rightarrow> bool" where
  "in_order isAsc lt a b = (if isAsc then \<not> lt b a else \<not> lt a b)"

lemma slice_order_directed:
  assumes asym: "\<And>x y. lt x y \<Longrightarrow> \<not> lt y x"
    and trans: "\<And>x y z. \<not> lt x y \<Longrightarrow> \<not> lt y z \<Longrightarrow> \<not> lt x z"
  shows "slice_order (directed isAsc lt) (in_order isAsc lt)"
proof unfold_locales
  fix x y z
  show "in_order isAsc lt x y \<Longrightarrow> in_order isAsc lt y z \<Longrightarrow> in_order isAsc lt x z"
    unfolding in_order_def using trans [of z y x] trans [of x y z] by auto
qed (auto simp: directed_def in_order_def Let_def dest: asym split: if_splits)

interpretation job_sort: slice_order "directed asc (job_less ob)" "in_order asc (job_less ob)"
  for asc ob
  by (rule slice_order_directed) (auto simp: job_less_def Let_def split: if_splits)

interpretation chain_sort: slice_order "directed asc (chain_less ob)" "in_order asc (chain_less ob)"
  for asc ob
  by (rule slice_order_directed) (auto simp: chain_less_def Let_def split: if_splits)

section \<open>What the counters of \<open>GetStats\<close> count\<close>

definition has_status :: "string \<Rightarrow> job \<Rightarrow> bool" where
  "has_status s j \<longleftrightarrow> Status j = s"

definition scheduled :: "time \<Rightarrow> job \<Rightarrow> bool" where
  "scheduled now j \<longleftrightarrow>
     (Status j = StatePending \<or> Status j = StateRetrying) \<and> AvailableAt j > now"

lemma count_if_Cons: "count_if P (e # m) = of_bool (P (snd e)) + count_if P m"
  by (cases e) (simp add: count_if_def)

lemma count_if_Nil [simp]: "count_if P [] = 0"
  by (simp add: count_if_def)

lemma stats_fold:
  fixes m :: "(uuid \<times> job) list"
  defines "c \<equiv> \<lambda>s. int (count_if (has_status s) m)"
  shows "fold (stats_step now) m st =
    st\<lparr>Pending_st := Pending_st st + c StatePending, Blocked_st := Blocked_st st + c StateBlocked,
       Processing_st := Processing_st st + c StateProcessing,
       Completed_st := Completed_st st + c StateCompleted,
       Retrying_st := Retrying_st st + c StateRetrying, Failed_st := Failed_st st + c StateFailed,
       DeadLettered_st := DeadLettered_st st + c StateDeadLettered,
       CancelRequested_st := CancelRequested_st st + c StateCancelRequested,
       Cancelled_st := Cancelled_st st + c StateCancelled,
       Scheduled_st := Scheduled_st st + int (count_if (scheduled now) m)\<rparr>"
  unfolding c_def
proof (induction m arbitrary: st)
  case (Cons e m)
  have e: "has_status s (snd e) \<longleftrightarrow> Status (snd e) = s"
      "scheduled now (snd e) \<longleftrightarrow>
        (Status (snd e) = StatePending \<or> Status (snd e) = StateRetrying) \<and> AvailableAt (snd e) > now"
    for s by (simp_all add: has_status_def scheduled_def)
  show ?case
    unfolding fold.simps comp_apply Cons
    by (simp add: stats_step_def Let_def count_if_Cons e)
qed simp

lemma GetStats_counts:
  "Pending_st (GetStats_mem now r) = int (count_if (has_status StatePending) (jobs r))"
  "Blocked_st (GetStats_mem now r) = int (count_if (has_status StateBlocked) (jobs r))"
  "Processing_st (GetStats_mem now r) = int (count_if (has_status StateProcessing) (jobs r))"
  "Completed_st (GetStats_mem now r) = int (count_if (has_status StateCompleted) (jobs r))"
  "Retrying_st (GetStats_mem now r) = int (count_if (has_status StateRetrying) (jobs r))"
  "Failed_st (GetStats_mem now r) = int (count_if (has_status StateFailed) (jobs r))"
  "DeadLettered_st (GetStats_mem now r) = int (count_if (has_status StateDeadLettered) (jobs r))"
  "CancelRequested_st (GetStats_mem now r) = int (count_if (has_status StateCancelRequested) (jobs r))"
  "Cancelled_st (GetStats_mem now r) = int (count_if (has_status StateCancelled) (jobs r))"
  "Scheduled_st (GetStats_mem now r) = int (count_if (scheduled now) (jobs r))"
  "Total_st (GetStats_mem now r) = int (length (jobs r))"
  "ActiveChains_st (GetStats_mem now r) = int (length (chain r))"
  unfolding GetStats_mem_def stats_fold by (simp_all add: zero_Stats_def)

lemma count_if_disj:
  "(\<And>j. \<not> (P j \<and> Q j)) \<Longrightarrow> count_if (\<lambda>j. P j \<or> Q j) m = count_if P m + count_if Q m"
  by (induction m) (auto simp: count_if_Cons of_bool_def)

lemma count_if_le: "(\<And>j. P j \<Longrightarrow> Q j) \<Longrightarrow> count_if P m \<le> count_if Q m"
  by (induction m) (auto simp: count_if_Cons of_bool_def intro: le_SucI)

lemma count_if_all: "(\<And>k j. (k, j) \<in> set m \<Longrightarrow> P j) \<Longrightarrow> count_if P m = length m"
  by (auto simp: count_if_def intro: arg_cong [where f = length] filter_True)

text \<open>The chains of the index are the chains of the jobs.\<close>

lemma chains_of_jobs:
  assumes wf: "repo_wf r"
  shows "set (keys (chain r)) = {ChainID j | i j. jobAt r i = Some j}"
proof (intro set_eqI iffI)
  fix c assume "c \<in> set (keys (chain r))"
  then obtain m where m: "lookup (chain r) c = Some m"
    by (metis map_of_eq_None_iff not_None_eq set_map)
  then obtain q i where "(q, i) \<in> set m" "distinct (keys m)"
    using repo_wf_chain [OF wf m] by (cases m) auto
  then have "idAt r c q = Some i" using m by (simp add: idAt_def)
  then show "c \<in> {ChainID j | i j. jobAt r i = Some j}"
    using repo_wf_idAt [OF wf] by blast
next
  fix c assume "c \<in> {ChainID j | i j. jobAt r i = Some j}"
  then obtain i j where "jobAt r i = Some j" "c = ChainID j" by blast
  then have "idAt r c (Sequence j) = Some i" using repo_wf_index [OF wf] by blast
  then obtain m where "lookup (chain r) c = Some m" by (auto simp: idAt_def split: option.splits)
  then show "c \<in> set (keys (chain r))" by (rule lookup_in_keys)
qed

section \<open>Paging\<close>

lemma paginate_page:
  assumes "0 \<le> offset" and "0 < limit" and "offset + limit < 2 ^ 63"
  shows "paginate offset limit xs = Returns (take (nat limit) (drop (nat offset) xs))"
proof (cases "offset \<ge> int (length xs)")
  case False
  have "wrap64 (offset + limit) = offset + limit" using assms by (intro wrap64_in_range) auto
  with False assms show ?thesis by (auto simp: paginate_def go_slice_def Let_def nat_le_iff)
qed (use assms in \<open>simp add: paginate_def\<close>)

lemma paginate_unlimited:
  assumes "0 \<le> offset" and "limit \<le> 0"
  shows "paginate offset limit xs = Returns (drop (nat offset) xs)"
  using assms by (auto simp: paginate_def go_slice_def Let_def)

lemma paginate_negative:
  "offset < 0 \<Longrightarrow> paginate offset limit xs = Panics ''slice bounds out of range''"
  by (simp add: paginate_def go_slice_def Let_def)

section \<open>Chain summaries\<close>

definition status_in :: "string list \<Rightarrow> repo \<Rightarrow> int \<times> uuid \<Rightarrow> bool" where
  "status_in ss r e \<longleftrightarrow> Status (job_or_zero r (snd e)) \<in> set ss"

lemma summary_fold:
  "fold (summary_step r) m (mx, l, cs) = (mx', l', cs') \<Longrightarrow>
   mx' = fold (\<lambda>(s, _) mx. if s > mx then s else mx) m mx \<and>
   (mx' = mx \<and> l' = l \<or> mx < mx' \<and> (\<exists>i. (mx', i) \<in> set m \<and> l' = job_or_zero r i)) \<and>
   cs' = cs\<lparr>PendingJobs_cs := PendingJobs_cs cs + int (length (filter (status_in
               [StatePending, StateProcessing, StateRetrying] r) m)),
            FailedJobs_cs := FailedJobs_cs cs + int (length (filter (status_in
               [StateFailed, StateDeadLettered] r) m))\<rparr>"
proof (induction m arbitrary: mx l cs)
  case (Cons e m)
  obtain s i where e: "e = (s, i)" by (cases e)
  obtain mx1 l1 cs1 where step: "summary_step r e (mx, l, cs) = (mx1, l1, cs1)"
    by (metis prod_cases3)
  have "fold (summary_step r) m (mx1, l1, cs1) = (mx', l', cs')"
    using Cons.prems by (simp add: step)
  note IH = Cons.IH [OF this]
  have mx1: "mx1 = (if s > mx then s else mx)" "l1 = (if s > mx then job_or_zero r i else l)"
    and cs1: "cs1 = cs\<lparr>PendingJobs_cs := PendingJobs_cs cs + of_bool (status_in
               [StatePending, StateProcessing, StateRetrying] r e),
            FailedJobs_cs := FailedJobs_cs cs + of_bool (status_in
               [StateFailed, StateDeadLettered] r e)\<rparr>"
    using step by (auto simp: e summary_step_def Let_def status_in_def split: if_splits)
  have "mx' = mx \<and> l' = l \<or> mx < mx' \<and> (\<exists>i. (mx', i) \<in> set (e # m) \<and> l' = job_or_zero r i)"
    using IH mx1 by (auto simp: e split: if_splits)
  moreover have "mx' = fold (\<lambda>(s, _) mx. if s > mx then s else mx) (e # m) mx"
    using IH by (simp add: e mx1)
  ultimately show ?case using IH by (simp add: cs1)
qed simp

text \<open>The jobs of a chain with one of the given states, as the set of their sequences.\<close>

definition chain_seqs :: "string list \<Rightarrow> repo \<Rightarrow> string \<Rightarrow> int set" where
  "chain_seqs ss r c = {q. \<exists>i j. jobAt r i = Some j \<and> ChainID j = c \<and> Sequence j = q \<and>
     (ss = [] \<or> Status j \<in> set ss)}"

lemma chain_entries:
  assumes wf: "repo_wf r" and m: "lookup (chain r) c = Some m"
  shows "(q, i) \<in> set m \<longleftrightarrow> (\<exists>j. jobAt r i = Some j \<and> ChainID j = c \<and> Sequence j = q)"
proof -
  have "distinct (keys m)" using repo_wf_chain [OF wf m] by blast
  then have "(q, i) \<in> set m \<longleftrightarrow> idAt r c q = Some i" using m by (simp add: idAt_def)
  then show ?thesis by (simp add: repo_wf_idAt_iff [OF wf])
qed

lemma chain_seqs_filter:
  assumes wf: "repo_wf r" and m: "lookup (chain r) c = Some m" and "ss \<noteq> []"
  shows "length (filter (status_in ss r) m) = card (chain_seqs ss r c)"
proof -
  have "distinct (keys (filter (status_in ss r) m))"
    using repo_wf_chain [OF wf m] by (simp add: distinct_map_filter)
  then have "length (filter (status_in ss r) m) = card (set (keys (filter (status_in ss r) m)))"
    by (metis distinct_card length_map)
  also have "set (keys (filter (status_in ss r) m)) = chain_seqs ss r c"
  proof (intro set_eqI iffI)
    fix q assume "q \<in> set (keys (filter (status_in ss r) m))"
    then obtain i j where "status_in ss r (q, i)" "jobAt r i = Some j" "ChainID j = c" "Sequence j = q"
      by (auto simp: chain_entries [OF wf m])
    then show "q \<in> chain_seqs ss r c"
      unfolding chain_seqs_def status_in_def job_or_zero_def by auto
  next
    fix q assume "q \<in> chain_seqs ss r c"
    then obtain i j where j: "jobAt r i = Some j" "ChainID j = c" "Sequence j = q" "Status j \<in> set ss"
      using assms(3) by (auto simp: chain_seqs_def)
    then have "(q, i) \<in> set (filter (status_in ss r) m)"
      by (simp add: chain_entries [OF wf m] status_in_def job_or_zero_def)
    then show "q \<in> set (keys (filter (status_in ss r) m))" by force
  qed
  finally show ?thesis .
qed

lemma chain_seqs_all:
  assumes wf: "repo_wf r" and m: "lookup (chain r) c = Some m"
  shows "length m = card (chain_seqs [] r c)"
proof -
  have "length m = card (set (keys m))"
    using repo_wf_chain [OF wf m] by (metis distinct_card length_map)
  also have "set (keys m) = chain_seqs [] r c"
  proof (intro set_eqI)
    fix q
    have "q \<in> set (keys m) \<longleftrightarrow> (\<exists>i. (q, i) \<in> set m)" by force
    then show "q \<in> set (keys m) \<longleftrightarrow> q \<in> chain_seqs [] r c"
      by (simp add: chain_entries [OF wf m] chain_seqs_def)
  qed
  finally show ?thesis .
qed

section \<open>Properties\<close>

definition counted_states :: "string list" where
  "counted_states = [StatePending, StateBlocked, StateProcessing, StateCompleted, StateRetrying,
     StateFailed, StateDeadLettered, StateCancelRequested, StateCancelled]"

lemma count_if_states:
  "int (count_if (\<lambda>j. Status j \<in> set counted_states) m) =
   (\<Sum>s\<leftarrow>counted_states. int (count_if (has_status s) m))"
  by (induction m) (auto simp: counted_states_def count_if_Cons has_status_def of_bool_def)

text \<open>the dashboard numbers add up. The nine counters sum to the jobs in one of the nine states,
  so to the total when every job is; the two dead-letter counters sum to what \<open>CountDLQ\<close> returns; the
  scheduled jobs are among the pending and retrying ones; the active chains are the chains some job
  belongs to.\<close>

theorem stats_account:
  fixes now
  assumes "repo_wf r"
  defines "st \<equiv> GetStats_mem now r"
  shows "Pending_st st + Blocked_st st + Processing_st st + Completed_st st + Retrying_st st +
      Failed_st st + DeadLettered_st st + CancelRequested_st st + Cancelled_st st =
      int (count_if (\<lambda>j. Status j \<in> set counted_states) (jobs r)) \<and>
    Failed_st st + DeadLettered_st st = CountDLQ_mem r \<and>
    Scheduled_st st \<le> Pending_st st + Retrying_st st \<and>
    Total_st st = int (card {i. \<exists>j. jobAt r i = Some j}) \<and>
    ActiveChains_st st = int (card {ChainID j | i j. jobAt r i = Some j})"
proof -
  note g = GetStats_counts [of now r, folded st_def]
  have "count_if in_dlq (jobs r) =
      count_if (\<lambda>j. has_status StateFailed j \<or> has_status StateDeadLettered j) (jobs r)"
    by (simp add: in_dlq_def [abs_def] has_status_def)
  then have dlq: "Failed_st st + DeadLettered_st st = CountDLQ_mem r"
    unfolding g CountDLQ_count by (subst (asm) count_if_disj) (auto simp: has_status_def)
  have "count_if (scheduled now) (jobs r) \<le>
      count_if (\<lambda>j. has_status StatePending j \<or> has_status StateRetrying j) (jobs r)"
    by (rule count_if_le) (auto simp: scheduled_def has_status_def)
  then have sched: "Scheduled_st st \<le> Pending_st st + Retrying_st st"
    unfolding g by (subst (asm) count_if_disj) (auto simp: has_status_def)
  have "distinct (keys (chain r))" using assms(1) by (simp add: repo_wf_def)
  then have chains: "ActiveChains_st st = int (card {ChainID j | i j. jobAt r i = Some j})"
    unfolding g chains_of_jobs [OF assms(1), symmetric] using distinct_card by fastforce
  have "{i. \<exists>j. jobAt r i = Some j} = set (keys (jobs r))"
    using lookup_in_keys [of "jobs r"] by (auto simp: weak_map_of_SomeI)
  then have total: "Total_st st = int (card {i. \<exists>j. jobAt r i = Some j})"
    using distinct_card [OF repo_wf_distinct [OF assms(1)]] by (simp add: g)
  from dlq sched chains total show ?thesis
    unfolding count_if_states g by (simp add: counted_states_def)
qed

theorem stats_account_witness:
  "Failed_st (GetStats_mem 30 two_jobs_failed) + DeadLettered_st (GetStats_mem 30 two_jobs_failed) =
     CountDLQ_mem two_jobs_failed \<and> CountDLQ_mem two_jobs_failed = 1"
proof -
  have "CountDLQ_mem two_jobs_failed = 1" by code_simp
  with stats_account [OF two_jobs_failed_wf, of 30] show ?thesis by blast
qed

text \<open>a page of \<open>ListJobs\<close>. With a proper offset and limit it is the requested window of the
  matching jobs, put in the requested order (ties in any order), with the number of matches; a
  negative offset makes the slice expression panic.\<close>

theorem list_jobs_page:
  assumes "offset = Offset_flt flt" and "limit = Limit_flt flt"
    and "0 < limit" and "offset + limit < 2 ^ 63"
  shows "\<exists>js. mset js = mset (filter (job_matches us now flt) (map snd (jobs r))) \<and>
    sorted_wrt (in_order (EqualFold (OrderDir_flt flt) ''ASC'') (job_less (OrderBy_flt flt))) js \<and>
    ListJobs_mem us now flt r =
      (if offset < 0 then Panics ''slice bounds out of range''
       else Returns (take (nat limit) (drop (nat offset) js)), int (length js))"
  using job_sort.sort_slice_ordered [of "EqualFold (OrderDir_flt flt) ''ASC''" "OrderBy_flt flt"]
    paginate_page [of offset limit] paginate_negative [of offset limit] assms
  by (intro exI [of _ "sorted_jobs us now flt r"])
     (auto simp: ListJobs_mem_def sorted_jobs_def Let_def)

theorem list_jobs_page_witness:
  "fst (ListJobs_mem format_nat 30 (zero_JobFilter\<lparr>Offset_flt := -1, Limit_flt := 10\<rparr>) two_jobs) =
     Panics ''slice bounds out of range''"
proof -
  let ?f = "zero_JobFilter\<lparr>Offset_flt := -1, Limit_flt := 10\<rparr>"
  from list_jobs_page [of "-1" ?f 10, where us = format_nat and now = 30 and r = two_jobs]
  show ?thesis by force
qed

text \<open>\<open>ListChains\<close> reports each chain truthfully: the number of its jobs, its largest sequence,
  the status of the job that has it (none when no sequence is positive), and how many of its jobs
  are open or failed; whatever order the index is enumerated in.\<close>

theorem chain_summary_truthful:
  assumes "repo_wf r" and "lookup (chain r) c = Some m"
  shows "TotalJobs_cs (chain_summary r c m) = int (card (chain_seqs [] r c)) \<and>
    MaxSequence_cs (chain_summary r c m) = getMaxSequence r c \<and>
    LatestStatus_cs (chain_summary r c m) =
      (case idAt r c (getMaxSequence r c) of
         Some i \<Rightarrow> if getMaxSequence r c = 0 then [] else Status (job_or_zero r i) | None \<Rightarrow> []) \<and>
    PendingJobs_cs (chain_summary r c m) =
      int (card (chain_seqs [StatePending, StateProcessing, StateRetrying] r c)) \<and>
    FailedJobs_cs (chain_summary r c m) = int (card (chain_seqs [StateFailed, StateDeadLettered] r c))"
proof -
  let ?cs = "zero_ChainSummary\<lparr>ChainID_cs := c, TotalJobs_cs := int (length m)\<rparr>"
  obtain mx l cs where f: "fold (summary_step r) m (0, zero_Job, ?cs) = (mx, l, cs)"
    by (metis prod_cases3)
  note s = summary_fold [OF f]
  have mx: "mx = getMaxSequence r c" using s assms(2) by (simp add: getMaxSequence_def)
  have idAt: "idAt r c q = lookup m q" for q using assms(2) by (simp add: idAt_def)
  have d: "distinct (keys m)" using repo_wf_chain [OF assms] by blast
  have "Status l = (case idAt r c mx of
      Some i \<Rightarrow> if mx = 0 then [] else Status (job_or_zero r i) | None \<Rightarrow> [])"
  proof (cases "mx = 0")
    case True
    with s have "l = zero_Job" by auto
    with True show ?thesis by (simp add: zero_Job_def split: option.splits)
  next
    case False
    with s obtain i where "(mx, i) \<in> set m" "l = job_or_zero r i" by auto
    then have "idAt r c mx = Some i" using d by (simp add: idAt)
    with False \<open>l = _\<close> show ?thesis by simp
  qed
  moreover have "chain_summary r c m = cs\<lparr>MaxSequence_cs := mx, LatestStatus_cs := Status l\<rparr>"
    by (simp add: chain_summary_def f)
  moreover have "PendingJobs_cs cs = int (card (chain_seqs
      [StatePending, StateProcessing, StateRetrying] r c))"
    "FailedJobs_cs cs = int (card (chain_seqs [StateFailed, StateDeadLettered] r c))"
    "TotalJobs_cs cs = int (card (chain_seqs [] r c))"
    using s by (simp_all add: chain_seqs_filter [OF assms] chain_seqs_all [OF assms]
        zero_ChainSummary_def)
  ultimately show ?thesis unfolding mx by simp
qed

theorem chain_summary_truthful_witness:
  "MaxSequence_cs (chain_summary two_jobs_failed ''c'' [(1, 7), (2, 8)]) =
     getMaxSequence two_jobs_failed ''c''"
proof -
  have "lookup (chain two_jobs_failed) ''c'' = Some [(1, 7), (2, 8)]" by code_simp
  from chain_summary_truthful [OF two_jobs_failed_wf this] show ?thesis by blast
qed

end
