(* ===== verification/Float64.thy ===== *)
theory Float64
  imports Prelude
begin

text \<open>
  The part of IEEE 754 binary64 arithmetic that src/retry/policy.go computes with: whole numbers
  rounded to 53 significant bits (nearest, ties to even), multiplication by them, the overflow to
  infinity, and the conversion back to a 64-bit \<open>time.Duration\<close>. A conversion of a value outside the
  range of \<open>int64\<close> is left open by the language; it is \<open>None\<close> here.
\<close>

section \<open>Rounding to 53 bits\<close>

fun bit_length :: "nat \<Rightarrow> nat" where
  "bit_length n = (if n = 0 then 0 else Suc (bit_length (n div 2)))"

declare bit_length.simps [simp del]

text \<open>Round to a multiple of \<open>2 ^ k\<close>.\<close>

definition round_at :: "nat \<Rightarrow> nat \<Rightarrow> nat" where
  "round_at k n =
    (let q = n div 2 ^ k; r = n mod 2 ^ k in
     if 2 * r > 2 ^ k \<or> (2 * r = 2 ^ k \<and> odd q) then (q + 1) * 2 ^ k else q * 2 ^ k)"

definition round53 :: "nat \<Rightarrow> nat" where
  "round53 n = round_at (bit_length n - 53) n"

text \<open>\<open>float64(x)\<close> for an integer \<open>x\<close>.\<close>

definition f64_of_int :: "int \<Rightarrow> int" where
  "f64_of_int x = (if x < 0 then - int (round53 (nat (- x))) else int (round53 (nat x)))"

section \<open>Values, multiplication, comparison, conversion\<close>

datatype f64 = Fin int | PInf | NInf | NaN

definition f64_overflow :: int where
  "f64_overflow = 2 ^ 1024"

definition f64_norm :: "int \<Rightarrow> f64" where
  "f64_norm x = (let y = f64_of_int x in
     if y \<ge> f64_overflow then PInf else if y \<le> - f64_overflow then NInf else Fin y)"

text \<open>A finite number times any value.\<close>

fun f64_mul :: "int \<Rightarrow> f64 \<Rightarrow> f64" where
  "f64_mul a (Fin b) = f64_norm (a * b)"
| "f64_mul a PInf = (if a > 0 then PInf else if a < 0 then NInf else NaN)"
| "f64_mul a NInf = (if a > 0 then NInf else if a < 0 then PInf else NaN)"
| "f64_mul a NaN = NaN"

text \<open>\<open>x > y\<close> for a finite \<open>y\<close>; every comparison with NaN is false.\<close>

fun f64_gt :: "f64 \<Rightarrow> int \<Rightarrow> bool" where
  "f64_gt (Fin a) b = (a > b)"
| "f64_gt PInf b = True"
| "f64_gt NInf b = False"
| "f64_gt NaN b = False"

text \<open>\<open>math.Pow(2, float64(n))\<close> for \<open>n \<ge> 0\<close>.\<close>

definition Pow2 :: "int \<Rightarrow> f64" where
  "Pow2 n = (if n \<ge> 1024 then PInf else Fin (2 ^ nat n))"

text \<open>\<open>time.Duration(x)\<close>.\<close>

fun f64_to_Duration :: "f64 \<Rightarrow> duration option" where
  "f64_to_Duration (Fin x) = (if - (2 ^ 63) \<le> x \<and> x < 2 ^ 63 then Some x else None)"
| "f64_to_Duration _ = None"

section \<open>Lemmas\<close>

lemma bit_length_0 [simp]: "bit_length 0 = 0"
  by (simp add: bit_length.simps)

lemma bit_length_upper: "n < 2 ^ bit_length n"
proof (induction n rule: bit_length.induct)
  case (1 n)
  show ?case
  proof (cases "n = 0")
    case False
    with "1.IH" have "n div 2 < 2 ^ bit_length (n div 2)" by simp
    then have "n < 2 * 2 ^ bit_length (n div 2)" by linarith
    with False show ?thesis by (simp add: bit_length.simps [of n])
  qed simp
qed

lemma bit_length_lower: "0 < n \<Longrightarrow> 2 ^ (bit_length n - 1) \<le> n"
proof (induction n rule: bit_length.induct)
  case (1 n)
  show ?case
  proof (cases "n div 2 = 0")
    case True
    with "1.prems" have "n = 1" by linarith
    then show ?thesis by (simp add: bit_length.simps)
  next
    case False
    with "1" have "2 ^ (bit_length (n div 2) - 1) \<le> n div 2" by simp
    moreover from False have "0 < bit_length (n div 2)"
      by (subst bit_length.simps) simp
    ultimately have "2 ^ bit_length (n div 2) \<le> 2 * (n div 2)"
      by (cases "bit_length (n div 2)") auto
    with "1.prems" show ?thesis by (simp add: bit_length.simps [of n])
  qed
qed

lemma bit_length_le: "n < 2 ^ b \<Longrightarrow> bit_length n \<le> b"
proof (rule ccontr)
  assume n: "n < 2 ^ b" and "\<not> bit_length n \<le> b"
  then have b: "b \<le> bit_length n - 1" and "0 < n" by (auto intro: gr0I)
  then have "(2::nat) ^ b \<le> 2 ^ (bit_length n - 1)" by (intro power_increasing) auto
  with bit_length_lower [OF \<open>0 < n\<close>] n show False by linarith
qed

lemma bit_length_mono: "m \<le> n \<Longrightarrow> bit_length m \<le> bit_length n"
  by (rule bit_length_le) (use bit_length_upper [of n] in linarith)

lemma bit_length_shift: "0 < n \<Longrightarrow> bit_length (2 ^ e * n) = e + bit_length n"
proof (induction e)
  case (Suc e)
  then have "2 ^ Suc e * n \<noteq> 0" and "2 ^ Suc e * n div 2 = 2 ^ e * n" by simp_all
  with Suc show ?case by (subst bit_length.simps) simp
qed simp

lemma round_at_bounds:
  "n div 2 ^ k * 2 ^ k \<le> round_at k n" "round_at k n \<le> (n div 2 ^ k + 1) * 2 ^ k"
  by (auto simp: round_at_def Let_def)

lemma round_at_exact: "2 ^ k dvd n \<Longrightarrow> round_at k n = n"
  by (auto simp: round_at_def Let_def dvd_imp_mod_0)

lemma round_at_mono: "m \<le> n \<Longrightarrow> round_at k m \<le> round_at k n"
proof -
  assume le: "m \<le> n"
  then have q: "m div 2 ^ k \<le> n div 2 ^ k" by (rule div_le_mono)
  show ?thesis
  proof (cases "m div 2 ^ k = n div 2 ^ k")
    case True
    then have "m mod 2 ^ k \<le> n mod 2 ^ k"
      using le by (metis div_mult_mod_eq nat_add_left_cancel_le)
    with True show ?thesis by (auto simp: round_at_def Let_def)
  next
    case False
    with q have "m div 2 ^ k + 1 \<le> n div 2 ^ k" by linarith
    then have "(m div 2 ^ k + 1) * 2 ^ k \<le> n div 2 ^ k * 2 ^ k" by (rule mult_le_mono1)
    with round_at_bounds show ?thesis by (meson le_trans)
  qed
qed

lemma round_at_shift: "round_at (e + k) (2 ^ e * n) = 2 ^ e * round_at k n"
proof -
  have d: "2 ^ e * n div 2 ^ (e + k) = n div 2 ^ k"
    by (simp add: power_add div_mult2_eq)
  have m: "2 ^ e * n mod 2 ^ (e + k) = 2 ^ e * (n mod 2 ^ k)"
    by (simp only: power_add mult_mod_right)
  have scale: "(if 2 * (c * r) > c * p \<or> (2 * (c * r) = c * p \<and> odd q)
      then (q + 1) * (c * p) else q * (c * p))
    = c * (if 2 * r > p \<or> (2 * r = p \<and> odd q) then (q + 1) * p else q * p)"
    if "0 < c" for c r p q :: nat
  proof -
    have "2 * (c * r) = c * (2 * r)" by simp
    with that show ?thesis
      by (simp only: mult_less_cancel1 mult_cancel1 mult.left_commute [of _ c] if_distrib) simp
  qed
  show ?thesis
    unfolding round_at_def Let_def d m unfolding power_add by (rule scale) simp
qed

lemma round53_exact: "n < 2 ^ 53 \<Longrightarrow> round53 n = n"
  using bit_length_le [of n 53] by (simp add: round53_def round_at_exact)

lemma round53_0 [simp]: "round53 0 = 0"
  by (simp add: round53_exact)

lemma round53_shift: "round53 (2 ^ e * n) = 2 ^ e * round53 n"
proof (cases "n = 0")
  case False
  then have bl: "bit_length (2 ^ e * n) = e + bit_length n" by (simp add: bit_length_shift)
  show ?thesis
  proof (cases "53 \<le> bit_length n")
    case True
    then have "e + bit_length n - 53 = e + (bit_length n - 53)" by simp
    then show ?thesis by (simp only: round53_def bl round_at_shift)
  next
    case False
    then have "bit_length n \<le> 53" and "e + bit_length n - 53 \<le> e" by simp_all
    then have "2 ^ (e + bit_length n - 53) dvd (2::nat) ^ e * n"
      by (intro dvd_mult2 le_imp_power_dvd)
    moreover from \<open>bit_length n \<le> 53\<close> have "n < 2 ^ 53"
      by (rule order_less_le_trans [OF bit_length_upper power_increasing]) simp
    ultimately show ?thesis
      by (simp add: round53_def bl round_at_exact round53_exact [unfolded round53_def])
  qed
qed simp

lemma round53_le_power: "bit_length n \<le> b \<Longrightarrow> 53 \<le> b \<Longrightarrow> round53 n \<le> 2 ^ b"
proof -
  assume b: "bit_length n \<le> b" "53 \<le> b"
  let ?k = "bit_length n - 53"
  have "n div 2 ^ ?k < 2 ^ (b - ?k)"
  proof -
    have "n < 2 ^ b"
      by (rule order_less_le_trans [OF bit_length_upper]) (use b(1) in simp)
    also have "(2::nat) ^ b = 2 ^ (b - ?k) * 2 ^ ?k"
      using b by (simp flip: power_add)
    finally show ?thesis by (simp add: div_less_iff_less_mult)
  qed
  then have "(n div 2 ^ ?k + 1) * 2 ^ ?k \<le> 2 ^ (b - ?k) * 2 ^ ?k" by (intro mult_le_mono1) simp
  also have "\<dots> = 2 ^ b" using b by (simp flip: power_add)
  finally show ?thesis using round_at_bounds(2) [of ?k n] by (simp add: round53_def)
qed

lemma round53_ge_power:
  assumes "53 < bit_length n" shows "2 ^ (bit_length n - 1) \<le> round53 n"
proof -
  let ?k = "bit_length n - 53"
  from assms have "0 < n" by (auto intro: gr0I)
  then have "2 ^ (bit_length n - 1) \<le> n" by (rule bit_length_lower)
  moreover have e: "bit_length n - 1 = 52 + ?k" using assms by simp
  then have "(2::nat) ^ (bit_length n - 1) = 2 ^ 52 * 2 ^ ?k" by (simp only: power_add)
  ultimately have "2 ^ 52 \<le> n div 2 ^ ?k" by (simp add: less_eq_div_iff_mult_less_eq)
  then have "2 ^ 52 * 2 ^ ?k \<le> n div 2 ^ ?k * 2 ^ ?k" by (rule mult_le_mono1)
  with round_at_bounds(1) [of n ?k] show ?thesis
    unfolding e power_add round53_def by linarith
qed

lemma round53_mono: "m \<le> n \<Longrightarrow> round53 m \<le> round53 n"
proof -
  assume le: "m \<le> n"
  consider "bit_length n \<le> 53" | "bit_length m = bit_length n"
    | "53 < bit_length n" "bit_length m < bit_length n"
    using bit_length_mono [OF le] by linarith
  then show ?thesis
  proof cases
    case 1
    with bit_length_mono [OF le] have "bit_length m - 53 = 0" "bit_length n - 53 = 0" by simp_all
    with le show ?thesis by (simp add: round53_def round_at_mono)
  next
    case 2
    with le show ?thesis by (simp add: round53_def round_at_mono)
  next
    case 3
    then have "round53 m \<le> 2 ^ (bit_length n - 1)" by (intro round53_le_power) auto
    also have "\<dots> \<le> round53 n" using 3(1) by (rule round53_ge_power)
    finally show ?thesis .
  qed
qed

lemma f64_of_int_exact: "\<bar>x\<bar> < 2 ^ 53 \<Longrightarrow> f64_of_int x = x"
  by (simp add: f64_of_int_def round53_exact nat_less_iff)

lemma f64_of_int_mono: "0 \<le> x \<Longrightarrow> x \<le> y \<Longrightarrow> f64_of_int x \<le> f64_of_int y"
  by (simp add: f64_of_int_def round53_mono)

lemma f64_of_int_nonneg: "0 \<le> x \<Longrightarrow> 0 \<le> f64_of_int x"
  by (simp add: f64_of_int_def)

lemma f64_of_int_shift: "0 \<le> x \<Longrightarrow> f64_of_int (2 ^ e * x) = 2 ^ e * f64_of_int x"
proof -
  assume x: "0 \<le> x"
  then have "\<not> x < 0" and "\<not> 2 ^ e * x < 0" and "nat (2 ^ e * x) = 2 ^ e * nat x"
    by (simp_all add: not_less nat_mult_distrib nat_power_eq)
  then show ?thesis by (simp only: f64_of_int_def if_False round53_shift) simp
qed

lemma f64_of_int_pos: "0 < x \<Longrightarrow> 0 < f64_of_int x"
proof -
  assume "0 < x"
  then have "f64_of_int 1 \<le> f64_of_int x" by (intro f64_of_int_mono) auto
  then show ?thesis by (simp add: f64_of_int_exact)
qed

end
