(* ===== verification/Retry.thy ===== *)
theory Retry
  imports Float64
begin

text \<open>
  Package \<open>retry\<close> (src/retry/policy.go): the exponential backoff with its cap and jitter, computed
  in binary64 as the source does, and its comparison with the delay it means to compute.

  \<open>rand.Float64()\<close> of math/rand is \<open>float64(Int63()) / 2 ^ 63\<close>, drawn again as long as the quotient is
  one; the number \<open>k\<close> of \<open>Int63\<close> it is computed from is an argument, and \<open>drawn k\<close> says that it is
  one the generator keeps. A result is \<open>None\<close> where the conversion to \<open>time.Duration\<close> is outside the range of \<open>int64\<close>.
\<close>

section \<open>The policy\<close>

type_synonym JitterMode = int

definition JitterNone :: JitterMode where "JitterNone = 0"

definition JitterFull :: JitterMode where "JitterFull = 1"

definition JitterEqual :: JitterMode where "JitterEqual = 2"

lemmas jitter_defs = JitterNone_def JitterFull_def JitterEqual_def

record Policy =
  MaxAttempts_pol :: int
  BaseDelay :: duration
  MaxDelay :: duration
  Jitter :: JitterMode

definition DefaultPolicy :: Policy where
  "DefaultPolicy =
    \<lparr>MaxAttempts_pol = 5, BaseDelay = 1 * Second, MaxDelay = 5 * Minute, Jitter = JitterEqual\<rparr>"

text \<open>Go's integer division rounds towards zero.\<close>

definition quot :: "int \<Rightarrow> int \<Rightarrow> int" where
  "quot a b = sgn a * sgn b * (\<bar>a\<bar> div \<bar>b\<bar>)"

text \<open>
  \<open>float64(k)\<close> rounds a \<open>k\<close> of up to 63 bits to 53; the division by \<open>2 ^ 63\<close> is exact.
\<close>

definition drawn :: "nat \<Rightarrow> bool" where
  "drawn k \<longleftrightarrow> k < 2 ^ 63 \<and> f64_of_int (int k) \<noteq> 2 ^ 63"

text \<open>
  \<open>time.Duration(rand.Float64() * float64(d))\<close>: the product of the float \<open>float64(k) / 2 ^ 63\<close> with
  \<open>float64(d)\<close> is the product of the two whole numbers, rounded, and scaled back; the conversion
  truncates.
\<close>

definition rand_times :: "nat \<Rightarrow> duration \<Rightarrow> duration option" where
  "rand_times k d =
    f64_to_Duration (Fin (quot (f64_of_int (f64_of_int (int k) * f64_of_int d)) (2 ^ 63)))"

definition applyJitter :: "nat \<Rightarrow> duration \<Rightarrow> JitterMode \<Rightarrow> duration option" where
  "applyJitter k d mode =
    (if mode = JitterNone then Some d
     else if mode = JitterFull then rand_times k d
     else if mode = JitterEqual then
       (let half = quot d 2 in map_option (\<lambda>r. wrap64 (half + r)) (rand_times k half))
     else Some d)"

definition Backoff :: "Policy \<Rightarrow> nat \<Rightarrow> int \<Rightarrow> duration option" where
  "Backoff p k attempt =
    (let attempt = (if attempt \<le> 0 then 1 else attempt);
         backoff = f64_mul (f64_of_int (BaseDelay p)) (Pow2 (attempt - 1));
         backoff = (if f64_gt backoff (f64_of_int (MaxDelay p))
                    then Fin (f64_of_int (MaxDelay p)) else backoff)
     in Option.bind (f64_to_Duration backoff) (\<lambda>d. applyJitter k d (Jitter p)))"

definition ShouldRetry :: "Policy \<Rightarrow> int \<Rightarrow> bool" where
  "ShouldRetry p attempt \<longleftrightarrow> attempt < MaxAttempts_pol p"

section \<open>The delay the policy means\<close>

text \<open>\<open>base * 2 ^ (attempt - 1)\<close>, at most \<open>MaxDelay\<close>, in unbounded integers.\<close>

definition ideal_delay :: "Policy \<Rightarrow> int \<Rightarrow> int" where
  "ideal_delay p attempt =
    min (BaseDelay p * 2 ^ nat ((if attempt \<le> 0 then 1 else attempt) - 1)) (MaxDelay p)"

text \<open>
  Policies whose delays binary64 represents exactly: 104 days or less. The base is positive, since
  \<open>0 * Inf\<close> is NaN from attempt 1025 on.
\<close>

definition exact_policy :: "Policy \<Rightarrow> bool" where
  "exact_policy p \<longleftrightarrow> 0 < BaseDelay p \<and> BaseDelay p < 2 ^ 53 \<and> 0 \<le> MaxDelay p \<and> MaxDelay p < 2 ^ 53"

lemma DefaultPolicy_exact: "exact_policy DefaultPolicy"
  by (simp add: exact_policy_def DefaultPolicy_def Second_def Minute_def)

lemma ideal_delay_bounds:
  "exact_policy p \<Longrightarrow> 0 \<le> ideal_delay p a"
  "ideal_delay p a \<le> MaxDelay p"
  "exact_policy p \<Longrightarrow> ideal_delay p a < 2 ^ 53"
  by (auto simp: ideal_delay_def exact_policy_def min_def)

lemma ideal_delay_mono:
  assumes "exact_policy p" and "a \<le> b"
  shows "ideal_delay p a \<le> ideal_delay p b"
proof -
  have "(2::int) ^ nat ((if a \<le> 0 then 1 else a) - 1) \<le> 2 ^ nat ((if b \<le> 0 then 1 else b) - 1)"
    using assms(2) by (intro power_increasing nat_mono) auto
  then have "BaseDelay p * 2 ^ nat ((if a \<le> 0 then 1 else a) - 1)
      \<le> BaseDelay p * 2 ^ nat ((if b \<le> 0 then 1 else b) - 1)"
    using assms(1) by (intro mult_left_mono) (auto simp: exact_policy_def)
  then show ?thesis unfolding ideal_delay_def by linarith
qed

section \<open>The float computation gives that delay\<close>

lemma f64_to_Duration_small: "0 \<le> x \<Longrightarrow> x < 2 ^ 63 \<Longrightarrow> f64_to_Duration (Fin x) = Some x"
  by simp

lemma f64_of_int_base_shift:
  "0 < b \<Longrightarrow> b < 2 ^ 53 \<Longrightarrow> f64_of_int (b * 2 ^ e) = b * 2 ^ e"
  using f64_of_int_shift [of b e] f64_of_int_exact [of b] by (simp add: mult.commute)

text \<open>The capped value before the jitter.\<close>

lemma capped_backoff:
  assumes p: "exact_policy p" and n: "0 \<le> n"
  defines "v \<equiv> f64_mul (f64_of_int (BaseDelay p)) (Pow2 n)"
  shows "(if f64_gt v (f64_of_int (MaxDelay p)) then Fin (f64_of_int (MaxDelay p)) else v)
    = Fin (min (BaseDelay p * 2 ^ nat n) (MaxDelay p))"
proof -
  let ?b = "BaseDelay p" and ?m = "MaxDelay p"
  have b: "0 < ?b" "?b < 2 ^ 53" and m: "0 \<le> ?m" "?m < 2 ^ 53"
    using p by (auto simp: exact_policy_def)
  have fb: "f64_of_int ?b = ?b" and fm: "f64_of_int ?m = ?m"
    using b m by (auto intro: f64_of_int_exact)
  have small: "?m < f64_overflow"
    using m(2) by (simp add: f64_overflow_def)
  show ?thesis
  proof (cases "n \<ge> 1024")
    case True
    have "(2::int) ^ 53 \<le> 2 ^ nat n"
      using True by (intro power_increasing) auto
    also have "2 ^ nat n \<le> ?b * 2 ^ nat n" using b by simp
    finally have "?m \<le> ?b * 2 ^ nat n" using m by linarith
    with True b show ?thesis by (simp add: v_def Pow2_def fb fm min_absorb2)
  next
    case False
    then have v: "v = f64_norm (?b * 2 ^ nat n)" by (simp add: v_def Pow2_def fb)
    have r: "f64_of_int (?b * 2 ^ nat n) = ?b * 2 ^ nat n"
      using b by (rule f64_of_int_base_shift)
    have pos: "0 < ?b * 2 ^ nat n" using b by simp
    then have "\<not> ?b * 2 ^ nat n \<le> - f64_overflow" by (simp add: f64_overflow_def)
    with pos small show ?thesis
      by (auto simp: v f64_norm_def Let_def r fm min_def split: if_splits)
  qed
qed

lemma Backoff_capped:
  assumes "exact_policy p"
  shows "Backoff p k a = applyJitter k (ideal_delay p a) (Jitter p)"
proof -
  let ?n = "(if a \<le> 0 then 1 else a) - 1"
  have "0 \<le> ?n" by simp
  note c = capped_backoff [OF assms this]
  have "0 \<le> ideal_delay p a" "ideal_delay p a < 2 ^ 63"
    using ideal_delay_bounds(1,3) [OF assms, of a] by auto
  then have "f64_to_Duration (Fin (ideal_delay p a)) = Some (ideal_delay p a)"
    by (rule f64_to_Duration_small)
  then show ?thesis
    unfolding Backoff_def Let_def c by (simp only: ideal_delay_def bind.bind_lunit)
qed

section \<open>Jitter\<close>

lemma quot_nonneg: "0 \<le> a \<Longrightarrow> 0 < b \<Longrightarrow> quot a b = a div b"
  by (cases "a = 0") (auto simp: quot_def)

text \<open>A draw below one scales an exactly representable delay to something between 0 and it.\<close>

lemma f64_of_draw: "drawn k \<Longrightarrow> 0 \<le> f64_of_int (int k) \<and> f64_of_int (int k) < 2 ^ 63"
proof -
  assume k: "drawn k"
  have "int k \<le> 2 ^ 63 * 1" using k by (auto simp: drawn_def)
  then have "f64_of_int (int k) \<le> f64_of_int (2 ^ 63 * 1)" by (intro f64_of_int_mono) auto
  also have "\<dots> = 2 ^ 63" using f64_of_int_exact [of 1] by (simp only: f64_of_int_shift) simp
  finally show ?thesis using k by (simp add: drawn_def f64_of_int_nonneg)
qed

lemma drawn_below: "k \<le> 2 ^ 61 * 3 \<Longrightarrow> drawn k"
proof -
  assume k: "k \<le> 2 ^ 61 * 3"
  then have "f64_of_int (int k) \<le> f64_of_int (2 ^ 61 * 3)" by (intro f64_of_int_mono) auto
  also have "\<dots> = 2 ^ 61 * 3" using f64_of_int_exact [of 3] by (simp only: f64_of_int_shift) simp
  finally show ?thesis using k by (simp add: drawn_def)
qed

lemma rand_times_bounds:
  assumes d: "0 \<le> d" "d < 2 ^ 53" and k: "drawn k"
  shows "\<exists>r. rand_times k d = Some r \<and> 0 \<le> r \<and> r \<le> d"
proof -
  let ?x = "f64_of_int (f64_of_int (int k) * d)"
  note f = f64_of_draw [OF k]
  have fd: "f64_of_int d = d" using d by (intro f64_of_int_exact) simp
  have x0: "0 \<le> ?x" using d f by (intro f64_of_int_nonneg) simp
  have "f64_of_int (int k) * d \<le> 2 ^ 63 * d" using f d by (intro mult_right_mono) auto
  then have "?x \<le> f64_of_int (2 ^ 63 * d)" using d f by (intro f64_of_int_mono) auto
  also have "\<dots> = 2 ^ 63 * d" using d fd by (simp only: f64_of_int_shift)
  finally have "?x div 2 ^ 63 \<le> d" using zdiv_mono1 [of ?x "2 ^ 63 * d" "2 ^ 63"] by simp
  moreover have "0 \<le> ?x div 2 ^ 63" using x0 by (simp add: pos_imp_zdiv_nonneg_iff)
  moreover have "quot ?x (2 ^ 63) = ?x div 2 ^ 63" using x0 by (intro quot_nonneg) auto
  moreover have "d < 2 ^ 63" using d by simp
  ultimately show ?thesis by (simp add: rand_times_def fd)
qed

lemma applyJitter_bounds:
  assumes d: "0 \<le> d" "d < 2 ^ 53" and k: "drawn k"
  shows "\<exists>r. applyJitter k d mode = Some r \<and> 0 \<le> r \<and> r \<le> d"
proof -
  have half: "0 \<le> quot d 2" "quot d 2 < 2 ^ 53" "quot d 2 \<le> d div 2"
    using d by (simp_all add: quot_nonneg)
  obtain r where r: "rand_times k (quot d 2) = Some r" "0 \<le> r" "r \<le> quot d 2"
    using rand_times_bounds [OF half(1,2) k] by blast
  then have "wrap64 (quot d 2 + r) = quot d 2 + r"
    using half by (intro wrap64_in_range) auto
  with r half rand_times_bounds [OF d k] d show ?thesis
    by (auto simp: applyJitter_def Let_def)
qed

text \<open>Equal jitter keeps at least half of the delay.\<close>

lemma applyJitter_equal_lower:
  assumes d: "0 \<le> d" "d < 2 ^ 53" and k: "drawn k"
    and r: "applyJitter k d JitterEqual = Some r"
  shows "d div 2 \<le> r"
proof -
  have half: "0 \<le> quot d 2" "quot d 2 < 2 ^ 53" "quot d 2 = d div 2"
    using d by (simp_all add: quot_nonneg)
  obtain s where s: "rand_times k (quot d 2) = Some s" "0 \<le> s" "s \<le> quot d 2"
    using rand_times_bounds [OF half(1,2) k] by blast
  then have "wrap64 (quot d 2 + s) = quot d 2 + s"
    using half by (intro wrap64_in_range) auto
  with r s half(3) show ?thesis by (auto simp: applyJitter_def Let_def jitter_defs)
qed

text \<open>C39: the backoff keeps its policy. For a policy with a positive base delay and delays below
  \<open>2 ^ 53\<close> nanoseconds (104 days; \<open>exact_policy\<close>), and for every draw of the random generator,
  rounded as \<open>rand.Float64\<close> rounds it, \<open>Backoff\<close> returns a delay, computed in floating point without error: never negative,
  never above the exponential delay capped at \<open>MaxDelay\<close>, that value itself without jitter, at least
  half of it with equal jitter; and a later attempt never lowers the cap.\<close>

theorem backoff_within_policy:
  assumes p: "exact_policy p" and k: "drawn k"
  shows "\<exists>d. Backoff p k a = Some d \<and> 0 \<le> d \<and> d \<le> ideal_delay p a \<and> d \<le> MaxDelay p \<and>
    (Jitter p = JitterNone \<longrightarrow> d = ideal_delay p a) \<and>
    (Jitter p = JitterEqual \<longrightarrow> ideal_delay p a div 2 \<le> d) \<and>
    (\<forall>b \<ge> a. ideal_delay p a \<le> ideal_delay p b)"
proof -
  note b = ideal_delay_bounds(1,3) [OF p, of a]
  obtain d where d: "applyJitter k (ideal_delay p a) (Jitter p) = Some d"
      "0 \<le> d" "d \<le> ideal_delay p a"
    using applyJitter_bounds [OF b k] by blast
  moreover have "Jitter p = JitterNone \<longrightarrow> d = ideal_delay p a"
    using d(1) by (auto simp: applyJitter_def)
  moreover have "Jitter p = JitterEqual \<longrightarrow> ideal_delay p a div 2 \<le> d"
    using applyJitter_equal_lower [OF b k, of d] d(1) by auto
  moreover have "d \<le> MaxDelay p"
    using d(3) ideal_delay_bounds(2) [of p a] by (rule order_trans)
  ultimately show ?thesis
    using Backoff_capped [OF p, of k a] ideal_delay_mono [OF p] by simp
qed

theorem backoff_within_policy_witness:
  "\<exists>d. Backoff DefaultPolicy (2 ^ 62 + 1) 4 = Some d \<and> 4 * Second \<le> d \<and> d \<le> 8 * Second"
proof -
  have k: "drawn (2 ^ 62 + 1)" by (rule drawn_below) simp
  have i: "ideal_delay DefaultPolicy 4 = 8 * Second" "Jitter DefaultPolicy = JitterEqual"
    by (simp_all add: ideal_delay_def DefaultPolicy_def Second_def Minute_def)
  from backoff_within_policy [OF DefaultPolicy_exact k, of 4] i show ?thesis
    by (auto simp: Second_def)
qed

end
