(* ===== verification/Lease.thy ===== *)
theory Lease
  imports Retry
begin

text \<open>
  Package \<open>lease\<close> (src/lease/lease.go): how long a claim lasts and how often it is renewed.
\<close>

record Manager =
  LeaseDuration :: duration
  Heartbeat_mgr :: duration

definition New_lease :: "duration \<Rightarrow> Manager" where
  "New_lease lease =
    (let lease = (if lease \<le> 0 then 60 * Second else lease)
     in \<lparr>LeaseDuration = lease, Heartbeat_mgr = quot lease 3\<rparr>)"

lemma New_lease_LeaseDuration:
  "LeaseDuration (New_lease d) = (if d \<le> 0 then 60 * Second else d)"
  by (simp add: New_lease_def Let_def)

lemma New_lease_Heartbeat: "Heartbeat_mgr (New_lease d) = LeaseDuration (New_lease d) div 3"
  by (simp add: New_lease_def Let_def quot_nonneg Second_def)

end
