(* ===== verification/Repository.thy ===== *)
theory Repository
  imports Handler Memory_Query Lease
begin

text \<open>
  The \<open>Repository\<close> interface (src/repository.go) as a record of functions on the state \<open>'s\<close> of a
  store, and the laws the engine relies on as a locale. The clock reading and the fresh id an
  implementation takes inside a call are arguments of the function. The in-memory repository
  implements the record and satisfies the laws.
\<close>

section \<open>The interface\<close>

record 's Repository =
  Enqueue_r :: "time \<Rightarrow> uuid \<Rightarrow> EnqueueRequest \<Rightarrow> 's \<Rightarrow> (gerror + job) \<times> 's"
  EnqueueBatch_r :: "((time \<times> uuid) \<times> EnqueueRequest) list \<Rightarrow> 's \<Rightarrow> (gerror + job list) \<times> 's"
  Get_r :: "uuid \<Rightarrow> 's \<Rightarrow> gerror + job"
  GetByChainSeq_r :: "string \<Rightarrow> int \<Rightarrow> 's \<Rightarrow> gerror + job"
  Claim_r :: "time \<Rightarrow> string \<Rightarrow> duration \<Rightarrow> 's \<Rightarrow> (gerror + job) \<times> 's"
  Complete_r :: "time \<Rightarrow> uuid \<Rightarrow> string \<Rightarrow> int \<Rightarrow> 's \<Rightarrow> gerror option \<times> 's"
  Fail_r :: "time \<Rightarrow> uuid \<Rightarrow> string \<Rightarrow> int \<Rightarrow> string \<Rightarrow> bool \<Rightarrow> 's \<Rightarrow> gerror option \<times> 's"
  Retry_r :: "time \<Rightarrow> uuid \<Rightarrow> string \<Rightarrow> int \<Rightarrow> string \<Rightarrow> time \<Rightarrow> 's \<Rightarrow> gerror option \<times> 's"
  Heartbeat_r :: "time \<Rightarrow> uuid \<Rightarrow> string \<Rightarrow> int \<Rightarrow> duration \<Rightarrow> 's \<Rightarrow> gerror option \<times> 's"
  RequestCancel_r :: "time \<Rightarrow> uuid \<Rightarrow> 's \<Rightarrow> gerror option \<times> 's"
  ConfirmCancel_r :: "time \<Rightarrow> uuid \<Rightarrow> string \<Rightarrow> int \<Rightarrow> 's \<Rightarrow> gerror option \<times> 's"
  RecoverStale_r :: "time \<Rightarrow> int \<Rightarrow> (int \<Rightarrow> duration) option \<Rightarrow> 's \<Rightarrow> (gerror + int) \<times> 's"
  ReplayJob_r :: "time \<Rightarrow> uuid \<Rightarrow> 's \<Rightarrow> gerror option \<times> 's"
  ReplayJobWithPayload_r :: "time \<Rightarrow> uuid \<Rightarrow> string \<Rightarrow> 's \<Rightarrow> gerror option \<times> 's"
  SkipJob_r :: "time \<Rightarrow> uuid \<Rightarrow> 's \<Rightarrow> gerror option \<times> 's"
  RescheduleJob_r :: "time \<Rightarrow> uuid \<Rightarrow> time \<Rightarrow> 's \<Rightarrow> (gerror + job) \<times> 's"
  BulkReplayDLQ_r :: "time \<Rightarrow> JobFilter \<Rightarrow> 's \<Rightarrow> (gerror + int) \<times> 's"
  BulkSkipDLQ_r :: "time \<Rightarrow> JobFilter \<Rightarrow> 's \<Rightarrow> (gerror + int) \<times> 's"
  BulkPurgeDLQ_r :: "JobFilter \<Rightarrow> 's \<Rightarrow> (gerror + int) \<times> 's"
  CountDLQ_r :: "'s \<Rightarrow> gerror + int"
  PromoteNext_r :: "time \<Rightarrow> string \<Rightarrow> int \<Rightarrow> 's \<Rightarrow> gerror option \<times> 's"
  ListPendingChains_r :: "'s \<Rightarrow> gerror + string list"
  GetStats_r :: "time \<Rightarrow> 's \<Rightarrow> gerror + Stats"
  ListJobs_r :: "time \<Rightarrow> JobFilter \<Rightarrow> 's \<Rightarrow> (gerror + job list \<times> int) outcome"
  ListChains_r :: "ChainFilter \<Rightarrow> 's \<Rightarrow> (gerror + ChainSummary list \<times> int) outcome"
  NotifyChannel_r :: "'s \<Rightarrow> string"

section \<open>What the engine relies on\<close>

definition holds_lease :: "job \<Rightarrow> string \<Rightarrow> int \<Rightarrow> bool" where
  "holds_lease j w g \<longleftrightarrow> WorkerID j = w \<and> LeaseGeneration j = g"

text \<open>
  \<open>at s i\<close> is the job stored under \<open>i\<close>, \<open>ok\<close> the store's own invariant, \<open>held j w g\<close> that the store
  accepts \<open>w\<close> with generation \<open>g\<close> as the executor of \<open>j\<close>. A claim hands out a stored job in
  processing that the claimer holds; the holder can complete, fail and retry; everyone else gets a
  lease conflict; promotion keeps every job that is not blocked.
\<close>

locale lease_store =
  fixes R :: "'s Repository"
    and at :: "'s \<Rightarrow> uuid \<Rightarrow> job option"
    and ok :: "'s \<Rightarrow> bool"
    and held :: "job \<Rightarrow> string \<Rightarrow> int \<Rightarrow> bool"
  assumes claim_some: "ok s \<Longrightarrow> Claim_r R now w l s = (Inr j, s') \<Longrightarrow>
      ok s' \<and> at s' (ID j) = Some j \<and> WorkerID j = w \<and> Status j = StateProcessing \<and>
      held j w (LeaseGeneration j)"
    and claim_none: "ok s \<Longrightarrow> Claim_r R now w l s = (Inl e, s') \<Longrightarrow> s' = s"
    and complete_held: "ok s \<Longrightarrow> at s i = Some j \<Longrightarrow> held j w g \<Longrightarrow>
      \<exists>s' j'. Complete_r R now i w g s = (None, s') \<and> ok s' \<and> at s' i = Some j' \<and>
        same_identity j j' \<and> Status j' = StateCompleted"
    and fail_held: "ok s \<Longrightarrow> at s i = Some j \<Longrightarrow> held j w g \<Longrightarrow>
      \<exists>s' j'. Fail_r R now i w g msg True s = (None, s') \<and> ok s' \<and> at s' i = Some j' \<and>
        same_identity j j' \<and> LastError j' = msg \<and>
        (Status j' = StateFailed \<or> Status j' = StateDeadLettered) \<and>
        (\<forall>k. k \<noteq> i \<longrightarrow> at s' k = at s k)"
    and retry_held: "ok s \<Longrightarrow> at s i = Some j \<Longrightarrow> held j w g \<Longrightarrow>
      \<exists>s' j'. Retry_r R now i w g msg next s = (None, s') \<and> ok s' \<and> at s' i = Some j' \<and>
        same_identity j j' \<and> Status j' = StateRetrying \<and> AvailableAt j' = next"
    and fenced: "ok s \<Longrightarrow> at s i = Some j \<Longrightarrow> \<not> held j w g \<Longrightarrow>
      Complete_r R now i w g s = (Some ErrLeaseConflict, s) \<and>
      Fail_r R now i w g msg True s = (Some ErrLeaseConflict, s) \<and>
      Retry_r R now i w g msg next s = (Some ErrLeaseConflict, s)"
    and promote_keeps: "ok s \<Longrightarrow> at s i = Some j \<Longrightarrow>
      \<exists>s' j'. PromoteNext_r R now c q s = (None, s') \<and> ok s' \<and> at s' i = Some j' \<and>
        same_identity j j' \<and>
        (Status j \<noteq> StateBlocked \<longrightarrow> j' = j) \<and>
        Status j' = (if ChainID j = c \<and> Sequence j = q + 1 \<and> Status j = StateBlocked
                     then StatePending else Status j)"

text \<open>A store where a cancel request leaves the executor its lease.\<close>

locale cancel_safe_store = lease_store +
  assumes cancel_keeps: "ok s \<Longrightarrow> at s i = Some j \<Longrightarrow> held j w g \<Longrightarrow>
      \<exists>s' j'. RequestCancel_r R now i s = (None, s') \<and> ok s' \<and> at s' i = Some j' \<and>
        same_identity j j' \<and> held j' w g"

section \<open>The in-memory repository implements it\<close>

definition memory_repository :: "(uuid \<Rightarrow> string) \<Rightarrow> repo Repository" where
  "memory_repository uuidString =
    \<lparr>Enqueue_r = Enqueue_mem, EnqueueBatch_r = EnqueueBatch_mem, Get_r = Get_mem,
     GetByChainSeq_r = GetByChainSeq_mem, Claim_r = Claim_mem, Complete_r = Complete_mem,
     Fail_r = Fail_mem, Retry_r = Retry_mem, Heartbeat_r = Heartbeat_mem,
     RequestCancel_r = RequestCancel_mem, ConfirmCancel_r = ConfirmCancel_mem,
     RecoverStale_r = (\<lambda>now limit p r. case RecoverStale_mem now limit p r of (n, r') \<Rightarrow> (Inr n, r')),
     ReplayJob_r = ReplayJob_mem, ReplayJobWithPayload_r = ReplayJobWithPayload_mem,
     SkipJob_r = SkipJob_mem, RescheduleJob_r = RescheduleJob_mem,
     BulkReplayDLQ_r =
       (\<lambda>now f r. case BulkReplayDLQ_mem uuidString now f r of (n, r') \<Rightarrow> (Inr n, r')),
     BulkSkipDLQ_r =
       (\<lambda>now f r. case BulkSkipDLQ_mem uuidString now f r of (n, r') \<Rightarrow> (Inr n, r')),
     BulkPurgeDLQ_r = (\<lambda>f r. case BulkPurgeDLQ_mem uuidString f r of (n, r') \<Rightarrow> (Inr n, r')),
     CountDLQ_r = (\<lambda>r. Inr (CountDLQ_mem r)), PromoteNext_r = PromoteNext_mem,
     ListPendingChains_r = (\<lambda>r. Inr (ListPendingChains_mem r)),
     GetStats_r = (\<lambda>now r. Inr (GetStats_mem now r)),
     ListJobs_r = (\<lambda>now f r. case ListJobs_mem uuidString now f r of
        (Returns js, n) \<Rightarrow> Returns (Inr (js, n)) | (Panics msg, n) \<Rightarrow> Panics msg),
     ListChains_r = (\<lambda>f r. case ListChains_mem f r of
        (Returns cs, n) \<Rightarrow> Returns (Inr (cs, n)) | (Panics msg, n) \<Rightarrow> Panics msg),
     NotifyChannel_r = NotifyChannel_mem\<rparr>"

lemma memory_repository_sel [simp]:
  "Claim_r (memory_repository us) = Claim_mem" "Complete_r (memory_repository us) = Complete_mem"
  "Fail_r (memory_repository us) = Fail_mem" "Retry_r (memory_repository us) = Retry_mem"
  "Heartbeat_r (memory_repository us) = Heartbeat_mem"
  "PromoteNext_r (memory_repository us) = PromoteNext_mem"
  "RequestCancel_r (memory_repository us) = RequestCancel_mem"
  "Enqueue_r (memory_repository us) = Enqueue_mem"
  "EnqueueBatch_r (memory_repository us) = EnqueueBatch_mem"
  "CountDLQ_r (memory_repository us) = (\<lambda>r. Inr (CountDLQ_mem r))"
  "RecoverStale_r (memory_repository us) =
     (\<lambda>now limit p r. case RecoverStale_mem now limit p r of (n, r') \<Rightarrow> (Inr n, r'))"
  by (simp_all add: memory_repository_def)

lemma mem_claim_some:
  assumes wf: "repo_wf r" and c: "Claim_mem now w l r = (Inr j, r')"
  shows "repo_wf r' \<and> jobAt r' (ID j) = Some j \<and> WorkerID j = w \<and> Status j = StateProcessing \<and>
    holds_lease j w (LeaseGeneration j)"
proof (cases rule: Claim_cases [OF wf, of now w l, case_names none some])
  case (some x)
  have "repo_wf r'" using evolves_repo_wf [OF evolves_Claim [OF wf, of now w l] wf] c by simp
  with some c show ?thesis by (auto simp: claimed_def holds_lease_def)
qed (use c in simp)

lemma mem_claim_none:
  assumes wf: "repo_wf r" and c: "Claim_mem now w l r = (Inl e, r')"
  shows "r' = r"
  by (cases rule: Claim_cases [OF wf, of now w l, case_names none some]) (use c in auto)

lemma mem_with_lease_held:
  "jobAt r i = Some j \<Longrightarrow> holds_lease j w g \<Longrightarrow> with_lease i w g r body = (None, body j)"
  by (simp add: with_lease_def holds_lease_def)

lemma mem_fenced:
  "jobAt r i = Some j \<Longrightarrow> \<not> holds_lease j w g \<Longrightarrow> with_lease i w g r body = (Some ErrLeaseConflict, r)"
  by (auto simp: with_lease_def holds_lease_def)

lemma mem_held_setJob:
  assumes "repo_wf r" and "jobAt r i = Some j" and "same_identity j (f j)"
  shows "repo_wf (setJob i (f j) r) \<and> jobAt (setJob i (f j) r) i = Some (f j)"
  using repo_wf_setJob [OF assms] by simp

lemma mem_promote_keeps:
  assumes wf: "repo_wf r" and i: "jobAt r i = Some j"
  shows "\<exists>r' j'. PromoteNext_mem now c q r = (None, r') \<and> repo_wf r' \<and> jobAt r' i = Some j' \<and>
    same_identity j j' \<and> (Status j \<noteq> StateBlocked \<longrightarrow> j' = j) \<and>
    Status j' = (if ChainID j = c \<and> Sequence j = q + 1 \<and> Status j = StateBlocked
                 then StatePending else Status j)"
proof -
  have "idAt r c (q + 1) = Some i \<longleftrightarrow> ChainID j = c \<and> Sequence j = q + 1"
    using i by (auto simp: repo_wf_idAt_iff [OF wf])
  with jobAt_promote [OF wf, of now c q i] i evolves_repo_wf [OF evolves_promote [OF wf] wf]
  show ?thesis by (auto simp: PromoteNext_mem_def unblocked_def)
qed

lemma mem_cancel_keeps:
  assumes wf: "repo_wf r" and i: "jobAt r i = Some j" and h: "holds_lease j w g"
  shows "\<exists>r' j'. RequestCancel_mem now i r = (None, r') \<and> repo_wf r' \<and> jobAt r' i = Some j' \<and>
    same_identity j j' \<and> holds_lease j' w g"
proof -
  have "repo_wf (snd (RequestCancel_mem now i r))"
    by (rule evolves_repo_wf [OF evolves_cancel_replay(1) wf])
  then show ?thesis using i h by (auto simp: RequestCancel_mem_def holds_lease_def)
qed

lemma mem_complete_held:
  assumes "repo_wf r" and "jobAt r i = Some j" and "holds_lease j w g"
  shows "\<exists>r' j'. Complete_mem now i w g r = (None, r') \<and> repo_wf r' \<and> jobAt r' i = Some j' \<and>
    same_identity j j' \<and> Status j' = StateCompleted"
  using Complete_held [of r i j w g now] assms jobAt_completed_promote [OF assms(1,2), of now i]
    evolves_repo_wf [OF evolves_completed_promote [OF assms(1,2)] assms(1)]
  by (auto simp: holds_lease_def)

interpretation mem: cancel_safe_store "memory_repository us" jobAt repo_wf holds_lease for us
proof unfold_locales
  fix r :: repo and i j w g now msg "next"
  assume a: "repo_wf r" "jobAt r i = Some j" "holds_lease j w g"
  show "\<exists>r' j'. Complete_r (memory_repository us) now i w g r = (None, r') \<and> repo_wf r' \<and>
      jobAt r' i = Some j' \<and> same_identity j j' \<and> Status j' = StateCompleted"
    using mem_complete_held [OF a] by simp
  show "\<exists>r' j'. Fail_r (memory_repository us) now i w g msg True r = (None, r') \<and> repo_wf r' \<and>
      jobAt r' i = Some j' \<and> same_identity j j' \<and> LastError j' = msg \<and>
      (Status j' = StateFailed \<or> Status j' = StateDeadLettered) \<and>
      (\<forall>k. k \<noteq> i \<longrightarrow> jobAt r' k = jobAt r k)"
    using mem_held_setJob [OF a(1,2), of "failed now msg True"]
    by (simp add: Fail_mem_def mem_with_lease_held [OF a(2,3)])
  show "\<exists>r' j'. Retry_r (memory_repository us) now i w g msg next r = (None, r') \<and> repo_wf r' \<and>
      jobAt r' i = Some j' \<and> same_identity j j' \<and> Status j' = StateRetrying \<and> AvailableAt j' = next"
    using mem_held_setJob [OF a(1,2), of "retrying now msg next"]
    by (simp add: Retry_mem_def mem_with_lease_held [OF a(2,3)]) (simp add: retrying_def)
next
  fix r :: repo and i j w g now msg "next"
  assume "repo_wf r" "jobAt r i = Some j" "\<not> holds_lease j w g"
  then show "Complete_r (memory_repository us) now i w g r = (Some ErrLeaseConflict, r) \<and>
      Fail_r (memory_repository us) now i w g msg True r = (Some ErrLeaseConflict, r) \<and>
      Retry_r (memory_repository us) now i w g msg next r = (Some ErrLeaseConflict, r)"
    by (simp add: Complete_mem_def Fail_mem_def Retry_mem_def mem_fenced)
qed (use mem_claim_some mem_claim_none mem_promote_keeps mem_cancel_keeps in simp_all)

end
