(* ===== verification/Engine.thy ===== *)
theory Engine
  imports Repository
begin

text \<open>
  The engine (src/engine.go): its options, enqueueing with mode resolution, the worker's
  \<open>tryClaimAndExecute\<close>, heartbeats, the recovery loop and wake-ups.

  The engine is written against the \<open>Repository\<close> record, so every definition works on any store.
  A run has the store, the counter of active leases, the wake-up channel and the trace of the calls
  on metrics, listener and logger. What a call reads from outside is in a record of readings: the
  clock (one reading per place, in program order), the random draw of the backoff, the value the
  machine gives to a float out of range, the stack trace of a panic.

  Whatever other goroutines do while a handler runs (heartbeats, other workers, operators) is part
  of the handler's effect on the store, which is an arbitrary function.
\<close>

section \<open>Engine and options\<close>

record 's Engine =
  repo_eng :: "'s Repository"
  handlers :: "'s Registry"
  leaseMgr :: Manager
  retryPol :: Policy
  workerID_eng :: string
  concurrency :: int
  pollInterval :: duration
  recoveryInterval :: duration
  useNotify :: bool
  orderingMode_eng :: string
  orderingStrategy :: "(EnqueueRequest \<Rightarrow> string) option"
  panicHandler :: "(ctx \<Rightarrow> job \<Rightarrow> string \<Rightarrow> string \<Rightarrow> gerror option) option"
  retryOnPanic :: bool
  eventListener :: FunctionalEventListener
  dlqThreshold :: int

definition NoopEventListener :: FunctionalEventListener where
  "NoopEventListener =
    \<lparr>OnJobFailedFunc = None, OnChainBlockedFunc = None, OnDLQThresholdExceededFunc = None\<rparr>"

definition WithConcurrency :: "int \<Rightarrow> 's Engine \<Rightarrow> 's Engine" where
  "WithConcurrency n e = (if n > 0 then e\<lparr>concurrency := n\<rparr> else e)"

definition WithPollInterval :: "duration \<Rightarrow> 's Engine \<Rightarrow> 's Engine" where
  "WithPollInterval d e = e\<lparr>pollInterval := d\<rparr>"

definition WithLease :: "duration \<Rightarrow> 's Engine \<Rightarrow> 's Engine" where
  "WithLease d e = e\<lparr>leaseMgr := New_lease d\<rparr>"

definition WithRetryPolicy :: "Policy \<Rightarrow> 's Engine \<Rightarrow> 's Engine" where
  "WithRetryPolicy p e = e\<lparr>retryPol := p\<rparr>"

definition WithWorkerID :: "string \<Rightarrow> 's Engine \<Rightarrow> 's Engine" where
  "WithWorkerID i e = e\<lparr>workerID_eng := i\<rparr>"

definition WithRecoveryInterval :: "duration \<Rightarrow> 's Engine \<Rightarrow> 's Engine" where
  "WithRecoveryInterval d e = e\<lparr>recoveryInterval := d\<rparr>"

definition WithNotify :: "bool \<Rightarrow> 's Engine \<Rightarrow> 's Engine" where
  "WithNotify enabled e = e\<lparr>useNotify := enabled\<rparr>"

definition WithOrderingMode :: "string \<Rightarrow> 's Engine \<Rightarrow> 's Engine" where
  "WithOrderingMode mode e = e\<lparr>orderingMode_eng := mode\<rparr>"

definition WithOrderingStrategy :: "(EnqueueRequest \<Rightarrow> string) option \<Rightarrow> 's Engine \<Rightarrow> 's Engine" where
  "WithOrderingStrategy s e = e\<lparr>orderingStrategy := s\<rparr>"

definition WithPanicHandler ::
  "(ctx \<Rightarrow> job \<Rightarrow> string \<Rightarrow> string \<Rightarrow> gerror option) option \<Rightarrow> 's Engine \<Rightarrow> 's Engine" where
  "WithPanicHandler h e = e\<lparr>panicHandler := h\<rparr>"

definition WithRetryOnPanic :: "bool \<Rightarrow> 's Engine \<Rightarrow> 's Engine" where
  "WithRetryOnPanic b e = e\<lparr>retryOnPanic := b\<rparr>"

definition WithEventListener :: "FunctionalEventListener \<Rightarrow> 's Engine \<Rightarrow> 's Engine" where
  "WithEventListener l e = e\<lparr>eventListener := l\<rparr>"

definition WithDLQThreshold :: "int \<Rightarrow> 's Engine \<Rightarrow> 's Engine" where
  "WithDLQThreshold n e = e\<lparr>dlqThreshold := n\<rparr>"

text \<open>\<open>worker\<close> stands for the generated default name, \<open>worker-\<close> and eight digits of a fresh id.\<close>

definition New_engine ::
  "'s Repository \<Rightarrow> string \<Rightarrow> ('s Engine \<Rightarrow> 's Engine) list \<Rightarrow> 's Engine" where
  "New_engine r worker opts =
    (let e = \<lparr>repo_eng = r, handlers = NewRegistry, leaseMgr = New_lease (60 * Second),
           retryPol = DefaultPolicy, workerID_eng = worker, concurrency = 10,
           pollInterval = 500 * Millisecond, recoveryInterval = 10 * Second, useNotify = False,
           orderingMode_eng = OrderingModeStrict, orderingStrategy = None, panicHandler = None,
           retryOnPanic = False, eventListener = NoopEventListener, dlqThreshold = 0\<rparr>;
         e = fold (\<lambda>opt e. opt e) opts e
     in if MaxAttempts_pol (retryPol e) = 0 then e\<lparr>retryPol := DefaultPolicy\<rparr> else e)"

definition Register_eng :: "string \<Rightarrow> 's handler \<Rightarrow> 's Engine \<Rightarrow> 's Engine" where
  "Register_eng jobType h e = e\<lparr>handlers := Register jobType h (handlers e)\<rparr>"

definition JobTypes_eng :: "'s Engine \<Rightarrow> string list" where
  "JobTypes_eng e = JobTypes (handlers e)"

section \<open>Enqueueing\<close>

definition resolve_mode :: "'s Engine \<Rightarrow> EnqueueRequest \<Rightarrow> EnqueueRequest" where
  "resolve_mode e req =
    (let req =
       (if OrderingMode_req req = [] then
          (let req = (case orderingStrategy e of
                        Some s \<Rightarrow> req\<lparr>OrderingMode_req := s req\<rparr> | None \<Rightarrow> req)
           in if OrderingMode_req req = [] then req\<lparr>OrderingMode_req := orderingMode_eng e\<rparr> else req)
        else req)
     in if OrderingMode_req req = [] then req\<lparr>OrderingMode_req := OrderingModeStrict\<rparr> else req)"

definition Enqueue_eng ::
  "'s Engine \<Rightarrow> ctx \<Rightarrow> time \<Rightarrow> uuid \<Rightarrow> EnqueueRequest \<Rightarrow> 's \<Rightarrow> (gerror + job) \<times> 's" where
  "Enqueue_eng e c now jid req s =
    (if Type_req req = [] then (Inl (Message ''job type required''), s)
     else if ChainID_req req = [] then (Inl (Message ''chain_id required''), s)
     else Enqueue_r (repo_eng e) now jid (InjectOTelTraceContext c (resolve_mode e req)) s)"

definition EnqueueBatch_eng ::
  "'s Engine \<Rightarrow> ctx \<Rightarrow> ((time \<times> uuid) \<times> EnqueueRequest) list \<Rightarrow> 's \<Rightarrow>
   (gerror + job list) \<times> 's" where
  "EnqueueBatch_eng e c reqs s =
    EnqueueBatch_r (repo_eng e)
      (map (\<lambda>(k, req). (k, InjectOTelTraceContext c (resolve_mode e req))) reqs) s"

definition Schedule_eng ::
  "'s Engine \<Rightarrow> ctx \<Rightarrow> time \<Rightarrow> uuid \<Rightarrow> EnqueueRequest \<Rightarrow> time \<Rightarrow> 's \<Rightarrow> (gerror + job) \<times> 's" where
  "Schedule_eng e c now jid req runAt s =
    Enqueue_eng e c now jid (req\<lparr>AvailableAt_req := Some runAt\<rparr>) s"

definition EnqueueDelayed_eng ::
  "'s Engine \<Rightarrow> ctx \<Rightarrow> time \<Rightarrow> time \<Rightarrow> uuid \<Rightarrow> EnqueueRequest \<Rightarrow> duration \<Rightarrow> 's \<Rightarrow> (gerror + job) \<times> 's"
  where
  "EnqueueDelayed_eng e c clock_now now jid req delay s =
    (let runAt = clock_now + delay
     in Enqueue_eng e c now jid (req\<lparr>AvailableAt_req := Some runAt\<rparr>) s)"

text \<open>\<open>BatchEnqueueParallel\<close> (src/rill_helpers.go): every request is checked (in parallel, so which
  failing request is reported first is open; here the first in order), then one batch.\<close>

definition validate_req :: "int \<Rightarrow> EnqueueRequest \<Rightarrow> gerror + EnqueueRequest" where
  "validate_req idx req =
    (if ChainID_req req = [] then Inl (Message (''chain_id required at index '' @ format_int idx))
     else if Type_req req = [] then Inl (Message (''type required at index '' @ format_int idx))
     else case (if Payload_req req \<noteq> Any_nil then json_Marshal (Payload_req req) else Inr []) of
       Inl err \<Rightarrow> Inl (Errorf1 (''invalid payload at '' @ format_int idx @ '': '') err [])
     | Inr _ \<Rightarrow>
         Inr (if MaxAttempts_req req = 0 then req\<lparr>MaxAttempts_req := 5\<rparr> else req))"

fun validate_all ::
  "int \<Rightarrow> ((time \<times> uuid) \<times> EnqueueRequest) list \<Rightarrow> gerror + ((time \<times> uuid) \<times> EnqueueRequest) list" where
  "validate_all idx [] = Inr []"
| "validate_all idx ((k, req) # reqs) =
    (case validate_req idx req of
       Inl err \<Rightarrow> Inl err
     | Inr req' \<Rightarrow>
         (case validate_all (idx + 1) reqs of Inl err \<Rightarrow> Inl err | Inr rest \<Rightarrow> Inr ((k, req') # rest)))"

definition BatchEnqueueParallel ::
  "'s Engine \<Rightarrow> ctx \<Rightarrow> ((time \<times> uuid) \<times> EnqueueRequest) list \<Rightarrow> 's \<Rightarrow>
   (gerror + job list) \<times> 's" where
  "BatchEnqueueParallel e c reqs s =
    (case validate_all 0 reqs of
       Inl err \<Rightarrow> (Inl err, s)
     | Inr validated \<Rightarrow> EnqueueBatch_eng e c validated s)"

definition AggregateChainStats :: "job list \<Rightarrow> (string \<times> int) list" where
  "AggregateChainStats js =
    fold (\<lambda>j counts. AList.update (ChainID j)
        ((case lookup counts (ChainID j) of None \<Rightarrow> 0 | Some n \<Rightarrow> n) + 1) counts) js []"

section \<open>A run\<close>

record 's run =
  db :: 's
  activeLeases :: int
  notifyCh :: "string list"
  events :: "event list"

record readings =
  clock :: "nat \<Rightarrow> time"
  draw :: nat
  conversion :: duration
  stack :: string

definition emit :: "event list \<Rightarrow> 's run \<Rightarrow> 's run" where
  "emit es st = st\<lparr>events := events st @ es\<rparr>"

text \<open>A send on the wake-up channel (capacity 100) that gives up when it is full.\<close>

definition NotifyChain :: "string \<Rightarrow> 's run \<Rightarrow> 's run" where
  "NotifyChain chainID st =
    (if length (notifyCh st) < 100 then st\<lparr>notifyCh := notifyCh st @ [chainID]\<rparr> else st)"

section \<open>Executing a claimed job\<close>

definition backoff_delay :: "'s Engine \<Rightarrow> readings \<Rightarrow> int \<Rightarrow> duration" where
  "backoff_delay e rd attempt =
    (case Backoff (retryPol e) (draw rd) attempt of Some d \<Rightarrow> d | None \<Rightarrow> conversion rd)"

text \<open>The error of an execution: what the handler returned, or what its panic is turned into.\<close>

definition exec_error :: "'s Engine \<Rightarrow> readings \<Rightarrow> ctx \<Rightarrow> job \<Rightarrow> call_result \<Rightarrow> gerror option" where
  "exec_error e rd c j res =
    (case res of
       Returned err \<Rightarrow> err
     | Panicked v \<Rightarrow>
         (case panicHandler e of
            Some ph \<Rightarrow> ph c j v (stack rd)
          | None \<Rightarrow>
              if retryOnPanic e then Retryable (Some (PanicError v (stack rd)))
              else NonRetryable (Some (PanicError v (stack rd)))))"

definition execute ::
  "'s Engine \<Rightarrow> readings \<Rightarrow> ctx \<Rightarrow> 's handler \<Rightarrow> job \<Rightarrow> 's run \<Rightarrow> gerror option \<times> 's run" where
  "execute e rd c h j st =
    (let (res, s) = h c j (db st); dur = clock rd 3 - clock rd 2
     in (exec_error e rd c j res,
         emit (ObserveExecDuration (Type j) dur #
             (case res of Returned _ \<Rightarrow> []
              | Panicked _ \<Rightarrow> [IncPanics (Type j), LogError ''job handler panicked'']))
           (st\<lparr>db := s\<rparr>)))"

definition finish_success :: "'s Engine \<Rightarrow> readings \<Rightarrow> string \<Rightarrow> job \<Rightarrow> 's run \<Rightarrow> 's run" where
  "finish_success e rd workerName j st =
    (case Complete_r (repo_eng e) (clock rd 4) (ID j) workerName (LeaseGeneration j) (db st) of
       (Some err, s) \<Rightarrow>
         (if err = ErrLeaseConflict
          then emit [LogError ''fencing violation on complete'', IncClaimConflicts] (st\<lparr>db := s\<rparr>)
          else emit [LogError ''complete failed''] (st\<lparr>db := s\<rparr>))
     | (None, s) \<Rightarrow>
         NotifyChain (ChainID j)
           (emit [IncCompleted (Type j), LogInfo ''job completed''] (st\<lparr>db := s\<rparr>)))"

definition finish_terminal ::
  "'s Engine \<Rightarrow> readings \<Rightarrow> string \<Rightarrow> job \<Rightarrow> gerror \<Rightarrow> 's run \<Rightarrow> 's run" where
  "finish_terminal e rd workerName j err st =
    (let mode = OrderingMode j;
         mode = (if mode = [] then orderingMode_eng e else mode);
         mode = (if mode = [] then OrderingModeStrict else mode);
         s = snd (Fail_r (repo_eng e) (clock rd 5) (ID j) workerName (LeaseGeneration j)
                    (Error err) True (db st));
         st = emit (IncFailed (Type j) # OnJobFailed_fn (eventListener e) j err) (st\<lparr>db := s\<rparr>);
         st = (if mode = OrderingModeStrict
               then emit (IncBlockedChain # OnChainBlocked_fn (eventListener e) (ChainID j) j) st
               else st);
         st = emit [LogError ''job failed terminally''] st
     in if mode = OrderingModeSkipOnFailure \<or> mode = OrderingModeDeadLetterAndContinue
        then
          (let s = snd (PromoteNext_r (repo_eng e) (clock rd 6) (ChainID j) (Sequence j) (db st))
           in NotifyChain (ChainID j) (st\<lparr>db := s\<rparr>))
        else st)"

definition finish_retry ::
  "'s Engine \<Rightarrow> readings \<Rightarrow> string \<Rightarrow> job \<Rightarrow> gerror \<Rightarrow> 's run \<Rightarrow> 's run" where
  "finish_retry e rd workerName j err st =
    (let next = clock rd 7 + backoff_delay e rd (Attempt j);
         s = snd (Retry_r (repo_eng e) (clock rd 8) (ID j) workerName (LeaseGeneration j)
                    (Error err) next (db st))
     in emit [IncRetry (Type j), LogInfo ''job retrying''] (st\<lparr>db := s\<rparr>))"

definition gives_up :: "'s Engine \<Rightarrow> job \<Rightarrow> gerror \<Rightarrow> bool" where
  "gives_up e j err \<longleftrightarrow>
     IsNonRetryable (Some err) \<or> Attempt j \<ge> MaxAttempts j \<or> \<not> ShouldRetry (retryPol e) (Attempt j)"

definition finish_job ::
  "'s Engine \<Rightarrow> readings \<Rightarrow> string \<Rightarrow> job \<Rightarrow> gerror option \<Rightarrow> 's run \<Rightarrow> 's run" where
  "finish_job e rd workerName j execErr st =
    (case execErr of
       None \<Rightarrow> finish_success e rd workerName j st
     | Some err \<Rightarrow>
         (let st = (if errorsIsCancel execErr
                    then st\<lparr>db := snd (RequestCancel_r (repo_eng e) (clock rd 4) (ID j) (db st))\<rparr>
                    else st)
          in if gives_up e j err then finish_terminal e rd workerName j err st
             else finish_retry e rd workerName j err st))"

text \<open>The context the handler gets: the job's trace id (a deadline only affects the handler).\<close>

definition tryClaimAndExecute ::
  "'s Engine \<Rightarrow> readings \<Rightarrow> string \<Rightarrow> 's run \<Rightarrow> 's run" where
  "tryClaimAndExecute e rd workerName st =
    (case Claim_r (repo_eng e) (clock rd 0) workerName (LeaseDuration (leaseMgr e)) (db st) of
       (Inl err, s) \<Rightarrow> emit (if err \<noteq> ErrNotFound then [LogDebug ''claim error''] else []) (st\<lparr>db := s\<rparr>)
     | (Inr j, s) \<Rightarrow>
         (let active = activeLeases st + 1;
              st = emit [SetActiveLeases active, IncClaimed,
                     ObserveQueueDelay (Type j) (clock rd 1 - CreatedAt j)]
                     (st\<lparr>db := s, activeLeases := active\<rparr>);
              st =
                (case MustGet (handlers e) (Type j) of
                   Inl _ \<Rightarrow>
                     emit [IncFailed (Type j)]
                       (st\<lparr>db := snd (Fail_r (repo_eng e) (clock rd 5) (ID j) workerName
                          (LeaseGeneration j) (''handler not found: '' @ Type j) True (db st))\<rparr>)
                 | Inr h \<Rightarrow>
                     (let (execErr, st) = execute e rd (WithTraceID Background (TraceID j)) h j st
                      in finish_job e rd workerName j execErr st));
              rem = activeLeases st - 1
          in emit [SetActiveLeases rem] (st\<lparr>activeLeases := rem\<rparr>)))"

section \<open>The loops\<close>

text \<open>One heartbeat, and whether the loop goes on.\<close>

definition heartbeat_tick :: "'s Engine \<Rightarrow> time \<Rightarrow> job \<Rightarrow> 's run \<Rightarrow> bool \<times> 's run" where
  "heartbeat_tick e now j st =
    (case Heartbeat_r (repo_eng e) now (ID j) (WorkerID j) (LeaseGeneration j)
            (LeaseDuration (leaseMgr e)) (db st) of
       (Some err, s) \<Rightarrow> (False, emit [LogDebug ''heartbeat failed''] (st\<lparr>db := s\<rparr>))
     | (None, s) \<Rightarrow> (True, st\<lparr>db := s\<rparr>))"

text \<open>The ticks at the given times, until the handler's context ends or a heartbeat fails.\<close>

fun heartbeatLoop :: "'s Engine \<Rightarrow> time list \<Rightarrow> job \<Rightarrow> 's run \<Rightarrow> 's run" where
  "heartbeatLoop e [] j st = st"
| "heartbeatLoop e (now # ticks) j st =
    (case heartbeat_tick e now j st of
       (True, st) \<Rightarrow> heartbeatLoop e ticks j st
     | (False, st) \<Rightarrow> st)"

fun notify_recovered :: "nat \<Rightarrow> 's run \<Rightarrow> 's run" where
  "notify_recovered 0 st = st"
| "notify_recovered (Suc n) st = notify_recovered n (NotifyChain ''recovered'' st)"

definition recovery_tick :: "'s Engine \<Rightarrow> readings \<Rightarrow> 's run \<Rightarrow> 's run" where
  "recovery_tick e rd st =
    (let st =
       (if dlqThreshold e > 0 then
          (case CountDLQ_r (repo_eng e) (db st) of
             Inr n \<Rightarrow>
               if n \<ge> dlqThreshold e
               then emit (OnDLQThresholdExceeded_fn (eventListener e) n) st else st
           | Inl _ \<Rightarrow> st)
        else st)
     in case RecoverStale_r (repo_eng e) (clock rd 0) 100 (Some (backoff_delay e rd)) (db st) of
          (Inl err, s) \<Rightarrow> emit [LogError ''recovery error''] (st\<lparr>db := s\<rparr>)
        | (Inr n, s) \<Rightarrow>
            (if n > 0
             then notify_recovered (nat n)
               (emit [IncStaleRecovered n, LogInfo ''stale jobs recovered''] (st\<lparr>db := s\<rparr>))
             else st\<lparr>db := s\<rparr>))"

text \<open>\<open>time.NewTicker\<close> and \<open>rand.Int63n\<close> panic on an argument that is not positive; the loop's
  \<open>recover\<close> then ends the goroutine. \<open>rnd\<close> is the draw.\<close>

definition NewTicker :: "duration \<Rightarrow> duration outcome" where
  "NewTicker d = (if d \<le> 0 then Panics ''non-positive interval for NewTicker'' else Returns d)"

definition next_poll :: "'s Engine \<Rightarrow> nat \<Rightarrow> duration outcome" where
  "next_poll e rnd =
    (let n = quot (pollInterval e) 2
     in if n \<le> 0 then Panics ''invalid argument to Int63n''
        else Returns (pollInterval e + int rnd mod n))"

datatype wakeup = Tick nat | Notified

text \<open>One pass of \<open>workerLoop\<close>: a tick or a wake-up taken from the channel. A panic ends the worker
  (\<open>None\<close>), which is logged.\<close>

definition worker_step ::
  "'s Engine \<Rightarrow> readings \<Rightarrow> nat \<Rightarrow> wakeup \<Rightarrow> 's run \<Rightarrow> 's run option \<times> event list" where
  "worker_step e rd idx w st =
    (let workerName = workerID_eng e @ ''-'' @ format_nat idx
     in case w of
          Tick rnd \<Rightarrow>
            (case next_poll e rnd of
               Panics msg \<Rightarrow> (None, [LogError ''workerLoop recovered from panic''])
             | Returns _ \<Rightarrow> (Some (tryClaimAndExecute e rd workerName st), []))
        | Notified \<Rightarrow>
            (Some (tryClaimAndExecute e rd workerName
               (emit [LogDebug ''notify wakeup''] (st\<lparr>notifyCh := tl (notifyCh st)\<rparr>))), []))"

end
