(* ===== verification/Engine_Props.thy ===== *)
theory Engine_Props
  imports Engine
begin

text \<open>
  What the engine guarantees on every store that satisfies the laws of \<open>lease_store\<close>, and its
  properties on the in-memory repository, obtained through the interpretation \<open>mem\<close>.
\<close>

section \<open>Effects that leave the store alone\<close>

lemma emit_sel [simp]:
  "db (emit es st) = db st" "activeLeases (emit es st) = activeLeases st"
  "notifyCh (emit es st) = notifyCh st" "events (emit es st) = events st @ es"
  by (simp_all add: emit_def)

lemma NotifyChain_sel [simp]:
  "db (NotifyChain c st) = db st" "activeLeases (NotifyChain c st) = activeLeases st"
  "events (NotifyChain c st) = events st"
  by (simp_all add: NotifyChain_def)

lemma finish_active [simp]:
  "activeLeases (finish_success e rd w j st) = activeLeases st"
  "activeLeases (finish_terminal e rd w j err st) = activeLeases st"
  "activeLeases (finish_retry e rd w j err st) = activeLeases st"
  "activeLeases (finish_job e rd w j execErr st) = activeLeases st"
proof -
  show a: "activeLeases (finish_success e rd w j st) = activeLeases st"
    for st :: "'a run"
    by (simp add: finish_success_def split: prod.splits option.splits)
  show b: "activeLeases (finish_terminal e rd w j err st) = activeLeases st"
    for err and st :: "'a run"
    by (simp add: finish_terminal_def Let_def)
  show c: "activeLeases (finish_retry e rd w j err st) = activeLeases st"
    for err and st :: "'a run"
    by (simp add: finish_retry_def Let_def)
  show "activeLeases (finish_job e rd w j execErr st) = activeLeases st"
    by (simp add: finish_job_def a b c Let_def split: option.splits)
qed

section \<open>Finishing an execution\<close>

text \<open>What the end of an execution leaves of the job, by the error it ended with.\<close>

definition outcome_of :: "'s Engine \<Rightarrow> readings \<Rightarrow> job \<Rightarrow> gerror option \<Rightarrow> job \<Rightarrow> bool" where
  "outcome_of e rd j execErr x \<longleftrightarrow>
     (case execErr of
        None \<Rightarrow> Status x = StateCompleted
      | Some err \<Rightarrow>
          if gives_up e j err
          then (Status x = StateFailed \<or> Status x = StateDeadLettered) \<and> LastError x = Error err
          else Status x = StateRetrying \<and>
               AvailableAt x = clock rd 7 + backoff_delay e rd (Attempt j))"

text \<open>The mode the engine resolves for a failed job.\<close>

definition failure_mode :: "'s Engine \<Rightarrow> job \<Rightarrow> string" where
  "failure_mode e j =
    (let mode = (if OrderingMode j = [] then orderingMode_eng e else OrderingMode j)
     in if mode = [] then OrderingModeStrict else mode)"

lemma db_finish_terminal:
  "db (finish_terminal e rd w j err st) =
   (let s = snd (Fail_r (repo_eng e) (clock rd 5) (ID j) w (LeaseGeneration j) (Error err) True (db st))
    in if continues_on_failure (failure_mode e j)
       then snd (PromoteNext_r (repo_eng e) (clock rd 6) (ChainID j) (Sequence j) s) else s)"
  by (simp add: finish_terminal_def failure_mode_def continues_on_failure_def Let_def)

context lease_store
begin

lemma success_held:
  assumes "repo_eng e = R" and "ok (db st)" and "at (db st) (ID j) = Some x"
    and "held x w (LeaseGeneration j)"
  shows "\<exists>x'. ok (db (finish_success e rd w j st)) \<and>
    at (db (finish_success e rd w j st)) (ID j) = Some x' \<and> same_identity x x' \<and>
    Status x' = StateCompleted"
  using complete_held [OF assms(2-4), of "clock rd 4"] assms(1) by (auto simp: finish_success_def)

lemma terminal_held:
  assumes "repo_eng e = R" and "ok (db st)" and "at (db st) (ID j) = Some x"
    and "held x w (LeaseGeneration j)"
  shows "\<exists>x'. ok (db (finish_terminal e rd w j err st)) \<and>
    at (db (finish_terminal e rd w j err st)) (ID j) = Some x' \<and> same_identity x x' \<and>
    (Status x' = StateFailed \<or> Status x' = StateDeadLettered) \<and> LastError x' = Error err"
proof -
  obtain s1 x1 where f: "Fail_r R (clock rd 5) (ID j) w (LeaseGeneration j) (Error err) True (db st) =
      (None, s1)" "ok s1" "at s1 (ID j) = Some x1" "same_identity x x1" "LastError x1 = Error err"
      "Status x1 = StateFailed \<or> Status x1 = StateDeadLettered"
    using fail_held [OF assms(2-4)] by blast
  then have nb: "Status x1 \<noteq> StateBlocked" by auto
  obtain s2 where p: "PromoteNext_r R (clock rd 6) (ChainID j) (Sequence j) s1 = (None, s2)" "ok s2"
      "at s2 (ID j) = Some x1"
    using promote_keeps [OF f(2,3)] nb by blast
  show ?thesis using f p by (auto simp: db_finish_terminal assms(1) Let_def)
qed

text \<open>In the two modes that continue on failure the blocked successor becomes pending.\<close>

lemma terminal_promotes:
  assumes "repo_eng e = R" and "ok (db st)" and "at (db st) (ID j) = Some x"
    and "held x w (LeaseGeneration j)"
    and "at (db st) k = Some s" and "k \<noteq> ID j" and "ChainID s = ChainID j"
    and "Sequence s = Sequence j + 1" and "Status s = StateBlocked"
  shows "\<exists>s'. at (db (finish_terminal e rd w j err st)) k = Some s' \<and>
    Status s' = (if continues_on_failure (failure_mode e j) then StatePending else StateBlocked)"
proof -
  obtain s1 x1 where f: "Fail_r R (clock rd 5) (ID j) w (LeaseGeneration j) (Error err) True (db st) =
      (None, s1)" "ok s1" "at s1 k = Some s"
    using fail_held [OF assms(2-4)] assms(5,6) by metis
  obtain s2 s' where p: "PromoteNext_r R (clock rd 6) (ChainID j) (Sequence j) s1 = (None, s2)"
      "at s2 k = Some s'" "Status s' = StatePending"
    using promote_keeps [OF f(2,3)] assms(7-9) by fastforce
  show ?thesis using f p assms(9) by (auto simp: db_finish_terminal assms(1) Let_def)
qed

lemma retry_held_job:
  assumes "repo_eng e = R" and "ok (db st)" and "at (db st) (ID j) = Some x"
    and "held x w (LeaseGeneration j)"
  shows "\<exists>x'. ok (db (finish_retry e rd w j err st)) \<and>
    at (db (finish_retry e rd w j err st)) (ID j) = Some x' \<and> same_identity x x' \<and>
    Status x' = StateRetrying \<and> AvailableAt x' = clock rd 7 + backoff_delay e rd (Attempt j)"
  using retry_held [OF assms(2-4), of "clock rd 8" "Error err"
      "clock rd 7 + backoff_delay e rd (Attempt j)"] assms(1)
  by (auto simp: finish_retry_def Let_def)

text \<open>The cancel request before a failure is recorded must leave the worker its lease.\<close>

definition cancel_ok :: "'s Engine \<Rightarrow> readings \<Rightarrow> string \<Rightarrow> job \<Rightarrow> 's \<Rightarrow> job \<Rightarrow> bool" where
  "cancel_ok e rd w j s x \<longleftrightarrow>
     (\<exists>x1. ok (snd (RequestCancel_r R (clock rd 4) (ID j) s)) \<and>
        at (snd (RequestCancel_r R (clock rd 4) (ID j) s)) (ID j) = Some x1 \<and>
        same_identity x x1 \<and> held x1 w (LeaseGeneration j))"

lemma finish_held:
  assumes e: "repo_eng e = R" and "ok (db st)" and "at (db st) (ID j) = Some x"
    and "held x w (LeaseGeneration j)"
    and cancel: "errorsIsCancel execErr \<Longrightarrow> cancel_ok e rd w j (db st) x"
  shows "\<exists>x'. ok (db (finish_job e rd w j execErr st)) \<and>
    at (db (finish_job e rd w j execErr st)) (ID j) = Some x' \<and> same_identity x x' \<and>
    outcome_of e rd j execErr x'"
proof (cases execErr)
  case None
  then show ?thesis using success_held [OF assms(1-4)] by (simp add: finish_job_def outcome_of_def)
next
  case (Some err)
  define st1 where "st1 = (if errorsIsCancel execErr
      then st\<lparr>db := snd (RequestCancel_r (repo_eng e) (clock rd 4) (ID j) (db st))\<rparr> else st)"
  obtain x1 where x1: "ok (db st1)" "at (db st1) (ID j) = Some x1" "same_identity x x1"
      "held x1 w (LeaseGeneration j)"
    using cancel assms by (cases "errorsIsCancel execErr") (auto simp: st1_def cancel_ok_def)
  have fin: "finish_job e rd w j execErr st =
      (if gives_up e j err then finish_terminal e rd w j err st1 else finish_retry e rd w j err st1)"
    by (simp add: finish_job_def Some st1_def)
  show ?thesis
    using terminal_held [OF e x1(1,2,4), of rd err] retry_held_job [OF e x1(1,2,4), of rd err]
      same_identity_trans [OF x1(3)]
    unfolding fin by (cases "gives_up e j err") (auto simp: outcome_of_def Some)
qed

text \<open>A worker whose lease was taken over leaves the store alone when its handler succeeded.\<close>

lemma success_fenced:
  assumes "repo_eng e = R" and "ok (db st)" and "at (db st) (ID j) = Some x"
    and "\<not> held x w (LeaseGeneration j)"
  shows "db (finish_success e rd w j st) = db st \<and>
    events (finish_success e rd w j st) =
      events st @ [LogError ''fencing violation on complete'', IncClaimConflicts]"
  using fenced [OF assms(2-4)] assms(1) by (simp add: finish_success_def)

text \<open>One call of \<open>tryClaimAndExecute\<close> that claims a job with a handler.\<close>

lemma worker_outcome:
  assumes e: "repo_eng e = R" and ok: "ok (db st)"
    and c: "Claim_r R (clock rd 0) w (LeaseDuration (leaseMgr e)) (db st) = (Inr j, s1)"
    and h: "MustGet (handlers e) (Type j) = Inr h"
    and run: "h (WithTraceID Background (TraceID j)) j s1 = (res, s2)"
    and s2: "ok s2" "at s2 (ID j) = Some x" "held x w (LeaseGeneration j)"
    and cancel: "errorsIsCancel (exec_error e rd (WithTraceID Background (TraceID j)) j res) \<Longrightarrow>
      cancel_ok e rd w j s2 x"
  shows "\<exists>x'. ok (db (tryClaimAndExecute e rd w st)) \<and>
    at (db (tryClaimAndExecute e rd w st)) (ID j) = Some x' \<and> same_identity x x' \<and>
    outcome_of e rd j (exec_error e rd (WithTraceID Background (TraceID j)) j res) x' \<and>
    activeLeases (tryClaimAndExecute e rd w st) = activeLeases st"
proof -
  let ?ctx = "WithTraceID Background (TraceID j)"
  let ?err = "exec_error e rd ?ctx j res"
  define st1 where "st1 = emit [SetActiveLeases (activeLeases st + 1), IncClaimed,
      ObserveQueueDelay (Type j) (clock rd 1 - CreatedAt j)]
      (st\<lparr>db := s1, activeLeases := activeLeases st + 1\<rparr>)"
  define st2 where "st2 = snd (execute e rd ?ctx h j st1)"
  have s1: "db st1 = s1" "activeLeases st1 = activeLeases st + 1" by (simp_all add: st1_def)
  have ex: "execute e rd ?ctx h j st1 = (?err, st2)"
    using run s1 by (simp add: st2_def execute_def)
  have d2: "db st2 = s2" "activeLeases st2 = activeLeases st + 1"
    using run s1 by (simp_all add: st2_def execute_def)
  have t: "db (tryClaimAndExecute e rd w st) = db (finish_job e rd w j ?err st2)"
      "activeLeases (tryClaimAndExecute e rd w st) = activeLeases st"
    using c h ex d2 by (simp_all add: tryClaimAndExecute_def e Let_def st1_def [symmetric] del: One_nat_def)
  show ?thesis using finish_held [OF e, of st2 j x w ?err rd] s2 cancel by (simp add: t d2)
qed

end

context cancel_safe_store
begin

lemma always_cancel_ok:
  assumes "ok s" and "at s (ID j) = Some x" and "held x w (LeaseGeneration j)"
  shows "cancel_ok e rd w j s x"
  using cancel_keeps [OF assms, of "clock rd 4"] by (auto simp: cancel_ok_def)

end

section \<open>Properties\<close>

text \<open>An engine on the in-memory store with one handler, and a run, for closed instances.\<close>

definition demo_handler :: "call_result \<Rightarrow> repo handler" where
  "demo_handler res = (\<lambda>c j s. (res, s))"

definition demo_engine :: "call_result \<Rightarrow> repo Engine" where
  "demo_engine res = Register_eng ''task'' (demo_handler res)
     (New_engine (memory_repository format_nat) ''w'' [])"

definition demo_readings :: readings where
  "demo_readings = \<lparr>clock = (\<lambda>k. 10 + int k), draw = 0, conversion = 0, stack = ''trace''\<rparr>"

definition demo_run :: "repo run" where
  "demo_run = \<lparr>db = two_jobs, activeLeases = 0, notifyCh = [], events = []\<rparr>"

lemma demo_engine_sel [simp]:
  "repo_eng (demo_engine res) = memory_repository format_nat"
  "MustGet (handlers (demo_engine res)) ''task'' = Inr (demo_handler res)"
  by (simp_all add: demo_engine_def Register_eng_def New_engine_def MustGet_Register Let_def
      DefaultPolicy_def)

lemma demo_claim:
  fixes res
  defines "c \<equiv> Claim_mem (clock demo_readings 0) ''w-0'' (LeaseDuration (leaseMgr (demo_engine res)))
    (db demo_run)"
  shows "\<exists>j s1. c = (Inr j, s1) \<and> ID j = 7 \<and> Type j = ''task'' \<and> repo_wf s1 \<and>
    jobAt s1 7 = Some j \<and> holds_lease j ''w-0'' (LeaseGeneration j) \<and> Attempt j = 1 \<and>
    MaxAttempts j = 5"
proof -
  have l: "LeaseDuration (leaseMgr (demo_engine res)) = 60 * Second"
    by (simp add: demo_engine_def Register_eng_def New_engine_def Let_def DefaultPolicy_def
        New_lease_LeaseDuration Second_def)
  let ?c = "Claim_mem 10 ''w-0'' (60 * Second) two_jobs"
  have c: "c = ?c" by (simp add: c_def l demo_readings_def demo_run_def)
  have e: "?c = (Inr (projr (fst ?c)), snd ?c)" "ID (projr (fst ?c)) = 7"
    "Type (projr (fst ?c)) = ''task''" "Attempt (projr (fst ?c)) = 1"
    "MaxAttempts (projr (fst ?c)) = 5" by code_simp+
  from mem_claim_some [OF repo_ok_wf [OF two_jobs_ok] e(1)] e show ?thesis
    by (intro exI [of _ "projr (fst ?c)"] exI [of _ "snd ?c"]) (simp add: c holds_lease_def)
qed

text \<open>C9: what a worker makes of a job, on the in-memory repository. When \<open>tryClaimAndExecute\<close> claims a job, its handler ends (by
  returning or panicking) and the worker still has the lease, then the job is completed if there
  was no error; failed or dead-lettered with the error's text if the worker gives up (a
  non-retryable error, or no attempts left); and otherwise waits for its next attempt, due after
  the backoff. The count of active leases is as before. A cancellation request the worker makes on
  the way is overwritten.\<close>

theorem engine_worker_outcome:
  assumes "repo_eng e = memory_repository us" and "repo_wf (db st)"
    and "Claim_mem (clock rd 0) w (LeaseDuration (leaseMgr e)) (db st) = (Inr j, s1)"
    and "MustGet (handlers e) (Type j) = Inr h"
    and "h (WithTraceID Background (TraceID j)) j s1 = (res, s2)"
    and "repo_wf s2" and "jobAt s2 (ID j) = Some x" and "holds_lease x w (LeaseGeneration j)"
  shows "\<exists>x'. jobAt (db (tryClaimAndExecute e rd w st)) (ID j) = Some x' \<and> same_identity x x' \<and>
    repo_wf (db (tryClaimAndExecute e rd w st)) \<and>
    activeLeases (tryClaimAndExecute e rd w st) = activeLeases st \<and>
    (case exec_error e rd (WithTraceID Background (TraceID j)) j res of
       None \<Rightarrow> Status x' = StateCompleted
     | Some err \<Rightarrow>
         if gives_up e j err
         then (Status x' = StateFailed \<or> Status x' = StateDeadLettered) \<and> LastError x' = Error err
         else Status x' = StateRetrying \<and>
              AvailableAt x' = clock rd 7 + backoff_delay e rd (Attempt j))"
  using mem.worker_outcome [OF assms(1,2) _ assms(4-8) mem.always_cancel_ok [OF assms(6-8)]] assms(3)
  unfolding outcome_of_def by fastforce

theorem engine_worker_outcome_witness:
  "\<exists>x'. jobAt (db (tryClaimAndExecute (demo_engine (Returned None)) demo_readings ''w-0'' demo_run)) 7 =
     Some x' \<and> Status x' = StateCompleted"
proof -
  let ?e = "demo_engine (Returned None)"
  obtain j s1 where c: "Claim_mem (clock demo_readings 0) ''w-0'' (LeaseDuration (leaseMgr ?e))
        (db demo_run) = (Inr j, s1)" "ID j = 7" "Type j = ''task''" "repo_wf s1" "jobAt s1 7 = Some j"
      "holds_lease j ''w-0'' (LeaseGeneration j)"
    using demo_claim by blast
  have wf: "repo_wf (db demo_run)" using repo_ok_wf [OF two_jobs_ok] by (simp add: demo_run_def)
  have h: "MustGet (handlers ?e) (Type j) = Inr (demo_handler (Returned None))" by (simp add: c(3))
  have run: "demo_handler (Returned None) (WithTraceID Background (TraceID j)) j s1 = (Returned None, s1)"
    by (simp add: demo_handler_def)
  have at: "jobAt s1 (ID j) = Some j" using c by simp
  from engine_worker_outcome [OF demo_engine_sel(1) wf c(1) h run c(4) at c(6)] show ?thesis
    by (auto simp: exec_error_def c(2))
qed

text \<open>a terminal failure opens the chain exactly in the two modes that continue on failure: the
  blocked successor becomes pending there, and in strict mode stays blocked.\<close>

theorem engine_failure_opens_chain:
  assumes "repo_eng e = memory_repository us" and "repo_wf (db st)"
    and "jobAt (db st) (ID j) = Some x" and "holds_lease x w (LeaseGeneration j)"
    and "jobAt (db st) k = Some s" and "k \<noteq> ID j" and "ChainID s = ChainID j"
    and "Sequence s = Sequence j + 1" and "Status s = StateBlocked"
  shows "\<exists>s'. jobAt (db (finish_terminal e rd w j err st)) k = Some s' \<and>
    Status s' =
      (if OrderingMode j = OrderingModeSkipOnFailure \<or>
          OrderingMode j = OrderingModeDeadLetterAndContinue \<or>
          OrderingMode j = [] \<and> continues_on_failure (orderingMode_eng e)
       then StatePending else StateBlocked)"
  using mem.terminal_promotes [OF assms(1-9), of rd err]
  by (auto simp: failure_mode_def continues_on_failure_def Let_def split: if_splits)

theorem engine_failure_opens_chain_witness:
  "\<exists>s'. jobAt (db (finish_terminal (demo_engine (Returned None)) demo_readings ''w''
      (job_or_zero two_jobs_claimed 7) (Message ''boom'') (demo_run\<lparr>db := two_jobs_claimed\<rparr>))) 8 =
      Some s' \<and> Status s' = StateBlocked"
proof -
  let ?r = two_jobs_claimed
  let ?st = "demo_run\<lparr>db := ?r\<rparr>"
  let ?j = "job_or_zero ?r 7"
  have e: "ID ?j = 7" "jobAt ?r 7 = Some ?j" "WorkerID ?j = ''w''" "LeaseGeneration ?j = 1"
    "jobAt ?r 8 = Some (job_or_zero ?r 8)" "ChainID (job_or_zero ?r 8) = ChainID ?j"
    "Sequence (job_or_zero ?r 8) = Sequence ?j + 1" "Status (job_or_zero ?r 8) = StateBlocked"
    "OrderingMode ?j = OrderingModeStrict" by code_simp+
  have a: "repo_wf (db ?st)" "jobAt (db ?st) (ID ?j) = Some ?j" "holds_lease ?j ''w'' (LeaseGeneration ?j)"
    "jobAt (db ?st) 8 = Some (job_or_zero ?r 8)" "8 \<noteq> ID ?j"
    using repo_ok_wf [OF two_jobs_claimed_ok] e by (simp_all add: holds_lease_def)
  from engine_failure_opens_chain [OF demo_engine_sel(1) a(1-5) e(6-8),
      of "Returned None" demo_readings "Message ''boom''"] e(9)
  show ?thesis by simp
qed

text \<open>a worker that lost its lease while the handler ran cannot complete the job: the store is
  left as it is, and the conflict is logged and counted.\<close>

theorem engine_fenced_success:
  assumes "repo_eng e = memory_repository us" and "repo_wf (db st)"
    and "jobAt (db st) (ID j) = Some x" and "\<not> holds_lease x w (LeaseGeneration j)"
  shows "db (finish_job e rd w j None st) = db st \<and>
    events (finish_job e rd w j None st) =
      events st @ [LogError ''fencing violation on complete'', IncClaimConflicts]"
  using mem.success_fenced [OF assms, of rd] by (simp add: finish_job_def)

theorem engine_fenced_success_witness:
  "db (finish_job (demo_engine (Returned None)) demo_readings ''other''
     (job_or_zero two_jobs_claimed 7) None (demo_run\<lparr>db := two_jobs_claimed\<rparr>)) = two_jobs_claimed"
proof -
  let ?j = "job_or_zero two_jobs_claimed 7"
  let ?st = "demo_run\<lparr>db := two_jobs_claimed\<rparr>"
  have e: "ID ?j = 7" "jobAt two_jobs_claimed 7 = Some ?j" "WorkerID ?j = ''w''" by code_simp+
  have a: "repo_wf (db ?st)" "jobAt (db ?st) (ID ?j) = Some ?j"
    "\<not> holds_lease ?j ''other'' (LeaseGeneration ?j)"
    using repo_ok_wf [OF two_jobs_claimed_ok] e by (simp_all add: holds_lease_def)
  from engine_fenced_success [OF demo_engine_sel(1) a] show ?thesis by simp
qed

text \<open>a heartbeat protects the execution. After a heartbeat by the holder, no stale recovery
  running before the renewed lease ends touches the job.\<close>

theorem heartbeat_protects:
  assumes "repo_eng e = memory_repository us" and "repo_wf (db st)"
    and "jobAt (db st) (ID j) = Some x" and "holds_lease x (WorkerID j) (LeaseGeneration j)"
    and "heartbeat_tick e t j st = (go, st')" and "now \<le> t + LeaseDuration (leaseMgr e)"
    and "RecoverStale_mem now limit p (db st') = (n, r')"
  shows "go \<and> jobAt r' (ID j) = jobAt (db st') (ID j)"
proof -
  let ?x = "x\<lparr>LeaseUntil := Some (t + LeaseDuration (leaseMgr e)), UpdatedAt := t\<rparr>"
  have hb: "Heartbeat_mem t (ID j) (WorkerID j) (LeaseGeneration j) (LeaseDuration (leaseMgr e)) (db st) =
      (None, setJob (ID j) ?x (db st))"
    using mem_with_lease_held [OF assms(3,4)] by (simp add: Heartbeat_mem_def)
  then have st': "go" "jobAt (db st') (ID j) = Some ?x"
    using assms(1,5) by (auto simp: heartbeat_tick_def)
  have "\<not> is_stale now ?x" using assms(6) by (simp add: is_stale_def)
  then have "jobAt r' (ID j) = Some ?x"
    using recover_loop_keeps [OF st'(2), of now limit p "keys (jobs (db st'))" 0] assms(7)
    by (simp add: RecoverStale_mem_def)
  with st' show ?thesis by simp
qed

theorem heartbeat_protects_witness:
  "\<exists>st' n r'. heartbeat_tick (demo_engine (Returned None)) 35 (job_or_zero two_jobs_claimed 7)
      (demo_run\<lparr>db := two_jobs_claimed\<rparr>) = (True, st') \<and>
    RecoverStale_mem 100 5 None (db st') = (n, r') \<and> jobAt r' 7 = jobAt (db st') 7"
proof -
  let ?j = "job_or_zero two_jobs_claimed 7"
  let ?st = "demo_run\<lparr>db := two_jobs_claimed\<rparr>"
  let ?e = "demo_engine (Returned None)"
  let ?hb = "heartbeat_tick ?e 35 ?j ?st"
  let ?rc = "RecoverStale_mem 100 5 None (db (snd ?hb))"
  have e: "ID ?j = 7" "jobAt two_jobs_claimed 7 = Some ?j" by code_simp+
  have a: "repo_wf (db ?st)" "jobAt (db ?st) (ID ?j) = Some ?j"
    "holds_lease ?j (WorkerID ?j) (LeaseGeneration ?j)" "?hb = (fst ?hb, snd ?hb)"
    "?rc = (fst ?rc, snd ?rc)"
    using repo_ok_wf [OF two_jobs_claimed_ok] e by (simp_all add: holds_lease_def)
  have l: "(100::int) \<le> 35 + LeaseDuration (leaseMgr ?e)"
    by (simp add: demo_engine_def Register_eng_def New_engine_def Let_def DefaultPolicy_def
        New_lease_LeaseDuration Second_def)
  from heartbeat_protects [OF demo_engine_sel(1) a(1-4) l a(5)] a(4,5) e(1) show ?thesis by metis
qed

end
