(* ===== verification/Engine_Enqueue.thy ===== *)
theory Engine_Enqueue
  imports Engine
begin

text \<open>
  Enqueueing through the engine: which ordering mode and trace id a job gets, the parallel batch
  helper, the chain statistics, and which intervals the loops survive.
\<close>

section \<open>Mode resolution\<close>

definition resolved_mode :: "'s Engine \<Rightarrow> EnqueueRequest \<Rightarrow> string" where
  "resolved_mode e req =
    (let strategy = (case orderingStrategy e of Some s \<Rightarrow> s req | None \<Rightarrow> [])
     in if OrderingMode_req req \<noteq> [] then OrderingMode_req req
        else if strategy \<noteq> [] then strategy
        else if orderingMode_eng e \<noteq> [] then orderingMode_eng e
        else OrderingModeStrict)"

lemma resolve_mode_eq:
  "resolve_mode e req = req\<lparr>OrderingMode_req := resolved_mode e req\<rparr>"
  by (simp add: resolve_mode_def resolved_mode_def Let_def split: option.splits)

lemma resolve_mode_sel [simp]:
  "OrderingMode_req (resolve_mode e req) = resolved_mode e req"
  "ChainID_req (resolve_mode e req) = ChainID_req req"
  "Type_req (resolve_mode e req) = Type_req req"
  "Sequence_req (resolve_mode e req) = Sequence_req req"
  "IdempotencyKey_req (resolve_mode e req) = IdempotencyKey_req req"
  "TraceID_req (resolve_mode e req) = TraceID_req req"
  by (simp_all add: resolve_mode_eq)

lemma resolved_mode_not_Nil: "resolved_mode e req \<noteq> []"
  by (simp add: resolved_mode_def Let_def)

section \<open>Properties\<close>

text \<open>the mode and trace of a created job. The request's own mode wins, then the strategy's
  answer, then the engine's default, then strict, so that the mode is never empty; the trace id is
  the request's, else that of the caller's span, else the one in the caller's context.\<close>

theorem engine_enqueue_resolves:
  assumes "repo_eng e = memory_repository us" and "repo_wf r" and "jobAt r jid = None"
    and "Enqueue_eng e c now jid req r = (Inr j, r')" and "ID j = jid"
  shows "OrderingMode j = resolved_mode e req \<and> OrderingMode j \<noteq> [] \<and> Type j = Type_req req \<and>
    Type j \<noteq> [] \<and>
    TraceID j = (if TraceID_req req \<noteq> [] then TraceID_req req
                 else case span c of Some tid \<Rightarrow> tid | None \<Rightarrow> ExtractTraceID c)"
proof -
  let ?req = "InjectOTelTraceContext c (resolve_mode e req)"
  have t: "Type_req req \<noteq> []" and enq: "enqueueSingleInMemory now jid ?req r = (Inr j, r')"
    using assms(1,4) by (auto simp: Enqueue_eng_def Enqueue_mem_def split: if_splits)
  show ?thesis
  proof (cases rule: enqueue_cases [of ?req now jid r])
    case (known x)
    then show ?thesis using enq assms(3,5) findJob_Some [OF assms(2)] by auto
  next
    case (created q k)
    then have "j = newJob now jid ?req q (determineInitialStatus r (ChainID_req ?req) q)"
      using enq by simp
    with t resolved_mode_not_Nil [of e req] show ?thesis
      by (simp add: newJob_def InjectOTelTraceContext_TraceID)
  qed (use enq in auto)
qed

theorem engine_enqueue_resolves_witness:
  "\<exists>j r'. Enqueue_eng (New_engine (memory_repository format_nat) ''w''
      [WithOrderingMode OrderingModeSkipOnFailure]) (WithTraceID Background ''t1'') 5 7
      (sample_req ''c'' 1 []) New_mem = (Inr j, r') \<and>
    OrderingMode j = OrderingModeSkipOnFailure \<and> TraceID j = ''t1''"
proof -
  let ?e = "New_engine (memory_repository format_nat) ''w'' [WithOrderingMode OrderingModeSkipOnFailure]"
  let ?c = "WithTraceID Background ''t1''"
  let ?req = "sample_req ''c'' 1 []"
  let ?x = "Enqueue_eng ?e ?c 5 7 ?req New_mem"
  have eng: "repo_eng ?e = memory_repository format_nat" "orderingMode_eng ?e = OrderingModeSkipOnFailure"
    "orderingStrategy ?e = None"
    by (simp_all add: New_engine_def WithOrderingMode_def Let_def DefaultPolicy_def)
  have req: "OrderingMode_req ?req = []" "TraceID_req ?req = []" "Type_req ?req = ''task''"
    "ChainID_req ?req = ''c''" "IdempotencyKey_req ?req = []" "Sequence_req ?req = 1" by code_simp+
  have n: "validateAndResolveSequence New_mem ''c'' 1 = Inr 1" by code_simp
  have x: "?x = (Inr (projr (fst ?x)), snd ?x)" "ID (projr (fst ?x)) = 7"
    by (simp_all add: Enqueue_eng_def eng req Enqueue_mem_def enqueueSingleInMemory_def n Let_def)
  have none: "jobAt New_mem 7 = None" by code_simp
  have ct: "span ?c = None" "ExtractTraceID ?c = ''t1''" by code_simp+
  have m: "resolved_mode ?e ?req = OrderingModeSkipOnFailure"
    by (simp add: resolved_mode_def eng req)
  from engine_enqueue_resolves [OF eng(1) repo_wf_New none x] x(1) show ?thesis
    unfolding m by (simp add: req ct) metis
qed

section \<open>The parallel batch\<close>

definition valid_req :: "EnqueueRequest \<Rightarrow> bool" where
  "valid_req req \<longleftrightarrow>
     ChainID_req req \<noteq> [] \<and> Type_req req \<noteq> [] \<and> Payload_req req \<noteq> Any_unmarshalable"

definition with_default_attempts :: "EnqueueRequest \<Rightarrow> EnqueueRequest" where
  "with_default_attempts req =
    (if MaxAttempts_req req = 0 then req\<lparr>MaxAttempts_req := 5\<rparr> else req)"

lemma validate_req_iff:
  "validate_req i req =
   (if valid_req req then Inr (with_default_attempts req) else Inl (projl (validate_req i req)))"
  by (auto simp: validate_req_def valid_req_def with_default_attempts_def json_Marshal_def
      split: any_value.splits)

lemma validate_all_iff:
  "validate_all i reqs =
   (if list_all (\<lambda>x. valid_req (snd x)) reqs
    then Inr (map (\<lambda>(k, req). (k, with_default_attempts req)) reqs)
    else Inl (projl (validate_all i reqs)))"
proof (induction i reqs rule: validate_all.induct)
  case (2 i k req reqs)
  show ?case
  proof (cases "valid_req req")
    case True
    then have v: "validate_req i req = Inr (with_default_attempts req)"
      using validate_req_iff [of i req] by simp
    show ?thesis
    proof (cases "list_all (\<lambda>x. valid_req (snd x)) reqs")
      case all: True
      with 2 [OF v] True show ?thesis by (simp add: v)
    next
      case False
      then obtain err where "validate_all (i + 1) reqs = Inl err" using 2 [OF v] by metis
      with False show ?thesis by (simp add: v)
    qed
  next
    case False
    then obtain err where "validate_req i req = Inl err" using validate_req_iff [of i req] by metis
    with False show ?thesis by simp
  qed
qed simp

text \<open>\<open>BatchEnqueueParallel\<close> is \<open>EnqueueBatch\<close> behind a check. If some request lacks its chain or
  type, or its payload cannot be marshalled, it reports an error and the store is untouched;
  otherwise it is the batch with five attempts for the requests that set none.\<close>

theorem parallel_batch_equiv:
  "if list_all (\<lambda>x. valid_req (snd x)) reqs
   then BatchEnqueueParallel e c reqs s =
     EnqueueBatch_eng e c (map (\<lambda>(k, req). (k, with_default_attempts req)) reqs) s
   else \<exists>err. BatchEnqueueParallel e c reqs s = (Inl err, s)"
proof (cases "list_all (\<lambda>x. valid_req (snd x)) reqs")
  case True
  then have "validate_all 0 reqs = Inr (map (\<lambda>(k, req). (k, with_default_attempts req)) reqs)"
    using validate_all_iff [of 0 reqs] by simp
  with True show ?thesis by (simp add: BatchEnqueueParallel_def)
next
  case False
  then obtain err where "validate_all 0 reqs = Inl err" using validate_all_iff [of 0 reqs] by metis
  with False show ?thesis by (simp add: BatchEnqueueParallel_def)
qed

text \<open>\<open>AggregateChainStats\<close> maps each chain to the number of its jobs in the list, and no other
  key.\<close>

theorem aggregate_counts:
  "lookup (AggregateChainStats js) c =
   (let n = length (filter (\<lambda>j. ChainID j = c) js) in if n = 0 then None else Some (int n))"
proof -
  let ?step = "\<lambda>j counts. AList.update (ChainID j)
      ((case lookup counts (ChainID j) of None \<Rightarrow> 0 | Some n \<Rightarrow> n) + 1) counts"
  have "lookup (fold ?step js m) c =
      (if length (filter (\<lambda>j. ChainID j = c) js) = 0 then lookup m c
       else Some ((case lookup m c of None \<Rightarrow> 0 | Some n \<Rightarrow> n) +
         int (length (filter (\<lambda>j. ChainID j = c) js))))" for m :: "(string \<times> int) list"
    by (induction js arbitrary: m) (auto simp: filter_empty_conv)
  then show ?thesis by (simp add: AggregateChainStats_def)
qed

section \<open>Intervals\<close>

text \<open>which intervals the loops survive. A worker's first tick panics, which ends the worker, when
  the poll interval is below two nanoseconds, and otherwise the next poll comes within one and a
  half intervals; the heartbeat loop cannot start when the lease is positive but below three
  nanoseconds.\<close>

theorem interval_limits:
  "(case next_poll e rnd of
      Panics msg \<Rightarrow> pollInterval e < 2
    | Returns d \<Rightarrow> 2 \<le> pollInterval e \<and> pollInterval e \<le> d \<and> 2 * d < 3 * pollInterval e) \<and>
   ((\<exists>msg. NewTicker (Heartbeat_mgr (New_lease l)) = Panics msg) \<longleftrightarrow> 0 < l \<and> l < 3)"
proof
  let ?p = "pollInterval e"
  show "case next_poll e rnd of
      Panics msg \<Rightarrow> ?p < 2
    | Returns d \<Rightarrow> 2 \<le> ?p \<and> ?p \<le> d \<and> 2 * d < 3 * ?p"
  proof (cases "?p < 2")
    case True
    then have "quot ?p 2 \<le> 0" by (simp add: quot_def sgn_if)
    with True show ?thesis by (simp add: next_poll_def Let_def)
  next
    case False
    define q m where "q = ?p div 2" and "m = int rnd mod q"
    have q: "quot ?p 2 = q" "0 < q" "2 * q \<le> ?p"
      using False by (simp_all add: q_def quot_nonneg)
    have m: "0 \<le> m" "m < q" using q(2) by (simp_all add: m_def)
    have "next_poll e rnd = Returns (?p + m)" using q by (simp add: next_poll_def m_def)
    with False q m show ?thesis by simp
  qed
  have "LeaseDuration (New_lease l) div 3 \<le> 0 \<longleftrightarrow> 0 < l \<and> l < 3"
    by (auto simp: New_lease_LeaseDuration Second_def)
  then show "(\<exists>msg. NewTicker (Heartbeat_mgr (New_lease l)) = Panics msg) \<longleftrightarrow> 0 < l \<and> l < 3"
    by (simp add: NewTicker_def New_lease_Heartbeat)
qed

end
