(* ===== verification/System.thy ===== *)
theory System
  imports Memory_Query
begin

text \<open>
  The repository under many clients: workers, operators and producers call it in any interleaving.
  A state holds the repository, the lease tokens workers hold, and the ids handed out so far.

  \<^item> A worker obtains a token by a successful \<open>Claim\<close> and gives it up with the one operation that
    finishes the execution (\<open>Complete\<close>, \<open>Fail\<close>, \<open>Retry\<close>, \<open>ConfirmCancel\<close>), whatever that operation
    answers, or without any (a crash; the cancel branch of the engine). This is the discipline
    \<open>tryClaimAndExecute\<close> of src/engine.go follows; the repository does not enforce it, and theory
    System_Calls does without it. Heartbeats may come at any time.
  \<^item> \<open>uuid.New()\<close> never returns an id twice.
  \<^item> The enumeration order of the Go maps may change at any time (\<open>reorder\<close>).

  Steps are split in two: \<open>sstep\<close> and the operator's \<open>ostep\<close>, which take finished work back
  (replay) or remove it (purge). \<open>reach False\<close> are the states reachable without the latter.
\<close>

section \<open>State and steps\<close>

type_synonym token = "uuid \<times> string \<times> int"

record sys =
  store :: repo
  held :: "token list"
  issued :: "uuid list"

definition sys_init :: sys where
  "sys_init = \<lparr>store = New_mem, held = [], issued = []\<rparr>"

text \<open>The same maps in another enumeration order.\<close>

definition reordered :: "repo \<Rightarrow> repo \<Rightarrow> bool" where
  "reordered r r' \<longleftrightarrow>
     mset (jobs r') = mset (jobs r) \<and>
     (\<exists>ch. mset ch = mset (chain r) \<and>
        list_all2 (\<lambda>(c, m) (c', m'). c' = c \<and> mset m' = mset m) ch (chain r'))"

inductive sstep :: "sys \<Rightarrow> sys \<Rightarrow> bool" where
  enqueue: "jid \<notin> set (issued s) \<Longrightarrow>
    sstep s (s\<lparr>store := snd (Enqueue_mem now jid req (store s)), issued := jid # issued s\<rparr>)"
| enqueue_batch: "distinct (map (snd \<circ> fst) reqs) \<Longrightarrow>
    set (map (snd \<circ> fst) reqs) \<inter> set (issued s) = {} \<Longrightarrow>
    sstep s (s\<lparr>store := snd (EnqueueBatch_mem reqs (store s)),
      issued := map (snd \<circ> fst) reqs @ issued s\<rparr>)"
| claim: "Claim_mem now w l (store s) = (Inr j, r') \<Longrightarrow>
    sstep s (s\<lparr>store := r', held := (ID j, w, LeaseGeneration j) # held s\<rparr>)"
| complete: "(i, w, g) \<in> set (held s) \<Longrightarrow>
    sstep s (s\<lparr>store := snd (Complete_mem now i w g (store s)), held := remove1 (i, w, g) (held s)\<rparr>)"
| fail: "(i, w, g) \<in> set (held s) \<Longrightarrow>
    sstep s (s\<lparr>store := snd (Fail_mem now i w g msg t (store s)),
      held := remove1 (i, w, g) (held s)\<rparr>)"
| retry: "(i, w, g) \<in> set (held s) \<Longrightarrow>
    sstep s (s\<lparr>store := snd (Retry_mem now i w g msg at (store s)),
      held := remove1 (i, w, g) (held s)\<rparr>)"
| confirm_cancel: "(i, w, g) \<in> set (held s) \<Longrightarrow>
    sstep s (s\<lparr>store := snd (ConfirmCancel_mem now i w g (store s)),
      held := remove1 (i, w, g) (held s)\<rparr>)"
| release: "sstep s (s\<lparr>held := remove1 tok (held s)\<rparr>)"
| heartbeat: "sstep s (s\<lparr>store := snd (Heartbeat_mem now i w g l (store s))\<rparr>)"
| request_cancel: "sstep s (s\<lparr>store := snd (RequestCancel_mem now i (store s))\<rparr>)"
| recover: "sstep s (s\<lparr>store := snd (RecoverStale_mem now limit p (store s))\<rparr>)"
| promote_next: "sstep s (s\<lparr>store := snd (PromoteNext_mem now c q (store s))\<rparr>)"
| skip: "sstep s (s\<lparr>store := snd (SkipJob_mem now i (store s))\<rparr>)"
| bulk_skip: "sstep s (s\<lparr>store := snd (BulkSkipDLQ_mem us now f (store s))\<rparr>)"
| reschedule: "sstep s (s\<lparr>store := snd (RescheduleJob_mem now i at (store s))\<rparr>)"
| reorder: "reordered (store s) r' \<Longrightarrow> sstep s (s\<lparr>store := r'\<rparr>)"

inductive ostep :: "sys \<Rightarrow> sys \<Rightarrow> bool" where
  replay: "ostep s (s\<lparr>store := snd (ReplayJob_mem now i (store s))\<rparr>)"
| replay_payload: "ostep s (s\<lparr>store := snd (ReplayJobWithPayload_mem now i pl (store s))\<rparr>)"
| bulk_replay: "ostep s (s\<lparr>store := snd (BulkReplayDLQ_mem us now f (store s))\<rparr>)"
| bulk_purge: "ostep s (s\<lparr>store := snd (BulkPurgeDLQ_mem us f (store s))\<rparr>)"

inductive reach :: "bool \<Rightarrow> sys \<Rightarrow> bool" for operator :: bool where
  init: "reach operator sys_init"
| step: "reach operator s \<Longrightarrow> sstep s s' \<Longrightarrow> reach operator s'"
| operator_step: "reach operator s \<Longrightarrow> operator \<Longrightarrow> ostep s s' \<Longrightarrow> reach operator s'"

section \<open>What a step may do to a job\<close>

definition kept :: "job \<Rightarrow> job \<Rightarrow> bool" where
  "kept j j' \<longleftrightarrow> same_identity j j' \<and> LeaseGeneration j' = LeaseGeneration j \<and>
     WorkerID j' = WorkerID j \<and> StartedAt j' = StartedAt j"

text \<open>Without a lease: nothing, promotion, a cancel request, stale recovery, a skip.\<close>

definition drift :: "job \<Rightarrow> job \<Rightarrow> bool" where
  "drift j j' \<longleftrightarrow> kept j j' \<and>
     (Status j' = Status j \<or>
      Status j = StateBlocked \<and> Status j' = StatePending \<or>
      Status j \<in> {StateBlocked, StatePending, StateRetrying} \<and> Status j' = StateCancelRequested \<or>
      Status j = StateProcessing \<and> Status j' = StateRetrying \<or>
      replayable j \<and> Status j' = StateCompleted)"

text \<open>With the lease: one of the outcomes of an execution.\<close>

definition outcome_state :: "string \<Rightarrow> bool" where
  "outcome_state s \<longleftrightarrow>
     s \<in> {StateCompleted, StateFailed, StateDeadLettered, StateRetrying, StateCancelled}"

definition pointwise :: "(uuid \<Rightarrow> job \<Rightarrow> job \<Rightarrow> bool) \<Rightarrow> repo \<Rightarrow> repo \<Rightarrow> bool" where
  "pointwise R r r' \<longleftrightarrow>
     (\<forall>k. case jobAt r k of
        None \<Rightarrow> jobAt r' k = None
      | Some j \<Rightarrow> (case jobAt r' k of None \<Rightarrow> False | Some j' \<Rightarrow> R k j j'))"

lemma kept_refl [simp]: "kept j j"
  by (simp add: kept_def)

lemma kept_trans: "kept a b \<Longrightarrow> kept b c \<Longrightarrow> kept a c"
  by (auto simp: kept_def intro: same_identity_trans)

lemma drift_refl [simp]: "drift j j"
  by (simp add: drift_def)

lemma pointwise_setJob:
  assumes "jobAt r i = Some j" and "R i j j'" and "\<And>k x. R k x x"
  shows "pointwise R r (setJob i j' r)"
  using assms by (auto simp: pointwise_def split: option.splits)

lemma pointwise_refl: "(\<And>k x. R k x x) \<Longrightarrow> pointwise R r r"
  by (auto simp: pointwise_def split: option.splits)

lemma pointwise_at:
  "pointwise R r r' \<Longrightarrow>
   (case jobAt r k of
      None \<Rightarrow> jobAt r' k = None
    | Some j \<Rightarrow> (case jobAt r' k of None \<Rightarrow> False | Some j' \<Rightarrow> R k j j'))"
  by (simp add: pointwise_def)

lemma pointwiseD:
  "pointwise R r r' \<Longrightarrow> jobAt r' k = Some j' \<Longrightarrow> \<exists>j. jobAt r k = Some j \<and> R k j j'"
  using pointwise_at [of R r r' k] by (auto split: option.splits)

lemma pointwiseE:
  "pointwise R r r' \<Longrightarrow> jobAt r k = Some j \<Longrightarrow> \<exists>j'. jobAt r' k = Some j' \<and> R k j j'"
  using pointwise_at [of R r r' k] by (auto split: option.splits)

lemma pointwiseI:
  "(\<And>k. jobAt r k = None \<Longrightarrow> jobAt r' k = None) \<Longrightarrow>
   (\<And>k j. jobAt r k = Some j \<Longrightarrow> \<exists>j'. jobAt r' k = Some j' \<and> R k j j') \<Longrightarrow> pointwise R r r'"
  by (fastforce simp: pointwise_def split: option.splits)

lemma kept_updates [simp]:
  "kept j (completed now j)" "kept j (failed now e t j)" "kept j (retrying now e a j)"
  "kept j (recovered now p j)" "kept j (replayed now j)" "kept j (unblocked now j)"
  "kept j ((replayed now j)\<lparr>Payload := pl\<rparr>)"
  "kept j (j\<lparr>Status := s, UpdatedAt := now\<rparr>)"
  "kept j (j\<lparr>Status := s, UpdatedAt := now, LeaseUntil := None\<rparr>)"
  "kept j (j\<lparr>LeaseUntil := u, UpdatedAt := now\<rparr>)"
  "kept j (j\<lparr>AvailableAt := a, UpdatedAt := now\<rparr>)"
  by (simp_all add: kept_def completed_def failed_def retrying_def recovered_def replayed_def
      unblocked_def Let_def same_identity_def)

lemma status_updates [simp]:
  "Status (retrying now e a j) = StateRetrying" "Status (recovered now p j) = StateRetrying"
  "Status (replayed now j) = StatePending"
  by (simp_all add: retrying_def recovered_def replayed_def Let_def)

lemma drift_unblocked [simp]: "drift j (unblocked now j)"
  by (simp add: drift_def)

lemma outcome_states [simp]:
  "outcome_state StateCompleted" "outcome_state StateFailed" "outcome_state StateDeadLettered"
  "outcome_state StateRetrying" "outcome_state StateCancelled"
  by (simp_all add: outcome_state_def)

section \<open>The operations as job transitions\<close>

abbreviation drifts :: "repo \<Rightarrow> repo \<Rightarrow> bool" where
  "drifts \<equiv> pointwise (\<lambda>k. drift)"

text \<open>Job \<open>i\<close> gets an outcome, the others drift.\<close>

definition finish :: "uuid \<Rightarrow> uuid \<Rightarrow> job \<Rightarrow> job \<Rightarrow> bool" where
  "finish i k j j' \<longleftrightarrow> (if k = i then kept j j' \<and> outcome_state (Status j') else drift j j')"

abbreviation finishes :: "uuid \<Rightarrow> repo \<Rightarrow> repo \<Rightarrow> bool" where
  "finishes i \<equiv> pointwise (finish i)"

text \<open>A replayed job.\<close>

definition taken_back :: "job \<Rightarrow> job \<Rightarrow> bool" where
  "taken_back j j' \<longleftrightarrow> j' = j \<or> kept j j' \<and> replayable j \<and> Status j' = StatePending"

lemma drifts_promote: "repo_wf r \<Longrightarrow> drifts r (promote now c q r)"
  by (rule pointwiseI) (auto simp: jobAt_promote)

lemma drifts_Promote: "repo_wf r \<Longrightarrow> drifts r (snd (PromoteNext_mem now c q r))"
  by (simp add: PromoteNext_mem_def drifts_promote)

lemma drifts_setJob: "jobAt r i = Some j \<Longrightarrow> drift j j' \<Longrightarrow> drifts r (setJob i j' r)"
  by (rule pointwise_setJob) auto

lemma finishes_setJob:
  "jobAt r i = Some j \<Longrightarrow> kept j j' \<Longrightarrow> outcome_state (Status j') \<Longrightarrow>
   finishes i r (setJob i j' r)"
  by (auto simp: pointwise_def finish_def split: option.splits)

lemma drift_completed: "replayable j \<Longrightarrow> drift j (completed now j)"
  by (simp add: drift_def)

lemma drifts_refl: "drifts r r"
  by (rule pointwise_refl) simp

lemma drifts_skip_one:
  assumes "repo_wf r" and "jobAt r i = Some j" and "replayable j"
  shows "drifts r (skip_one now i j r)"
  by (rule pointwiseI)
     (auto simp: jobAt_skip_one [OF assms(1,2)] assms(2) drift_completed [OF assms(3)])

lemma drifts_recover: "drifts r (snd (RecoverStale_mem now limit p r))"
proof (rule pointwiseI)
  fix k j assume "jobAt r k = Some j"
  moreover have "drift j (recovered now p j)" if "is_stale now j"
    using that by (simp add: drift_def is_stale_def)
  ultimately show "\<exists>j'. jobAt (snd (RecoverStale_mem now limit p r)) k = Some j' \<and> drift j j'"
    using recover_loop_jobAt [of r k j now limit p "keys (jobs r)" 0]
    by (auto simp: RecoverStale_mem_def)
next
  fix k assume "jobAt r k = None"
  then show "jobAt (snd (RecoverStale_mem now limit p r)) k = None"
    using evolves_jobAt_None [OF evolves_Recover] by blast
qed

lemma dlq_replayable: "matchesDLQFilter us j f \<Longrightarrow> replayable j"
  using matchesDLQFilter_dlq by (auto simp: in_dlq_def replayable_def)

lemma evolves_bulk_loop_skip:
  assumes "repo_wf r"
  shows "evolves r (snd (bulk_loop (\<lambda>j. matchesDLQFilter us j f) (skip_one now) ids n r))"
  using assms
proof (induction r rule: bulk_skip.loop_induct
    [where ids = ids and n = n and us = us and f = f and now = now])
  case (hit i ids n r j)
  then show ?case using evolves_trans evolves_skip_one by auto
qed auto

lemma evolves_bulk_skip: "repo_wf r \<Longrightarrow> evolves r (snd (BulkSkipDLQ_mem us now f r))"
  unfolding BulkSkipDLQ_mem_def by (rule evolves_bulk_loop_skip)

lemma evolves_bulk_replay:
  assumes "repo_wf r" shows "evolves r (snd (BulkReplayDLQ_mem us now f r))"
proof -
  have "evolves r (snd (bulk_loop (\<lambda>j. matchesDLQFilter us j f) (\<lambda>i j. setJob i (replayed now j))
      ids n r))" for ids n using assms
  proof (induction r rule: bulk_replay.loop_induct
      [where ids = ids and n = n and us = us and f = f and now = now])
    case (hit i ids n r j)
    then have "evolves r (setJob i (replayed now j) r)" by blast
    with hit show ?case using evolves_trans by auto
  qed auto
  then show ?thesis unfolding BulkReplayDLQ_mem_def by blast
qed

lemma drifts_bulk_skip:
  assumes "repo_wf r" shows "drifts r (snd (BulkSkipDLQ_mem us now f r))"
proof (rule pointwiseI)
  fix k j assume j: "jobAt r k = Some j"
  show "\<exists>j'. jobAt (snd (BulkSkipDLQ_mem us now f r)) k = Some j' \<and> drift j j'"
    unfolding BulkSkipDLQ_mem_def
      bulk_skip_jobAt [OF assms repo_wf_distinct [OF assms] j, of us f now 0]
    using drift_completed [OF dlq_replayable] by auto
next
  fix k assume "jobAt r k = None"
  then show "jobAt (snd (BulkSkipDLQ_mem us now f r)) k = None"
    using evolves_jobAt_None [OF evolves_bulk_skip [OF assms]] by blast
qed

lemma drifts_ops:
  "drifts r (snd (Heartbeat_mem now i w g l r))"
  "drifts r (snd (RequestCancel_mem now i r))"
  "drifts r (snd (RescheduleJob_mem now i at r))"
proof -
  show "drifts r (snd (Heartbeat_mem now i w g l r))"
    unfolding Heartbeat_mem_def
    by (cases rule: with_lease_cases [of r i w g])
       (auto simp: with_lease_def drifts_refl drift_def intro!: drifts_setJob split: option.splits)
  show "drifts r (snd (RequestCancel_mem now i r))"
    by (auto simp: RequestCancel_mem_def drifts_refl drift_def intro!: drifts_setJob
        split: option.splits)
  show "drifts r (snd (RescheduleJob_mem now i at r))"
    by (auto simp: RescheduleJob_mem_def Let_def drifts_refl drift_def intro!: drifts_setJob
        split: option.splits)
qed

lemma drifts_skip:
  assumes "repo_wf r" shows "drifts r (snd (SkipJob_mem now i r))"
  using drifts_skip_one [OF assms]
  by (auto simp: SkipJob_mem_def drifts_refl skip_one_def split: option.splits)

lemma finishes_complete:
  assumes "repo_wf r" and "jobAt r i = Some j"
  shows "finishes i r (promote now (ChainID j) (Sequence j) (setJob i (completed now j) r))"
  by (rule pointwiseI)
     (use assms(2) in \<open>auto simp: finish_def jobAt_completed_promote [OF assms]\<close>)

text \<open>A finishing operation either changes nothing or gives the job the caller holds an outcome.\<close>

lemma finishing_ops:
  assumes "repo_wf r"
    and "r' \<in> {snd (Complete_mem now i w g r), snd (Fail_mem now i w g msg t r),
      snd (Retry_mem now i w g msg at r), snd (ConfirmCancel_mem now i w g r)}"
  shows "r' = r \<or> (\<exists>j. jobAt r i = Some j \<and> WorkerID j = w \<and> LeaseGeneration j = g \<and>
    finishes i r r')"
proof (cases "\<exists>j. jobAt r i = Some j \<and> WorkerID j = w \<and> LeaseGeneration j = g")
  case True
  then obtain j where j: "jobAt r i = Some j" "WorkerID j = w" "LeaseGeneration j = g" by blast
  have "finishes i r r'"
    using assms(2) j finishes_complete [OF assms(1) j(1), of now]
    by (auto simp: Complete_mem_def Fail_mem_def Retry_mem_def ConfirmCancel_mem_def with_lease_def
        intro!: finishes_setJob)
  with j show ?thesis by blast
next
  case False
  then have "snd (with_lease i w g r body) = r" for body
    by (auto simp: with_lease_def split: option.splits)
  with assms(2) show ?thesis
    by (auto simp: Complete_mem_def Fail_mem_def Retry_mem_def ConfirmCancel_mem_def)
qed

end
