(* ===== verification/System_Inv.thy ===== *)
theory System_Inv
  imports System
begin

text \<open>
  The invariants of the system of theory System, each shown for every step: well-formedness, one
  job in processing per chain, lease tokens that are never handed out twice and are current only
  while their execution is open, and first-in first-out order.
\<close>

section \<open>Invariants\<close>

text \<open>A job that was started, i.e. claimed at least once.\<close>

definition started :: "job \<Rightarrow> bool" where
  "started j \<longleftrightarrow> StartedAt j \<noteq> None"

definition job_ok :: "job \<Rightarrow> bool" where
  "job_ok j \<longleftrightarrow> Status j \<in> set counted_states \<and> 0 \<le> LeaseGeneration j \<and>
     (started j \<longleftrightarrow> 1 \<le> LeaseGeneration j) \<and>
     (Status j = StateProcessing \<or> outcome_state (Status j) \<longrightarrow> started j)"

definition jobs_ok :: "repo \<Rightarrow> bool" where
  "jobs_ok r \<longleftrightarrow> (\<forall>i j. jobAt r i = Some j \<longrightarrow> job_ok j)"

definition one_processing :: "repo \<Rightarrow> bool" where
  "one_processing r \<longleftrightarrow>
     (\<forall>i k j j'. jobAt r i = Some j \<and> jobAt r k = Some j' \<and> ChainID j = ChainID j' \<and>
        Status j = StateProcessing \<and> Status j' = StateProcessing \<longrightarrow> i = k)"

text \<open>An execution that has not ended: in processing, or recovered and not claimed again.\<close>

definition open_state :: "string \<Rightarrow> bool" where
  "open_state s \<longleftrightarrow> s = StateProcessing \<or> s = StateRetrying \<or> s = StateCancelRequested"

definition token_ok :: "repo \<Rightarrow> token \<Rightarrow> bool" where
  "token_ok r t = (case t of (i, w, g) \<Rightarrow>
     (case jobAt r i of
        None \<Rightarrow> True
      | Some j \<Rightarrow> 1 \<le> g \<and> g \<le> LeaseGeneration j \<and>
          (g = LeaseGeneration j \<longrightarrow> w = WorkerID j \<and> open_state (Status j))))"

definition tokens_ok :: "repo \<Rightarrow> token list \<Rightarrow> uuid list \<Rightarrow> bool" where
  "tokens_ok r H I \<longleftrightarrow> distinct H \<and> (\<forall>t \<in> set H. token_ok r t \<and> fst t \<in> set I)"

definition ids_ok :: "repo \<Rightarrow> uuid list \<Rightarrow> bool" where
  "ids_ok r I \<longleftrightarrow> (\<forall>i j. jobAt r i = Some j \<longrightarrow> i \<in> set I)"

definition inv :: "repo \<Rightarrow> token list \<Rightarrow> uuid list \<Rightarrow> bool" where
  "inv r H I \<longleftrightarrow> repo_ok r \<and> ids_ok r I \<and> jobs_ok r \<and> one_processing r \<and> tokens_ok r H I"

definition sys_inv :: "sys \<Rightarrow> bool" where
  "sys_inv s \<longleftrightarrow> inv (store s) (held s) (issued s)"

text \<open>A started job has a finished predecessor.\<close>

definition fifo :: "repo \<Rightarrow> bool" where
  "fifo r \<longleftrightarrow>
     (\<forall>i j. jobAt r i = Some j \<and> started j \<and> Sequence j \<noteq> 1 \<longrightarrow>
        (\<exists>k p. jobAt r k = Some p \<and> ChainID p = ChainID j \<and> Sequence p = Sequence j - 1 \<and>
               isPredFinished p))"

lemma job_okD:
  "job_ok j \<Longrightarrow> Status j \<in> set counted_states"
  "job_ok j \<Longrightarrow> 0 \<le> LeaseGeneration j"
  "job_ok j \<Longrightarrow> started j \<longleftrightarrow> 1 \<le> LeaseGeneration j"
  "job_ok j \<Longrightarrow> Status j = StateProcessing \<Longrightarrow> started j"
  "job_ok j \<Longrightarrow> outcome_state (Status j) \<Longrightarrow> started j"
  unfolding job_ok_def by blast+

lemma inv_wf: "inv r H I \<Longrightarrow> repo_wf r"
  by (simp add: inv_def repo_ok_def)

lemma inv_job: "inv r H I \<Longrightarrow> jobAt r i = Some j \<Longrightarrow> job_ok j"
  by (simp add: inv_def jobs_ok_def)

lemma inv_token:
  "inv r H I \<Longrightarrow> (i, w, g) \<in> set H \<Longrightarrow> jobAt r i = Some j \<Longrightarrow>
   1 \<le> g \<and> g \<le> LeaseGeneration j \<and> (g = LeaseGeneration j \<longrightarrow> w = WorkerID j \<and> open_state (Status j))"
  by (fastforce simp: inv_def tokens_ok_def token_ok_def)

lemma inv_init: "inv New_mem [] []"
  using repo_ok_New
  by (simp add: inv_def ids_ok_def jobs_ok_def one_processing_def tokens_ok_def)
     (simp add: New_mem_def)

lemma inv_issued: "inv r H I \<Longrightarrow> set I \<subseteq> set I' \<Longrightarrow> inv r H I'"
  by (auto simp: inv_def ids_ok_def tokens_ok_def)

lemma kept_sel:
  assumes "kept j j'"
  shows "LeaseGeneration j' = LeaseGeneration j" "WorkerID j' = WorkerID j" "started j' = started j"
    "ChainID j' = ChainID j" "Sequence j' = Sequence j" "OrderingMode j' = OrderingMode j"
  using assms by (simp_all add: kept_def same_identity_def started_def)

section \<open>Changing stored jobs\<close>

text \<open>
  What a step that neither enqueues nor claims may do, job by job: the status of a job in
  processing or with an outcome only appears on a started job, no job starts processing, and a
  job with a live current token stays open.
\<close>

definition calm :: "job \<Rightarrow> job \<Rightarrow> bool" where
  "calm j j' \<longleftrightarrow> kept j j' \<and> Status j' \<in> set counted_states \<and>
     (Status j' = StateProcessing \<longrightarrow> Status j = StateProcessing) \<and>
     (outcome_state (Status j') \<longrightarrow> started j)"

lemma calm_sel:
  assumes "calm j j'"
  shows "LeaseGeneration j' = LeaseGeneration j" "WorkerID j' = WorkerID j"
    "ChainID j' = ChainID j" "Status j' = StateProcessing \<Longrightarrow> Status j = StateProcessing"
  using assms by (auto simp: calm_def kept_def same_identity_def)

lemma inv_update:
  assumes inv: "inv r H I" and ok: "repo_ok r'"
    and calm: "\<And>k j'. jobAt r' k = Some j' \<Longrightarrow> \<exists>j. jobAt r k = Some j \<and> calm j j'"
    and H: "set H' \<subseteq> set H" "distinct H'"
    and "open": "\<And>k w g j j'. (k, w, g) \<in> set H' \<Longrightarrow> jobAt r k = Some j \<Longrightarrow> jobAt r' k = Some j' \<Longrightarrow>
      g = LeaseGeneration j \<Longrightarrow> open_state (Status j) \<Longrightarrow> open_state (Status j')"
  shows "inv r' H' I"
proof -
  have "ids_ok r' I" using inv calm unfolding inv_def ids_ok_def by blast
  moreover have "jobs_ok r'"
    unfolding jobs_ok_def
  proof (intro allI impI)
    fix k j' assume "jobAt r' k = Some j'"
    then obtain j where j: "jobAt r k = Some j" "calm j j'" using calm by blast
    with inv_job [OF inv j(1)] show "job_ok j'"
      by (auto simp: calm_def job_ok_def kept_sel(1,3))
  qed
  moreover have "one_processing r'"
    unfolding one_processing_def
  proof (intro allI impI)
    fix i k a b
    assume a: "jobAt r' i = Some a \<and> jobAt r' k = Some b \<and> ChainID a = ChainID b \<and>
        Status a = StateProcessing \<and> Status b = StateProcessing"
    obtain x where x: "jobAt r i = Some x" "calm x a" using calm a by blast
    obtain y where y: "jobAt r k = Some y" "calm y b" using calm a by blast
    have "ChainID x = ChainID y" "Status x = StateProcessing" "Status y = StateProcessing"
      using a calm_sel(3,4) [OF x(2)] calm_sel(3,4) [OF y(2)] by simp_all
    with x(1) y(1) inv show "i = k" unfolding inv_def one_processing_def by blast
  qed
  moreover have "tokens_ok r' H' I"
    unfolding tokens_ok_def
  proof (intro conjI ballI)
    fix t assume t: "t \<in> set H'"
    obtain i w g where tt: "t = (i, w, g)" by (metis prod_cases3)
    with t H have "(i, w, g) \<in> set H" by auto
    then show "fst t \<in> set I" using inv by (auto simp: inv_def tokens_ok_def tt)
    show "token_ok r' t"
    proof (cases "jobAt r' i")
      case (Some j')
      then obtain j where j: "jobAt r i = Some j" "calm j j'" using calm by blast
      with inv_token [OF inv \<open>(i, w, g) \<in> set H\<close> j(1)] "open" [OF _ j(1) Some, of w g] t Some
        calm_sel(1,2) [OF j(2)]
      show ?thesis by (auto simp: token_ok_def tt)
    qed (simp add: token_ok_def tt)
  qed (rule H(2))
  ultimately show ?thesis using ok by (simp add: inv_def)
qed

lemma drift_calm:
  assumes "job_ok j" and "drift j j'"
  shows "calm j j'"
proof -
  have k: "kept j j'" using assms(2) by (simp add: drift_def)
  consider "Status j' = Status j" | "Status j' = StatePending" | "Status j' = StateCancelRequested"
    | "Status j = StateProcessing" "Status j' = StateRetrying"
    | "replayable j" "Status j' = StateCompleted"
    using assms(2) unfolding drift_def by blast
  then show ?thesis
  proof cases
    case 1
    with job_okD(1,5) [OF assms(1)] k show ?thesis unfolding calm_def by metis
  next
    case 4
    with job_okD(4) [OF assms(1)] k show ?thesis by (simp add: calm_def counted_states_def)
  next
    case 5
    then have "outcome_state (Status j)" by (auto simp: replayable_def)
    with 5 job_okD(5) [OF assms(1)] k show ?thesis by (simp add: calm_def counted_states_def)
  qed (use k in \<open>simp_all add: calm_def counted_states_def outcome_state_def\<close>)
qed

lemma drift_open: "drift j j' \<Longrightarrow> open_state (Status j) \<Longrightarrow> open_state (Status j')"
  by (auto simp: drift_def open_state_def replayable_def)

lemma inv_drifts:
  assumes "inv r H I" and "repo_ok r'" and "drifts r r'" and "set H' \<subseteq> set H" and "distinct H'"
  shows "inv r' H' I"
  using assms(1,2)
proof (rule inv_update)
  fix k j' assume "jobAt r' k = Some j'"
  then show "\<exists>j. jobAt r k = Some j \<and> calm j j'"
    using pointwiseD [OF assms(3)] drift_calm inv_job [OF assms(1)] by blast
next
  fix k j j' assume "jobAt r k = Some j" "jobAt r' k = Some j'" "open_state (Status j)"
  then show "open_state (Status j')" using pointwiseE [OF assms(3)] drift_open by fastforce
qed (use assms in auto)

lemma finish_calm:
  assumes "job_ok j" and "finish i k j j'" and "k = i \<Longrightarrow> started j"
  shows "calm j j'"
proof (cases "k = i")
  case True
  with assms show ?thesis
    by (auto simp: finish_def calm_def outcome_state_def counted_states_def)
next
  case False
  with assms drift_calm show ?thesis by (simp add: finish_def)
qed

lemma inv_finishes:
  assumes inv: "inv r H I" and ok: "repo_ok r'" and "(i, w, g) \<in> set H"
    and j: "jobAt r i = Some j" "WorkerID j = w" "LeaseGeneration j = g" and fin: "finishes i r r'"
  shows "inv r' (remove1 (i, w, g) H) I"
  using inv ok
proof (rule inv_update)
  have st: "started j"
    using inv_token [OF inv assms(3) j(1)] inv_job [OF inv j(1)] j(3) by (simp add: job_ok_def)
  fix k j' assume "jobAt r' k = Some j'"
  then obtain x where "jobAt r k = Some x" "finish i k x j'" using pointwiseD [OF fin] by blast
  with st j(1) inv_job [OF inv] finish_calm show "\<exists>j. jobAt r k = Some j \<and> calm j j'"
    by (metis option.inject)
next
  have d: "distinct H" using inv by (simp add: inv_def tokens_ok_def)
  then show "set (remove1 (i, w, g) H) \<subseteq> set H" "distinct (remove1 (i, w, g) H)"
    by (auto simp: set_remove1_subset)
  fix k w' g' x x'
  assume a: "(k, w', g') \<in> set (remove1 (i, w, g) H)" "jobAt r k = Some x" "jobAt r' k = Some x'"
    "g' = LeaseGeneration x" "open_state (Status x)"
  have "k \<noteq> i"
  proof
    assume k: "k = i"
    have "(i, w', g') \<in> set H" using a(1) d by (simp add: k)
    then have "w' = w" "g' = g" using inv_token [OF inv, of i w' g'] a(2,4) j k by auto
    with a(1) d k show False by simp
  qed
  then have "drift x x'" using pointwiseE [OF fin a(2)] a(3) by (auto simp: finish_def)
  then show "open_state (Status x')" using a(5) by (rule drift_open)
qed

section \<open>Claiming\<close>

lemma claimed_sel [simp]:
  "ID (claimed now w l j) = ID j" "ChainID (claimed now w l j) = ChainID j"
  "Sequence (claimed now w l j) = Sequence j" "OrderingMode (claimed now w l j) = OrderingMode j"
  "Status (claimed now w l j) = StateProcessing" "WorkerID (claimed now w l j) = w"
  "LeaseGeneration (claimed now w l j) = LeaseGeneration j + 1" "started (claimed now w l j)"
  by (simp_all add: claimed_def started_def split: option.splits)

lemma inv_claimed:
  assumes inv: "inv r H I" and j: "jobAt r i = Some j" and idle: "\<not> claim_conflict r (ChainID j)"
  shows "inv (setJob i (claimed now w l j) r) ((i, w, LeaseGeneration j + 1) # H) I"
proof -
  let ?j = "claimed now w l j" and ?r = "setJob i (claimed now w l j) r"
  note idle = idle [unfolded claim_conflict_iff [OF inv_wf [OF inv]]]
  have ids: "ids_ok r I" "repo_ok r" "jobs_ok r" "one_processing r" "tokens_ok r H I"
    using inv by (simp_all add: inv_def)
  have "repo_ok ?r" using ids(2) j by (rule repo_ok_setJob) simp
  moreover have "ids_ok ?r I" using ids(1) j by (auto simp: ids_ok_def)
  moreover have "job_ok ?j"
    using job_okD(2) [OF inv_job [OF inv j]] by (simp add: job_ok_def counted_states_def)
  then have "jobs_ok ?r" using ids(3) by (auto simp: jobs_ok_def)
  moreover have "one_processing ?r"
    unfolding one_processing_def
  proof (intro allI impI)
    fix a b x y
    assume h: "jobAt ?r a = Some x \<and> jobAt ?r b = Some y \<and> ChainID x = ChainID y \<and>
        Status x = StateProcessing \<and> Status y = StateProcessing"
    show "a = b"
    proof (cases "a = i \<or> b = i")
      case True
      with h idle show ?thesis by (auto split: if_splits)
    next
      case False
      with h ids(4) show ?thesis unfolding one_processing_def by simp
    qed
  qed
  moreover have "tokens_ok ?r ((i, w, LeaseGeneration j + 1) # H) I"
  proof -
    have "(i, w, LeaseGeneration j + 1) \<notin> set H"
      using inv_token [OF inv _ j, of w "LeaseGeneration j + 1"] by auto
    moreover have "token_ok ?r (i, w, LeaseGeneration j + 1)"
      using job_okD(2) [OF inv_job [OF inv j]] by (simp add: token_ok_def open_state_def)
    moreover have "token_ok ?r t" if t: "t \<in> set H" for t
    proof -
      obtain k u g where tt: "t = (k, u, g)" by (metis prod_cases3)
      show ?thesis
      proof (cases "k = i")
        case True
        with inv_token [OF inv, of k u g j] t tt j show ?thesis by (auto simp: token_ok_def)
      next
        case False
        have "token_ok r t" using ids(5) t by (simp add: tokens_ok_def)
        with False show ?thesis by (simp add: token_ok_def tt)
      qed
    qed
    moreover have "i \<in> set I" using ids(1) j by (auto simp: ids_ok_def)
    ultimately show ?thesis using ids(5) by (auto simp: tokens_ok_def)
  qed
  ultimately show ?thesis by (simp add: inv_def)
qed

section \<open>Enqueueing\<close>

lemma job_ok_newJob:
  "st = StatePending \<or> st = StateBlocked \<Longrightarrow> job_ok (newJob now jid req q st)"
  by (auto simp: job_ok_def started_def counted_states_def outcome_state_def)

lemma determineInitialStatus_cases:
  "determineInitialStatus r c q = StatePending \<or> determineInitialStatus r c q = StateBlocked"
  by (simp add: determineInitialStatus_idAt split: option.splits)

lemma token_ok_insert:
  "fst t \<noteq> ID j \<Longrightarrow> token_ok (insertJob j r) t = token_ok r t"
  by (cases t) (simp add: token_ok_def)

lemma inv_enqueue:
  assumes inv: "inv r H I" and new: "jid \<notin> set I"
  shows "inv (snd (enqueueSingleInMemory now jid req r)) H (jid # I)"
proof (cases rule: enqueue_cases [of req now jid r])
  case (created q j)
  let ?r = "insertJob j r"
  have ids: "ids_ok r I" "repo_ok r" "jobs_ok r" "one_processing r" "tokens_ok r H I"
    using inv by (simp_all add: inv_def)
  have none: "jobAt r jid = None" using ids(1) new by (auto simp: ids_ok_def)
  have j: "ID j = jid" "job_ok j" "Status j \<noteq> StateProcessing"
    using created(4) determineInitialStatus_cases [of r "ChainID_req req" q]
    by (auto intro: job_ok_newJob)
  have "repo_ok ?r" using enqueueSingle_repo_ok [OF ids(2) none, of now req] created by simp
  moreover have "ids_ok ?r (jid # I)" using ids(1) j by (auto simp: ids_ok_def)
  moreover have "jobs_ok ?r" using ids(3) j by (auto simp: jobs_ok_def)
  moreover have "one_processing ?r"
    using ids(4) j(3) unfolding one_processing_def jobAt_insertJob by (metis option.inject)
  moreover have "tokens_ok ?r H (jid # I)"
  proof -
    have "fst t \<noteq> jid" if "t \<in> set H" for t using ids(5) that new by (auto simp: tokens_ok_def)
    then show ?thesis using ids(5) j(1) by (auto simp: tokens_ok_def token_ok_insert)
  qed
  ultimately show ?thesis using created by (simp add: inv_def)
qed (use inv inv_issued [OF inv, of "jid # I"] in auto)

lemma enqueue_loop_invariant:
  assumes step: "\<And>r I now jid req. P r I \<Longrightarrow> jid \<notin> set I \<Longrightarrow>
      P (snd (enqueueSingleInMemory now jid req r)) (jid # I)"
  shows "P r I \<Longrightarrow> distinct (map (snd \<circ> fst) reqs) \<Longrightarrow>
    set (map (snd \<circ> fst) reqs) \<inter> set I = {} \<Longrightarrow> enqueue_loop reqs out r = (Inr res, r') \<Longrightarrow>
    P r' (rev (map (snd \<circ> fst) reqs) @ I)"
proof (induction reqs arbitrary: r I out)
  case (Cons x reqs)
  obtain now jid req where x: "x = ((now, jid), req)" by (metis prod.exhaust)
  obtain j r1 where e: "enqueueSingleInMemory now jid req r = (Inr j, r1)"
    and rest: "enqueue_loop reqs (out @ [j]) r1 = (Inr res, r')"
    using Cons.prems(4) by (auto simp: x split: prod.splits sum.splits)
  have "P r1 (jid # I)" using step [OF Cons.prems(1), of jid now req] Cons.prems(3) by (simp add: x e)
  from Cons.IH [OF this _ _ rest] Cons.prems(2,3) show ?case by (auto simp: x)
qed simp

lemma EnqueueBatch_cases:
  obtains (failed) "snd (EnqueueBatch_mem reqs r) = r"
  | (success) out r' where "enqueue_loop reqs [] r = (Inr out, r')"
      "snd (EnqueueBatch_mem reqs r) = r'"
proof (cases "enqueue_loop reqs [] r")
  case (Pair res r')
  then show thesis using failed success by (cases res) (simp_all add: EnqueueBatch_mem_def Let_def)
qed

lemma inv_batch:
  assumes "inv r H I" and "distinct (map (snd \<circ> fst) reqs)"
    and "set (map (snd \<circ> fst) reqs) \<inter> set I = {}"
  shows "inv (snd (EnqueueBatch_mem reqs r)) H (map (snd \<circ> fst) reqs @ I)"
proof (cases rule: EnqueueBatch_cases [of reqs r])
  case failed
  then show ?thesis using inv_issued [OF assms(1)] by simp
next
  case (success out r')
  have "inv r' H (rev (map (snd \<circ> fst) reqs) @ I)"
    by (rule enqueue_loop_invariant [where P = "\<lambda>r I. inv r H I", OF _ assms success(1)])
       (rule inv_enqueue)
  then show ?thesis using inv_issued by (auto simp: success(2))
qed

section \<open>Reordering\<close>

lemma reordered_reads:
  assumes wf: "repo_wf r" and "reordered r r'"
  shows "jobAt r' = jobAt r" "idAt r' = idAt r" "repo_wf r'"
proof -
  obtain ch where m: "mset (jobs r') = mset (jobs r)" "mset ch = mset (chain r)"
    and l: "list_all2 (\<lambda>(c, m) (c', m'). c' = c \<and> mset m' = mset m) ch (chain r')"
    using assms(2) by (auto simp: reordered_def)
  have d: "distinct (keys (jobs r))" "distinct (keys (chain r))"
    using wf by (simp_all add: repo_wf_def)
  show j: "jobAt r' = jobAt r" using lookup_mset_eq(1) [OF m(1) [symmetric] d(1)] .
  have ch: "lookup ch = lookup (chain r)" "distinct (keys ch)"
    using lookup_mset_eq [OF m(2) [symmetric] d(2)] by simp_all
  have ks: "keys (chain r') = keys ch"
    using l by (induction rule: list_all2_induct) auto
  have rel: "(case lookup ch c of None \<Rightarrow> lookup (chain r') c = None
      | Some m \<Rightarrow> \<exists>m'. lookup (chain r') c = Some m' \<and> mset m' = mset m)" for c
    using l by (induction rule: list_all2_induct) (auto split: option.splits)
  show i: "idAt r' = idAt r"
  proof (intro ext)
    fix c q
    show "idAt r' c q = idAt r c q"
    proof (cases "lookup (chain r) c")
      case (Some m)
      then obtain m' where m': "lookup (chain r') c = Some m'" "mset m' = mset m"
        using rel [of c] by (auto simp: ch)
      have "distinct (keys m)" using repo_wf_chain [OF wf Some] by blast
      with lookup_mset_eq(1) [OF m'(2) [symmetric]] Some m' show ?thesis by (simp add: idAt_def)
    qed (use rel [of c] in \<open>simp add: ch idAt_def\<close>)
  qed
  have "distinct (keys (jobs r'))" using lookup_mset_eq(2) [OF m(1) [symmetric] d(1)] .
  moreover have "m' \<noteq> [] \<and> distinct (keys m')" if m': "lookup (chain r') c = Some m'" for c m'
  proof -
    obtain m where "lookup (chain r) c = Some m" "mset m' = mset m"
      using rel [of c] m' by (auto simp: ch split: option.splits)
    then show ?thesis
      using repo_wf_chain [OF wf, of c m] lookup_mset_eq(2) [of m m'] by auto
  qed
  moreover have "distinct (keys (chain r'))" using ch(2) ks by simp
  moreover have "\<forall>c q k. (idAt r c q = Some k) = (\<exists>j. jobAt r k = Some j \<and> ChainID j = c \<and> Sequence j = q)"
      "\<forall>k j. jobAt r k = Some j \<longrightarrow> ID j = k"
    using wf unfolding repo_wf_def by blast+
  ultimately show "repo_wf r'"
    unfolding repo_wf_def j i by (intro conjI allI impI) blast+
qed

section \<open>Every step keeps the invariants\<close>

lemma idem_unique_sub:
  "idem_unique r \<Longrightarrow> (\<And>k j. jobAt r' k = Some j \<Longrightarrow> jobAt r k = Some j) \<Longrightarrow> idem_unique r'"
  unfolding idem_unique_def by meson

lemma inv_reordered:
  assumes inv: "inv r H I" and ro: "reordered r r'"
  shows "inv r' H I"
proof -
  note reads = reordered_reads [OF inv_wf [OF inv] ro]
  have "idem_unique r'" using inv reads(1) by (auto simp: inv_def repo_ok_def intro: idem_unique_sub)
  with inv reads show ?thesis
    by (simp add: inv_def repo_ok_def ids_ok_def jobs_ok_def one_processing_def tokens_ok_def
        token_ok_def)
qed

lemma inv_distinct: "inv r H I \<Longrightarrow> distinct H"
  by (simp add: inv_def tokens_ok_def)

lemma inv_drift_op:
  assumes "inv r H I" and "evolves r r'" and "drifts r r'"
  shows "inv r' H I"
proof -
  have "repo_ok r'" using assms(1) evolves_repo_ok [OF assms(2)] by (simp add: inv_def)
  then show ?thesis using inv_drifts [OF assms(1)] assms(3) inv_distinct [OF assms(1)] by blast
qed

lemma inv_drop:
  assumes "inv r H I" shows "inv r (remove1 t H) I"
  by (rule inv_drifts [OF assms _ drifts_refl])
     (use assms inv_distinct [OF assms] in \<open>auto simp: inv_def set_remove1_subset\<close>)

lemma inv_finish_op:
  assumes inv: "inv r H I" and t: "(i, w, g) \<in> set H" and ev: "evolves r r'"
    and r': "r' \<in> {snd (Complete_mem now i w g r), snd (Fail_mem now i w g msg t' r),
      snd (Retry_mem now i w g msg at r), snd (ConfirmCancel_mem now i w g r)}"
  shows "inv r' (remove1 (i, w, g) H) I"
  using finishing_ops [OF inv_wf [OF inv] r']
proof
  assume "r' = r"
  then show ?thesis using inv_drop [OF inv] by simp
next
  assume "\<exists>j. jobAt r i = Some j \<and> WorkerID j = w \<and> LeaseGeneration j = g \<and> finishes i r r'"
  then obtain j where "jobAt r i = Some j" "WorkerID j = w" "LeaseGeneration j = g" "finishes i r r'"
    by blast
  moreover have "repo_ok r'" using inv evolves_repo_ok [OF ev] by (simp add: inv_def)
  ultimately show ?thesis using inv_finishes [OF inv _ t] by blast
qed

lemma inv_finish_ops:
  assumes inv: "inv r H I" and t: "(i, w, g) \<in> set H"
  shows "inv (snd (Complete_mem now i w g r)) (remove1 (i, w, g) H) I"
    and "inv (snd (Fail_mem now i w g msg t' r)) (remove1 (i, w, g) H) I"
    and "inv (snd (Retry_mem now i w g msg at r)) (remove1 (i, w, g) H) I"
    and "inv (snd (ConfirmCancel_mem now i w g r)) (remove1 (i, w, g) H) I"
  by (rule inv_finish_op [OF inv t, where now = now and msg = msg and t' = t' and at = at],
      rule evolves_Complete [OF inv_wf [OF inv]] evolves_lease_ops, simp)+

lemma inv_claim_op:
  assumes inv: "inv r H I" and c: "Claim_mem now w l r = (Inr j, r')"
  shows "inv r' ((ID j, w, LeaseGeneration j) # H) I"
proof (cases rule: Claim_cases [OF inv_wf [OF inv], of now w l, case_names none some])
  case (some x)
  then have "j = claimed now w l x" "r' = setJob (ID x) (claimed now w l x) r" using c by auto
  with inv_claimed [OF inv some(1,3)] show ?thesis by simp
qed (use c in simp)

lemmas sys_drifts = drifts_ops drifts_recover drifts_skip drifts_bulk_skip drifts_Promote

lemmas sys_evolves = evolves_ops evolves_bulk_skip evolves_bulk_replay

lemma inv_sstep:
  assumes "sstep s s'" and inv: "inv (store s) (held s) (issued s)"
  shows "inv (store s') (held s') (issued s')"
proof -
  note fin = inv_finish_ops [OF inv] and dr = inv_drift_op [OF inv]
    and wf = inv_wf [OF inv]
  show ?thesis
    using assms(1)
  proof cases
    case (enqueue jid now req)
    then show ?thesis using inv_enqueue [OF inv] by (simp add: Enqueue_mem_def)
  next
    case (enqueue_batch reqs)
    then show ?thesis using inv_batch [OF inv] by simp
  next
    case (claim now w l j r')
    then show ?thesis using inv_claim_op [OF inv] by simp
  next
    case (complete i w g now)
    then show ?thesis by (simp add: fin)
  next
    case (fail i w g now msg t)
    then show ?thesis by (simp add: fin)
  next
    case (retry i w g now msg at)
    then show ?thesis by (simp add: fin)
  next
    case (confirm_cancel i w g now)
    then show ?thesis by (simp add: fin)
  next
    case (release tok)
    then show ?thesis using inv_drop [OF inv] by simp
  next
    case (reorder r')
    then show ?thesis using inv_reordered [OF inv] by simp
  qed (simp_all add: dr wf sys_evolves sys_drifts)
qed

section \<open>The operator's steps\<close>

lemma taken_back_calm: "job_ok j \<Longrightarrow> taken_back j j' \<Longrightarrow> calm j j'"
  using drift_calm [of j j]
  by (auto simp: taken_back_def) (simp add: calm_def counted_states_def outcome_state_def)

lemma taken_back_open: "taken_back j j' \<Longrightarrow> open_state (Status j) \<Longrightarrow> open_state (Status j')"
  by (auto simp: taken_back_def open_state_def replayable_def)

lemma inv_taken_back:
  assumes inv: "inv r H I" and ok: "repo_ok r'"
    and tb: "\<And>k j'. jobAt r' k = Some j' \<Longrightarrow> \<exists>j. jobAt r k = Some j \<and> taken_back j j'"
  shows "inv r' H I"
  using inv ok
proof (rule inv_update)
  show "distinct H" by (rule inv_distinct [OF inv])
  fix k j' assume "jobAt r' k = Some j'"
  then show "\<exists>j. jobAt r k = Some j \<and> calm j j'" using tb taken_back_calm inv_job [OF inv] by blast
next
  fix k j j' assume "jobAt r k = Some j" "jobAt r' k = Some j'" "open_state (Status j)"
  then show "open_state (Status j')" using tb [of k j'] taken_back_open by auto
qed simp

lemma replay_taken_back:
  "jobAt (snd (ReplayJob_mem now i r)) k = Some j' \<Longrightarrow> \<exists>j. jobAt r k = Some j \<and> taken_back j j'"
  "jobAt (snd (ReplayJobWithPayload_mem now i pl r)) k = Some j' \<Longrightarrow>
   \<exists>j. jobAt r k = Some j \<and> taken_back j j'"
  by (auto simp: ReplayJob_mem_def ReplayJobWithPayload_mem_def taken_back_def Let_def
      split: option.splits if_splits)

lemma bulk_replay_taken_back:
  "repo_wf r \<Longrightarrow> jobAt (snd (BulkReplayDLQ_mem us now f r)) k = Some j' \<Longrightarrow>
   \<exists>j. jobAt r k = Some j \<and> taken_back j j'"
  using dlq_replayable
  by (auto simp: BulkReplayDLQ_mem_def bulk_replay.run_jobAt taken_back_def
      split: option.splits if_splits)

lemma bulk_purge_sub:
  "repo_wf r \<Longrightarrow> jobAt (snd (BulkPurgeDLQ_mem us f r)) k = Some j' \<Longrightarrow> jobAt r k = Some j'"
  by (auto simp: BulkPurgeDLQ_mem_def bulk_purge.run_jobAt split: option.splits if_splits)

lemma repo_ok_purge:
  assumes "repo_ok r" shows "repo_ok (snd (BulkPurgeDLQ_mem us f r))"
proof -
  have wf: "repo_wf r" using assms by (simp add: repo_ok_def)
  have "repo_wf (snd (BulkPurgeDLQ_mem us f r))"
    unfolding BulkPurgeDLQ_mem_def by (rule bulk_purge.loop_wf [OF wf])
  moreover have "idem_unique (snd (BulkPurgeDLQ_mem us f r))"
    using assms bulk_purge_sub [OF wf] by (auto simp: repo_ok_def intro: idem_unique_sub)
  ultimately show ?thesis by (simp add: repo_ok_def)
qed

lemma inv_ostep:
  assumes "ostep s s'" and inv: "inv (store s) (held s) (issued s)"
  shows "inv (store s') (held s') (issued s')"
proof -
  note wf = inv_wf [OF inv] and tb = inv_taken_back [OF inv]
  have ok: "repo_ok (store s)" using inv by (simp add: inv_def)
  show ?thesis
    using assms(1)
  proof cases
    case (replay now i)
    then show ?thesis
      using tb [OF evolves_repo_ok [OF evolves_cancel_replay(2) ok] replay_taken_back(1)] by simp
  next
    case (replay_payload now i pl)
    then show ?thesis
      using tb [OF evolves_repo_ok [OF evolves_cancel_replay(3) ok] replay_taken_back(2)] by simp
  next
    case (bulk_replay us now f)
    then show ?thesis
      using tb [OF evolves_repo_ok [OF evolves_bulk_replay [OF wf] ok] bulk_replay_taken_back [OF wf]]
      by simp
  next
    case (bulk_purge us f)
    have "\<exists>j. jobAt (store s) k = Some j \<and> taken_back j j'"
      if "jobAt (snd (BulkPurgeDLQ_mem us f (store s))) k = Some j'" for k j'
      using bulk_purge_sub [OF wf that] by (auto simp: taken_back_def)
    with tb [OF repo_ok_purge [OF ok]] bulk_purge show ?thesis by simp
  qed
qed

lemma reach_inv: "reach operator s \<Longrightarrow> inv (store s) (held s) (issued s)"
  by (induction rule: reach.induct) (auto simp: sys_init_def inv_init intro: inv_sstep inv_ostep)

section \<open>First in, first out\<close>

lemma finished_not_open: "isPredFinished p \<Longrightarrow> \<not> open_state (Status p)"
  by (auto simp: isPredFinished_def open_state_def)

lemma drift_finished: "drift p p' \<Longrightarrow> isPredFinished p \<Longrightarrow> isPredFinished p'"
  by (auto simp: drift_def isPredFinished_def kept_def same_identity_def)

lemma fifo_update:
  assumes fifo: "fifo r"
    and kept: "\<And>k j'. jobAt r' k = Some j' \<Longrightarrow> \<exists>j. jobAt r k = Some j \<and> kept j j'"
    and fin: "\<And>k p. jobAt r k = Some p \<Longrightarrow> isPredFinished p \<Longrightarrow>
      \<exists>p'. jobAt r' k = Some p' \<and> kept p p' \<and> isPredFinished p'"
  shows "fifo r'"
  unfolding fifo_def
proof (intro allI impI)
  fix i j' assume a: "jobAt r' i = Some j' \<and> started j' \<and> Sequence j' \<noteq> 1"
  obtain j where j: "jobAt r i = Some j" "kept j j'" using kept a by blast
  note js = kept_sel [OF j(2)]
  obtain k p where p: "jobAt r k = Some p" "ChainID p = ChainID j" "Sequence p = Sequence j - 1"
      "isPredFinished p" using fifo a j(1) js unfolding fifo_def by metis
  obtain p' where p': "jobAt r' k = Some p'" "kept p p'" "isPredFinished p'" using fin p by blast
  with p js kept_sel [OF p'(2)] show "\<exists>k p. jobAt r' k = Some p \<and> ChainID p = ChainID j' \<and>
      Sequence p = Sequence j' - 1 \<and> isPredFinished p" by (metis)
qed

lemma fifo_drifts:
  assumes "fifo r" and "drifts r r'"
  shows "fifo r'"
  using assms(1)
proof (rule fifo_update)
  fix k j' assume "jobAt r' k = Some j'"
  then show "\<exists>j. jobAt r k = Some j \<and> kept j j'"
    using pointwiseD [OF assms(2)] by (auto simp: drift_def)
next
  fix k p assume "jobAt r k = Some p" "isPredFinished p"
  then show "\<exists>p'. jobAt r' k = Some p' \<and> kept p p' \<and> isPredFinished p'"
    using pointwiseE [OF assms(2)] drift_finished by (metis drift_def)
qed

lemma fifo_finishes:
  assumes "fifo r" and fin: "finishes i r r'" and j: "jobAt r i = Some j" "open_state (Status j)"
  shows "fifo r'"
  using assms(1)
proof (rule fifo_update)
  fix k j' assume "jobAt r' k = Some j'"
  then show "\<exists>j. jobAt r k = Some j \<and> kept j j'"
    using pointwiseD [OF fin] by (fastforce simp: finish_def drift_def split: if_splits)
next
  fix k p assume p: "jobAt r k = Some p" "isPredFinished p"
  then have "k \<noteq> i" using j finished_not_open by auto
  then obtain p' where "jobAt r' k = Some p'" "drift p p'"
    using pointwiseE [OF fin p(1)] by (auto simp: finish_def)
  then show "\<exists>p'. jobAt r' k = Some p' \<and> kept p p' \<and> isPredFinished p'"
    using p(2) drift_finished by (auto simp: drift_def)
qed

lemma fifo_finish_op:
  assumes inv: "inv r H I" and t: "(i, w, g) \<in> set H" and "fifo r"
    and r': "r' \<in> {snd (Complete_mem now i w g r), snd (Fail_mem now i w g msg t' r),
      snd (Retry_mem now i w g msg at r), snd (ConfirmCancel_mem now i w g r)}"
  shows "fifo r'"
  using finishing_ops [OF inv_wf [OF inv] r'] fifo_finishes [OF assms(3)] inv_token [OF inv t] assms(3)
  by blast

lemma fifo_claimed:
  assumes wf: "repo_wf r" and fifo: "fifo r" and i: "jobAt r i = Some j"
    and el: "claim_eligible r now j"
  shows "fifo (setJob i (claimed now w l j) r)"
proof -
  let ?r = "setJob i (claimed now w l j) r"
  have nf: "\<not> isPredFinished j"
    using el by (auto simp: claim_eligible_iff [OF wf] isPredFinished_def)
  have keep: "jobAt ?r k = Some p" if "jobAt r k = Some p" "isPredFinished p" for k p
    using that nf i by auto
  show ?thesis
    unfolding fifo_def
  proof (intro allI impI)
    fix a x assume x: "jobAt ?r a = Some x \<and> started x \<and> Sequence x \<noteq> 1"
    have "\<exists>k p. jobAt r k = Some p \<and> ChainID p = ChainID x \<and> Sequence p = Sequence x - 1 \<and>
        isPredFinished p"
    proof (cases "a = i")
      case True
      then have "x = claimed now w l j" "Sequence j \<noteq> 1" using x by auto
      with el show ?thesis unfolding claim_eligible_iff [OF wf] by simp
    next
      case False
      with x have "jobAt r a = Some x \<and> started x \<and> Sequence x \<noteq> 1" by simp
      with fifo show ?thesis unfolding fifo_def by blast
    qed
    with keep show "\<exists>k p. jobAt ?r k = Some p \<and> ChainID p = ChainID x \<and>
        Sequence p = Sequence x - 1 \<and> isPredFinished p" by blast
  qed
qed

lemma fifo_enqueue:
  assumes "fifo r" and "jobAt r jid = None"
  shows "fifo (snd (enqueueSingleInMemory now jid req r))"
proof (cases rule: enqueue_cases [of req now jid r])
  case (created q j)
  then have j: "ID j = jid" "\<not> started j" by (simp_all add: started_def)
  show ?thesis
    using assms j created unfolding fifo_def by simp (metis option.distinct(1) option.inject)
qed (use assms in simp_all)

lemma fifo_batch:
  assumes "inv r H I" and "fifo r" and "distinct (map (snd \<circ> fst) reqs)"
    and "set (map (snd \<circ> fst) reqs) \<inter> set I = {}"
  shows "fifo (snd (EnqueueBatch_mem reqs r))"
proof (cases rule: EnqueueBatch_cases [of reqs r])
  case failed
  then show ?thesis using assms(2) by simp
next
  case (success out r')
  have "inv r' H (rev (map (snd \<circ> fst) reqs) @ I) \<and> fifo r'"
  proof (rule enqueue_loop_invariant [where P = "\<lambda>r I. inv r H I \<and> fifo r", OF _ _ assms(3,4) success(1)])
    fix r I now jid req
    assume a: "inv r H I \<and> fifo r" "jid \<notin> set I"
    then have "jobAt r jid = None" by (auto simp: inv_def ids_ok_def)
    with a show "inv (snd (enqueueSingleInMemory now jid req r)) H (jid # I) \<and>
        fifo (snd (enqueueSingleInMemory now jid req r))"
      using inv_enqueue fifo_enqueue by blast
  qed (use assms in blast)
  then show ?thesis by (simp add: success(2))
qed

lemma fifo_claim_op:
  assumes inv: "inv r H I" and "fifo r" and c: "Claim_mem now w l r = (Inr j, r')"
  shows "fifo r'"
proof (cases rule: Claim_cases [OF inv_wf [OF inv], of now w l, case_names none some])
  case (some x)
  with c fifo_claimed [OF inv_wf [OF inv] assms(2) some(1,2)] show ?thesis by auto
qed (use c in simp)

lemma fifo_finish_ops:
  assumes inv: "inv r H I" and "fifo r" and t: "(i, w, g) \<in> set H"
  shows "fifo (snd (Complete_mem now i w g r))" and "fifo (snd (Fail_mem now i w g msg t' r))"
    and "fifo (snd (Retry_mem now i w g msg at r))" and "fifo (snd (ConfirmCancel_mem now i w g r))"
  by (rule fifo_finish_op [OF inv t assms(2), where now = now and msg = msg and t' = t' and at = at],
      simp)+

lemma fifo_sstep:
  assumes "sstep s s'" and inv: "inv (store s) (held s) (issued s)" and fifo: "fifo (store s)"
  shows "fifo (store s')"
proof -
  note fin = fifo_finish_ops [OF inv fifo] and dr = fifo_drifts [OF fifo] and wf = inv_wf [OF inv]
  show ?thesis
    using assms(1)
  proof cases
    case (enqueue jid now req)
    then have "jobAt (store s) jid = None" using inv by (auto simp: inv_def ids_ok_def)
    with fifo_enqueue [OF fifo] enqueue show ?thesis by (simp add: Enqueue_mem_def)
  next
    case (enqueue_batch reqs)
    then show ?thesis using fifo_batch [OF inv fifo] by simp
  next
    case (claim now w l j r')
    then show ?thesis using fifo_claim_op [OF inv fifo] by simp
  next
    case (reorder r')
    then show ?thesis using fifo reordered_reads(1) [OF wf] by (simp add: fifo_def)
  qed (simp_all add: dr fin fifo wf sys_drifts)
qed

lemma reach_fifo: "reach False s \<Longrightarrow> fifo (store s)"
proof (induction rule: reach.induct)
  case init
  show ?case by (simp add: fifo_def sys_init_def New_mem_def)
next
  case (step s s')
  then show ?case using fifo_sstep reach_inv by blast
qed simp

section \<open>Gap-free chains\<close>

lemma gap_free_batch:
  assumes "gap_free r" and "distinct (map (snd \<circ> fst) reqs)"
    and "set (map (snd \<circ> fst) reqs) \<inter> set I = {}"
  shows "gap_free (snd (EnqueueBatch_mem reqs r))"
proof (cases rule: EnqueueBatch_cases [of reqs r])
  case (success out r')
  have "gap_free r'"
    by (rule enqueue_loop_invariant [where P = "\<lambda>r I. gap_free r", OF _ assms success(1)])
       (rule enqueueSingle_gap_free)
  then show ?thesis by (simp add: success(2))
qed (use assms in simp)

lemma gap_free_sstep:
  assumes "sstep s s'" and inv: "inv (store s) (held s) (issued s)" and gf: "gap_free (store s)"
  shows "gap_free (store s')"
proof -
  note wf = inv_wf [OF inv]
  have ev: "evolves (store s) r' \<Longrightarrow> gap_free r'" for r' using gf by (simp add: evolves_gap_free)
  show ?thesis
    using assms(1)
  proof cases
    case (enqueue jid now req)
    then show ?thesis using enqueueSingle_gap_free [OF gf] by (simp add: Enqueue_mem_def)
  next
    case (enqueue_batch reqs)
    then show ?thesis using gap_free_batch [OF gf] by simp
  next
    case (claim now w l j r')
    then show ?thesis using ev [OF evolves_Claim [OF wf, of now w l]] by simp
  next
    case (reorder r')
    then show ?thesis using gf reordered_reads(2) [OF wf] by (simp add: gap_free_def)
  qed (simp_all add: ev gf wf sys_evolves)
qed

lemma reach_gap_free: "reach False s \<Longrightarrow> gap_free (store s)"
proof (induction rule: reach.induct)
  case init
  show ?case by (simp add: gap_free_def sys_init_def New_mem_def idAt_def)
next
  case (step s s')
  then show ?case using gap_free_sstep reach_inv by blast
qed simp

end
