(* ===== verification/System_Props.thy ===== *)
theory System_Props
  imports System_Inv
begin

text \<open>
  What the system guarantees in the states it reaches when workers use a lease token for one
  finishing call: one job of a chain at a time, fencing, only nine of the eleven states; without
  replays and purges also first-in first-out order and contiguous numbers. Lemmas on blocked jobs
  for theory System_Calls, which drops that discipline.
\<close>

section \<open>No lost promotion\<close>

text \<open>A blocked job waits for a predecessor that is there and has not been completed.\<close>

definition waits_rightly :: "repo \<Rightarrow> bool" where
  "waits_rightly r \<longleftrightarrow>
     (\<forall>i j. jobAt r i = Some j \<and> Status j = StateBlocked \<longrightarrow>
        (\<exists>k p. jobAt r k = Some p \<and> ChainID p = ChainID j \<and> Sequence p = Sequence j - 1 \<and>
               Status p \<noteq> StateCompleted))"

lemma waits_update:
  assumes w: "waits_rightly r"
    and old: "\<And>k j'. jobAt r' k = Some j' \<Longrightarrow> Status j' = StateBlocked \<Longrightarrow>
      \<exists>j. jobAt r k = Some j \<and> same_identity j j' \<and> Status j = StateBlocked"
    and kept: "\<And>k j. jobAt r k = Some j \<Longrightarrow> \<exists>j'. jobAt r' k = Some j' \<and> same_identity j j'"
    and completes: "\<And>k p p' m s'. jobAt r k = Some p \<Longrightarrow> Status p \<noteq> StateCompleted \<Longrightarrow>
      jobAt r' k = Some p' \<Longrightarrow> Status p' = StateCompleted \<Longrightarrow> jobAt r' m = Some s' \<Longrightarrow>
      ChainID s' = ChainID p \<Longrightarrow> Sequence s' = Sequence p + 1 \<Longrightarrow> Status s' \<noteq> StateBlocked"
  shows "waits_rightly r'"
  unfolding waits_rightly_def
proof (intro allI impI)
  fix i j' assume a: "jobAt r' i = Some j' \<and> Status j' = StateBlocked"
  obtain j where j: "jobAt r i = Some j" "same_identity j j'" "Status j = StateBlocked"
    using old a by blast
  obtain k p where p: "jobAt r k = Some p" "ChainID p = ChainID j" "Sequence p = Sequence j - 1"
      "Status p \<noteq> StateCompleted" using w j(1,3) unfolding waits_rightly_def by blast
  obtain p' where p': "jobAt r' k = Some p'" "same_identity p p'" using kept p(1) by blast
  have "Status p' \<noteq> StateCompleted"
    using completes [OF p(1,4) p'(1), of i j'] a j(2) p(2,3) by (auto simp: same_identity_def)
  with p p' j(2) show "\<exists>k p. jobAt r' k = Some p \<and> ChainID p = ChainID j' \<and>
      Sequence p = Sequence j' - 1 \<and> Status p \<noteq> StateCompleted"
    by (auto simp: same_identity_def)
qed

text \<open>Operations that complete nothing.\<close>

definition no_completion :: "job \<Rightarrow> job \<Rightarrow> bool" where
  "no_completion j j' \<longleftrightarrow> same_identity j j' \<and>
     (Status j' = StateBlocked \<longrightarrow> Status j = StateBlocked) \<and>
     (Status j' = StateCompleted \<longrightarrow> Status j = StateCompleted)"

lemma waits_no_completion:
  assumes "waits_rightly r" and "pointwise (\<lambda>k. no_completion) r r'"
  shows "waits_rightly r'"
  using assms(1)
proof (rule waits_update)
  fix k j' assume "jobAt r' k = Some j'" "Status j' = StateBlocked"
  then show "\<exists>j. jobAt r k = Some j \<and> same_identity j j' \<and> Status j = StateBlocked"
    using pointwiseD [OF assms(2)] by (auto simp: no_completion_def)
next
  fix k j assume "jobAt r k = Some j"
  then show "\<exists>j'. jobAt r' k = Some j' \<and> same_identity j j'"
    using pointwiseE [OF assms(2)] by (auto simp: no_completion_def)
next
  fix k p p' m s'
  assume "jobAt r k = Some p" "Status p \<noteq> StateCompleted" "jobAt r' k = Some p'"
    "Status p' = StateCompleted"
  then have False using pointwiseE [OF assms(2)] by (fastforce simp: no_completion_def)
  then show "Status s' \<noteq> StateBlocked" ..
qed

lemma no_completion_simps [simp]:
  "no_completion j j" "no_completion j (failed now e t j)" "no_completion j (retrying now e a j)"
  "no_completion j (recovered now p j)" "no_completion j (unblocked now j)"
  "no_completion j (claimed now w l j)"
  "no_completion j (j\<lparr>Status := StateCancelRequested, UpdatedAt := now\<rparr>)"
  "no_completion j (j\<lparr>Status := StateCancelled, UpdatedAt := now, LeaseUntil := None\<rparr>)"
  "no_completion j (j\<lparr>LeaseUntil := u, UpdatedAt := now\<rparr>)"
  "no_completion j (j\<lparr>AvailableAt := a, UpdatedAt := now\<rparr>)"
  by (simp_all add: no_completion_def)

lemma nc_refl: "pointwise (\<lambda>k. no_completion) r r"
  by (rule pointwise_refl) simp

lemma nc_setJob:
  "jobAt r i = Some j \<Longrightarrow> no_completion j j' \<Longrightarrow> pointwise (\<lambda>k. no_completion) r (setJob i j' r)"
  by (rule pointwise_setJob) simp_all

lemma nc_with_lease:
  "(\<And>j. jobAt r i = Some j \<Longrightarrow> no_completion j (f j)) \<Longrightarrow>
   pointwise (\<lambda>k. no_completion) r (snd (with_lease i w g r (\<lambda>j. setJob i (f j) r)))"
  by (auto simp: with_lease_def nc_refl nc_setJob split: option.splits)

lemma nc_ops:
  "pointwise (\<lambda>k. no_completion) r (snd (Fail_mem now i w g e t r))"
  "pointwise (\<lambda>k. no_completion) r (snd (Retry_mem now i w g e a r))"
  "pointwise (\<lambda>k. no_completion) r (snd (Heartbeat_mem now i w g l r))"
  "pointwise (\<lambda>k. no_completion) r (snd (ConfirmCancel_mem now i w g r))"
  "pointwise (\<lambda>k. no_completion) r (snd (RequestCancel_mem now i r))"
  "pointwise (\<lambda>k. no_completion) r (snd (RescheduleJob_mem now i a r))"
  by (auto simp: Fail_mem_def Retry_mem_def Heartbeat_mem_def ConfirmCancel_mem_def
      RequestCancel_mem_def RescheduleJob_mem_def Let_def nc_refl
      intro!: nc_with_lease nc_setJob split: option.splits)

lemma nc_recover: "pointwise (\<lambda>k. no_completion) r (snd (RecoverStale_mem now limit p r))"
proof (rule pointwiseI)
  fix k j assume "jobAt r k = Some j"
  then show "\<exists>j'. jobAt (snd (RecoverStale_mem now limit p r)) k = Some j' \<and> no_completion j j'"
    using recover_loop_jobAt [of r k j now limit p "keys (jobs r)" 0]
    by (auto simp: RecoverStale_mem_def)
qed (use evolves_jobAt_None [OF evolves_Recover] in blast)

lemma nc_promote:
  "repo_wf r \<Longrightarrow> pointwise (\<lambda>k. no_completion) r (snd (PromoteNext_mem now c q r))"
  by (rule pointwiseI) (auto simp: PromoteNext_mem_def jobAt_promote)

lemma nc_claim:
  assumes "repo_wf r" shows "pointwise (\<lambda>k. no_completion) r (snd (Claim_mem now w l r))"
  by (cases rule: Claim_cases [OF assms, of now w l, case_names none some])
     (auto simp: nc_refl intro: nc_setJob)

text \<open>Completing with promotion.\<close>

lemma waits_completed:
  assumes wf: "repo_wf r" and w: "waits_rightly r" and i: "jobAt r i = Some j"
  shows "waits_rightly (skip_one now i j r)"
  using w
proof (rule waits_update)
  note at = jobAt_skip_one [OF wf i]
  have ev: "evolves r (skip_one now i j r)" by (rule evolves_skip_one [OF wf i])
  show "\<exists>x'. jobAt (skip_one now i j r) k = Some x' \<and> same_identity x x'"
    if "jobAt r k = Some x" for k x using evolves_jobAt [OF ev that] .
  show "\<exists>x. jobAt r k = Some x \<and> same_identity x x' \<and> Status x = StateBlocked"
    if "jobAt (skip_one now i j r) k = Some x'" "Status x' = StateBlocked" for k x'
    using that by (auto simp: at split: if_splits)
  show "Status s' \<noteq> StateBlocked"
    if h: "jobAt r k = Some p" "Status p \<noteq> StateCompleted" "jobAt (skip_one now i j r) k = Some p'"
      "Status p' = StateCompleted" "jobAt (skip_one now i j r) m = Some s'"
      "ChainID s' = ChainID p" "Sequence s' = Sequence p + 1" for k p p' m s'
  proof -
    have k: "k = i" using h(1-4) by (auto simp: at split: if_splits)
    then have p: "p = j" using h(1) i by simp
    show ?thesis
    proof (cases "m = i")
      case True
      with h(5) show ?thesis by (auto simp: at)
    next
      case False
      then obtain s where s: "jobAt r m = Some s" "same_identity s s'"
        using evolves_jobAt [OF ev] h(5) evolves_jobAt_None [OF ev, of m]
        by (metis not_None_eq option.inject)
      then have "ChainID s = ChainID j" "Sequence s = Sequence j + 1"
        using h(6,7) by (simp_all add: same_identity_def p)
      with s(1) False h(5) show ?thesis
        unfolding jobAt_skip_one_job [OF wf i s(1)] by (auto split: if_splits)
    qed
  qed
qed

lemma waits_complete_ops:
  assumes wf: "repo_wf r" and w: "waits_rightly r"
  shows "waits_rightly (snd (Complete_mem now i wk g r))"
    and "waits_rightly (snd (SkipJob_mem now i r))"
  using waits_completed [OF wf w, unfolded skip_one_def] w
  by (auto simp: Complete_mem_def with_lease_def SkipJob_mem_def split: option.splits)

lemma waits_bulk_skip:
  assumes "repo_wf r" and "waits_rightly r"
  shows "waits_rightly (snd (BulkSkipDLQ_mem us now f r))"
proof -
  have "waits_rightly r \<Longrightarrow>
      waits_rightly (snd (bulk_loop (\<lambda>j. matchesDLQFilter us j f) (skip_one now) ids n r))" for ids n
    using assms(1)
  proof (induction r rule: bulk_skip.loop_induct
      [where ids = ids and n = n and us = us and f = f and now = now])
    case (hit i ids n r j)
    then show ?case using waits_completed by simp
  qed simp_all
  then show ?thesis using assms(2) unfolding BulkSkipDLQ_mem_def by blast
qed

lemma waits_enqueue:
  assumes wf: "repo_wf r" and w: "waits_rightly r" and gf: "gap_free r" and none: "jobAt r jid = None"
  shows "waits_rightly (snd (enqueueSingleInMemory now jid req r))"
proof (cases rule: enqueue_cases [of req now jid r])
  case (created q j)
  let ?r = "insertJob j r"
  have old: "jobAt ?r k = Some p" if "jobAt r k = Some p" for k p
    using that none created(4) by auto
  have "\<exists>k p. jobAt r k = Some p \<and> ChainID p = ChainID x \<and> Sequence p = Sequence x - 1 \<and>
      Status p \<noteq> StateCompleted"
    if x: "jobAt ?r i = Some x" "Status x = StateBlocked" for i x
  proof (cases "i = jid")
    case False
    with x created(4) have "jobAt r i = Some x" by simp
    with w x(2) show ?thesis unfolding waits_rightly_def by blast
  next
    case True
    then have xj: "x = j" using x(1) created(4) by simp
    have q: "1 < q" using x(2) created(4) by (auto simp: xj determineInitialStatus_idAt split: if_splits)
    note v = validate_accepts [OF created(3)]
    obtain k where k: "idAt r (ChainID_req req) (q - 1) = Some k"
      using gap_free_next(2) [OF gf v(1) q v(2)] by blast
    from x(2) q k have "\<not> isPredFinished (job_or_zero r k)"
      by (auto simp: xj created(4) determineInitialStatus_idAt)
    with repo_wf_job_or_zero [OF wf k] created(4) show ?thesis
      by (intro exI [of _ k] exI [of _ "job_or_zero r k"]) (auto simp: xj isPredFinished_def)
  qed
  with old have "waits_rightly ?r" unfolding waits_rightly_def by blast
  with created show ?thesis by simp
qed (use w in simp_all)

section \<open>Properties\<close>

text \<open>Reachable states for closed instances: two jobs of a chain enqueued, the first claimed.\<close>

definition sys_two :: sys where
  "sys_two = \<lparr>store = two_jobs, held = [], issued = [8, 7]\<rparr>"

definition sys_claimed :: sys where
  "sys_claimed = \<lparr>store = two_jobs_claimed, held = [(7, ''w'', 1)], issued = [8, 7]\<rparr>"

lemma reach_sys_two: "reach operator sys_two"
proof -
  let ?s1 = "\<lparr>store = one_job, held = [], issued = [7]\<rparr>"
  have "sstep sys_init ?s1"
    using sstep.enqueue [of 7 sys_init 5 "sample_req ''c'' 1 []"]
    by (simp add: sys_init_def one_job_def)
  then have r1: "reach operator ?s1" by (rule reach.step [OF reach.init])
  have "sstep ?s1 sys_two"
    using sstep.enqueue [of 8 ?s1 6 "sample_req ''c'' 0 []"]
    by (simp add: sys_two_def two_jobs_def)
  with r1 show ?thesis by (rule reach.step)
qed

lemma reach_sys_claimed: "reach operator sys_claimed"
proof -
  let ?c = "Claim_mem 10 ''w'' 30 two_jobs"
  have c: "?c = (Inr (projr (fst ?c)), snd ?c)" "ID (projr (fst ?c)) = 7"
    "LeaseGeneration (projr (fst ?c)) = 1" by code_simp+
  have "sstep sys_two sys_claimed"
    using sstep.claim [of 10 "''w''" 30 sys_two "projr (fst ?c)" "snd ?c"] c
    by (simp add: sys_two_def sys_claimed_def two_jobs_claimed_def)
  with reach_sys_two show ?thesis by (rule reach.step)
qed

definition two_jobs_second :: repo where
  "two_jobs_second = snd (Claim_mem 30 ''v'' 30 (snd (Complete_mem 20 7 ''w'' 1 two_jobs_claimed)))"

definition sys_second :: sys where
  "sys_second = \<lparr>store = two_jobs_second, held = [(8, ''v'', 1)], issued = [8, 7]\<rparr>"

lemma reach_sys_second: "reach operator sys_second"
proof -
  let ?r = "snd (Complete_mem 20 7 ''w'' 1 two_jobs_claimed)"
  let ?s = "\<lparr>store = ?r, held = [], issued = [8, 7]\<rparr>"
  let ?c = "Claim_mem 30 ''v'' 30 ?r"
  have c: "?c = (Inr (projr (fst ?c)), snd ?c)" "ID (projr (fst ?c)) = 8"
    "LeaseGeneration (projr (fst ?c)) = 1" by code_simp+
  have "sstep sys_claimed ?s"
    using sstep.complete [of 7 "''w''" 1 sys_claimed 20] by (simp add: sys_claimed_def)
  with reach_sys_claimed have "reach operator ?s" by (rule reach.step)
  moreover have "sstep ?s sys_second"
    using sstep.claim [of 30 "''v''" 30 ?s "projr (fst ?c)" "snd ?c"] c
    by (simp add: sys_second_def two_jobs_second_def)
  ultimately show ?thesis by (rule reach.step)
qed

text \<open>C2: one job of a chain at a time. Whatever producers, workers and operators do (a worker using a
  lease token for one finishing call), in every reachable state at most one job of a chain is being processed.\<close>

theorem one_job_at_a_time:
  assumes "reach operator s"
    and "jobAt (store s) i = Some j" and "jobAt (store s) k = Some j'" and "ChainID j = ChainID j'"
    and "Status j = StateProcessing" and "Status j' = StateProcessing"
  shows "i = k"
  using reach_inv [OF assms(1)] assms(2-6) unfolding inv_def one_processing_def by blast

theorem one_job_at_a_time_witness:
  "\<exists>j. jobAt (store sys_claimed) 7 = Some j \<and> Status j = StateProcessing \<and> (7::uuid) = 7"
proof -
  have e: "jobAt (store sys_claimed) 7 = Some (job_or_zero two_jobs_claimed 7)"
    "Status (job_or_zero two_jobs_claimed 7) = StateProcessing" by code_simp+
  show ?thesis
    using one_job_at_a_time [OF reach_sys_claimed e(1) e(1) refl e(2) e(2)] e by blast
qed

text \<open>C1: first in, first out. As long as no operator replays or purges jobs, and workers use a lease
  token for one finishing call only (as the engine does), a job is only started when every job of
  its chain with a smaller positive sequence exists, was itself started, and is finished: completed,
  or failed in a mode that continues on failure; and it stays so. Numbers below 1 are not ordered.\<close>

theorem first_in_first_out:
  assumes "reach False s" and "jobAt (store s) i = Some j" and "StartedAt j \<noteq> None"
    and "1 \<le> q" and "q < Sequence j"
  shows "\<exists>k p. jobAt (store s) k = Some p \<and> ChainID p = ChainID j \<and> Sequence p = q \<and>
    isPredFinished p \<and> StartedAt p \<noteq> None"
proof -
  note fifo = reach_fifo [OF assms(1)] and inv = reach_inv [OF assms(1)]
  have pred: "\<exists>k p. jobAt (store s) k = Some p \<and> ChainID p = ChainID x \<and>
      Sequence p = Sequence x - 1 \<and> isPredFinished p \<and> started p"
    if x: "jobAt (store s) m = Some x" "started x" "Sequence x \<noteq> 1" for m x
  proof -
    obtain k p where p: "jobAt (store s) k = Some p" "ChainID p = ChainID x"
        "Sequence p = Sequence x - 1" "isPredFinished p" using fifo x unfolding fifo_def by blast
    have "outcome_state (Status p)" using p(4) by (auto simp: isPredFinished_def)
    then have "started p" using job_okD(5) [OF inv_job [OF inv p(1)]] by blast
    with p show ?thesis by blast
  qed
  have "q \<le> Sequence j - 1" using assms(5) by simp
  then show ?thesis
    using assms(2-4)
  proof (induction q rule: int_le_induct)
    case base
    then show ?case using pred [of i j] by (auto simp: started_def)
  next
    case (step q)
    then obtain k p where p: "jobAt (store s) k = Some p" "ChainID p = ChainID j" "Sequence p = q"
        "started p" by (auto simp: started_def)
    with pred [OF p(1,4)] step.prems show ?case by (auto simp: started_def)
  qed
qed

theorem first_in_first_out_witness:
  "\<exists>j k p. jobAt (store sys_second) 8 = Some j \<and> StartedAt j \<noteq> None \<and>
     jobAt (store sys_second) k = Some p \<and> Sequence p = 1 \<and> isPredFinished p"
proof -
  let ?j = "job_or_zero two_jobs_second 8"
  have e: "jobAt (store sys_second) 8 = Some ?j" "StartedAt ?j \<noteq> None" "1 < Sequence ?j"
    by code_simp+
  from first_in_first_out [OF reach_sys_second e(1,2) order_refl e(3)] e(1,2) show ?thesis by blast
qed

text \<open>fencing holds across the whole history. No two claims ever hand out the same token; a held
  token never runs ahead of the stored generation; and as long as it is current its execution is
  open: the job is in processing, or was recovered (and perhaps asked to cancel) but not claimed
  again, so it cannot have been completed, failed, skipped or replayed meanwhile.\<close>

theorem held_tokens_sound:
  assumes "reach operator s"
  shows "distinct (held s) \<and>
    (\<forall>i w g j. (i, w, g) \<in> set (held s) \<longrightarrow> jobAt (store s) i = Some j \<longrightarrow>
       g \<le> LeaseGeneration j \<and>
       (g = LeaseGeneration j \<longrightarrow> WorkerID j = w \<and>
          (Status j = StateProcessing \<or> Status j = StateRetrying \<or> Status j = StateCancelRequested)))"
  using inv_token [OF reach_inv [OF assms]] inv_distinct [OF reach_inv [OF assms]]
  unfolding open_state_def by blast

theorem held_tokens_sound_witness:
  "\<exists>j. jobAt (store sys_claimed) 7 = Some j \<and> WorkerID j = ''w'' \<and> LeaseGeneration j = 1"
proof -
  let ?j = "job_or_zero two_jobs_claimed 7"
  have e: "jobAt (store sys_claimed) 7 = Some ?j" "LeaseGeneration ?j = 1" by code_simp+
  have h: "(7, ''w'', 1) \<in> set (held sys_claimed)" by (simp add: sys_claimed_def)
  have "WorkerID ?j = ''w''"
    using held_tokens_sound [OF reach_sys_claimed] h e by auto
  with e show ?thesis by blast
qed

text \<open>the positive sequences of a chain are exactly 1, 2, ..., n, where n is what the next
  \<open>Enqueue\<close> counts from, as long as nothing is purged.\<close>

theorem chain_numbers_contiguous:
  assumes "reach False s" and "1 \<le> q"
  shows "idAt (store s) c q \<noteq> None \<longleftrightarrow> q \<le> getMaxSequence (store s) c"
proof
  assume "idAt (store s) c q \<noteq> None"
  then show "q \<le> getMaxSequence (store s) c" using getMaxSequence_upper by blast
next
  assume q: "q \<le> getMaxSequence (store s) c"
  then have "idAt (store s) c (getMaxSequence (store s) c) \<noteq> None"
    using getMaxSequence_attained [of "store s" c] assms(2) by auto
  with gap_free_below [OF reach_gap_free [OF assms(1)] _ assms(2) q]
  show "idAt (store s) c q \<noteq> None" by blast
qed

theorem chain_numbers_contiguous_witness:
  "idAt (store sys_two) ''c'' 1 \<noteq> None"
proof -
  have "(1::int) \<le> getMaxSequence (store sys_two) ''c''" by code_simp
  with chain_numbers_contiguous [OF reach_sys_two, of 1 "''c''"] show ?thesis by simp
qed

text \<open>of the eleven states a job only ever takes nine: it never times out and never expires. A
  job that is in processing or has an outcome was started, and the nine counters of \<open>GetStats\<close> sum
  to the total.\<close>

theorem reachable_states:
  assumes "reach operator s"
  shows "(\<forall>i j. jobAt (store s) i = Some j \<longrightarrow>
      Status j \<in> {StatePending, StateBlocked, StateProcessing, StateCompleted, StateRetrying,
        StateFailed, StateDeadLettered, StateCancelRequested, StateCancelled} \<and>
      Status j \<noteq> StateTimedOut \<and> Status j \<noteq> StateExpired \<and>
      (Status j \<in> {StateProcessing, StateCompleted, StateFailed, StateDeadLettered, StateCancelled}
         \<longrightarrow> StartedAt j \<noteq> None)) \<and>
    (let st = GetStats_mem now (store s)
     in Pending_st st + Blocked_st st + Processing_st st + Completed_st st + Retrying_st st +
        Failed_st st + DeadLettered_st st + CancelRequested_st st + Cancelled_st st = Total_st st)"
proof (intro conjI allI impI)
  note inv = reach_inv [OF assms]
  fix i j assume j: "jobAt (store s) i = Some j"
  note ok = job_okD [OF inv_job [OF inv j]]
  show c: "Status j \<in> {StatePending, StateBlocked, StateProcessing, StateCompleted, StateRetrying,
      StateFailed, StateDeadLettered, StateCancelRequested, StateCancelled}"
    using ok(1) by (simp add: counted_states_def)
  then show "Status j \<noteq> StateTimedOut" "Status j \<noteq> StateExpired" by auto
  assume "Status j \<in> {StateProcessing, StateCompleted, StateFailed, StateDeadLettered, StateCancelled}"
  then show "StartedAt j \<noteq> None" using ok(4,5) by (auto simp: started_def)
next
  note inv = reach_inv [OF assms]
  have "count_if (\<lambda>j. Status j \<in> set counted_states) (jobs (store s)) = length (jobs (store s))"
  proof (rule count_if_all)
    fix i j assume "(i, j) \<in> set (jobs (store s))"
    then have "jobAt (store s) i = Some j" using repo_wf_distinct [OF inv_wf [OF inv]] by simp
    then show "Status j \<in> set counted_states" using job_okD(1) inv_job [OF inv] by blast
  qed
  then show "let st = GetStats_mem now (store s)
     in Pending_st st + Blocked_st st + Processing_st st + Completed_st st + Retrying_st st +
        Failed_st st + DeadLettered_st st + CancelRequested_st st + Cancelled_st st = Total_st st"
    using count_if_states [of "jobs (store s)"]
    by (simp add: GetStats_counts counted_states_def Let_def)
qed

theorem reachable_states_witness:
  "\<exists>j. jobAt (store sys_claimed) 7 = Some j \<and> StartedAt j \<noteq> None \<and> Status j \<noteq> StateExpired"
proof -
  let ?j = "job_or_zero two_jobs_claimed 7"
  have e: "jobAt (store sys_claimed) 7 = Some ?j" "Status ?j = StateProcessing" by code_simp+
  from reachable_states [OF reach_sys_claimed] e show ?thesis by auto
qed

section \<open>What a step does to each job\<close>

text \<open>A job drifts, gets the outcome of an open execution from a worker with the current token, or
  is claimed.\<close>

definition job_step :: "token list \<Rightarrow> uuid \<Rightarrow> job \<Rightarrow> job \<Rightarrow> bool" where
  "job_step H i j j' \<longleftrightarrow>
     drift j j' \<or>
     (i, WorkerID j, LeaseGeneration j) \<in> set H \<and> kept j j' \<and> open_state (Status j) \<and>
       outcome_state (Status j') \<or>
     (Status j = StatePending \<or> Status j = StateRetrying) \<and> Status j' = StateProcessing"

lemma job_step_drifts:
  assumes "drifts r r'" and "jobAt r i = Some j"
  shows "\<exists>j'. jobAt r' i = Some j' \<and> job_step H i j j'"
  using pointwiseE [OF assms] by (auto simp: job_step_def)

lemma job_step_finish:
  assumes inv: "inv r H I" and t: "(k, w, g) \<in> set H" and i: "jobAt r i = Some j"
    and r': "r' \<in> {snd (Complete_mem now k w g r), snd (Fail_mem now k w g msg t' r),
      snd (Retry_mem now k w g msg at r), snd (ConfirmCancel_mem now k w g r)}"
  shows "\<exists>j'. jobAt r' i = Some j' \<and> job_step H i j j'"
  using finishing_ops [OF inv_wf [OF inv] r']
proof
  assume "r' = r"
  with i show ?thesis by (simp add: job_step_def)
next
  assume "\<exists>x. jobAt r k = Some x \<and> WorkerID x = w \<and> LeaseGeneration x = g \<and> finishes k r r'"
  then obtain x where x: "jobAt r k = Some x" "WorkerID x = w" "LeaseGeneration x = g"
      "finishes k r r'" by blast
  obtain j' where j': "jobAt r' i = Some j'" "finish k i j j'" using pointwiseE [OF x(4) i] by blast
  have "job_step H i j j'"
  proof (cases "i = k")
    case True
    with x i have "j = x" by simp
    with True x t j'(2) inv_token [OF inv t x(1)] show ?thesis by (auto simp: job_step_def finish_def)
  next
    case False
    with j'(2) show ?thesis by (simp add: job_step_def finish_def)
  qed
  with j'(1) show ?thesis by blast
qed

lemma job_step_finish_ops:
  assumes inv: "inv r H I" and t: "(k, w, g) \<in> set H" and i: "jobAt r i = Some j"
  shows "\<exists>j'. jobAt (snd (Complete_mem now k w g r)) i = Some j' \<and> job_step H i j j'"
    and "\<exists>j'. jobAt (snd (Fail_mem now k w g msg t' r)) i = Some j' \<and> job_step H i j j'"
    and "\<exists>j'. jobAt (snd (Retry_mem now k w g msg at r)) i = Some j' \<and> job_step H i j j'"
    and "\<exists>j'. jobAt (snd (ConfirmCancel_mem now k w g r)) i = Some j' \<and> job_step H i j j'"
  by (rule job_step_finish [OF inv t i, where now = now and msg = msg and t' = t' and at = at],
      simp)+

lemma job_step_claim:
  assumes wf: "repo_wf r" and i: "jobAt r i = Some j"
  shows "\<exists>j'. jobAt (snd (Claim_mem now w l r)) i = Some j' \<and> job_step H i j j'"
proof (cases rule: Claim_cases [OF wf, of now w l, case_names none some])
  case none
  with i show ?thesis by (simp add: job_step_def)
next
  case (some x)
  show ?thesis
  proof (cases "i = ID x")
    case True
    with i some(1) have "x = j" by simp
    with True some(2,4) show ?thesis by (auto simp: job_step_def claim_eligible_iff [OF wf])
  qed (use i some in \<open>simp add: job_step_def\<close>)
qed

lemma enqueue_loop_keeps:
  assumes "distinct (map (snd \<circ> fst) reqs)" and "set (map (snd \<circ> fst) reqs) \<inter> set I = {}"
    and "jobAt r i = Some j" and "i \<in> set I"
  shows "jobAt (snd (EnqueueBatch_mem reqs r)) i = Some j"
proof (cases rule: EnqueueBatch_cases [of reqs r])
  case failed
  then show ?thesis using assms by simp
next
  case (success out r')
  have "jobAt r' i = Some j \<and> i \<in> set (rev (map (snd \<circ> fst) reqs) @ I)"
  proof (rule enqueue_loop_invariant [where P = "\<lambda>r I. jobAt r i = Some j \<and> i \<in> set I",
        OF _ _ assms(1,2) success(1)])
    fix r I now jid req
    assume a: "jobAt r i = Some j \<and> i \<in> set I" "jid \<notin> set I"
    then have "i \<noteq> jid" by auto
    with a show "jobAt (snd (enqueueSingleInMemory now jid req r)) i = Some j \<and> i \<in> set (jid # I)"
      by (simp add: enqueueSingle_jobAt)
  qed (use assms in blast)
  then show ?thesis by (simp add: success(2))
qed

lemma sstep_job:
  assumes "sstep s s'" and inv: "inv (store s) (held s) (issued s)"
    and i: "jobAt (store s) i = Some j"
  shows "\<exists>j'. jobAt (store s') i = Some j' \<and> job_step (held s) i j j'"
proof -
  note wf = inv_wf [OF inv] and dr = job_step_drifts [OF _ i]
  have issued: "i \<in> set (issued s)" using inv i by (auto simp: inv_def ids_ok_def)
  have same: "job_step (held s) i j j" by (simp add: job_step_def)
  show ?thesis
    using assms(1)
  proof cases
    case (enqueue jid now req)
    then have "i \<noteq> jid" using issued by auto
    with i same enqueue show ?thesis by (simp add: Enqueue_mem_def enqueueSingle_jobAt)
  next
    case (enqueue_batch reqs)
    with enqueue_loop_keeps [OF enqueue_batch(2,3) i issued] same show ?thesis by simp
  next
    case (claim now w l x r')
    with job_step_claim [OF wf i, of now w l] show ?thesis by simp
  next
    case (reorder r')
    with i same reordered_reads(1) [OF wf] show ?thesis by simp
  next
    case (release tok)
    with i same show ?thesis by simp
  qed (simp_all add: dr wf sys_drifts job_step_finish_ops [OF inv _ i])
qed

text \<open>New tokens are for jobs that were pending or retrying.\<close>

lemma sstep_held:
  assumes "sstep s s'" and inv: "inv (store s) (held s) (issued s)"
    and "(i, w, g) \<in> set (held s')" and "(i, w, g) \<notin> set (held s)"
    and i: "jobAt (store s) i = Some j"
  shows "Status j = StatePending \<or> Status j = StateRetrying"
  using assms(1)
proof cases
  case (claim now v l x r')
  note wf = inv_wf [OF inv]
  show ?thesis
  proof (cases rule: Claim_cases [OF wf, of now v l, case_names none some])
    case (some y)
    with claim have "x = claimed now v l y" by simp
    with assms(3,4) claim(1) have "i = ID y" by simp
    with some i show ?thesis by (auto simp: claim_eligible_iff [OF wf])
  qed (use claim in simp)
qed (use assms(3,4) in \<open>auto dest: notin_set_remove1\<close>)



text \<open>Replays and purges leave a job alone that is not replayable.\<close>

lemma operator_keeps:
  assumes wf: "repo_wf r" and x: "jobAt r i = Some x" "\<not> replayable x"
  shows "jobAt (snd (ReplayJob_mem now k r)) i = Some x"
    and "jobAt (snd (ReplayJobWithPayload_mem now k pl r)) i = Some x"
    and "jobAt (snd (BulkReplayDLQ_mem us now f r)) i = Some x"
    and "jobAt (snd (BulkPurgeDLQ_mem us f r)) i = Some x"
  using x dlq_replayable [of us x f]
  by (auto simp: ReplayJob_mem_def ReplayJobWithPayload_mem_def BulkReplayDLQ_mem_def
      BulkPurgeDLQ_mem_def bulk_replay.run_jobAt [OF wf] bulk_purge.run_jobAt [OF wf]
      split: option.splits)

lemma ostep_keeps:
  assumes "ostep a b" and inv: "inv (store a) (held a) (issued a)"
    and x: "jobAt (store a) i = Some x" "\<not> replayable x"
  shows "jobAt (store b) i = Some x \<and> held b = held a"
  using assms(1) operator_keeps [OF inv_wf [OF inv] x] by cases simp_all



lemma job_step_completed:
  "job_step H i j j' \<Longrightarrow> Status j = StateCompleted \<Longrightarrow>
   Status j' = StateCompleted \<and> LeaseGeneration j' = LeaseGeneration j \<and> WorkerID j' = WorkerID j \<and>
   StartedAt j' = StartedAt j"
  by (auto simp: job_step_def drift_def kept_def open_state_def replayable_def)

end
