(* ===== verification/System_Calls.thy ===== *)
theory System_Calls
  imports System_Props
begin

text \<open>
  The in-memory repository under callers without any discipline: every exported operation may be
  called at any time with any arguments, in particular \<open>Complete\<close>, \<open>Fail\<close>, \<open>Retry\<close> and
  \<open>ConfirmCancel\<close> with a worker and generation that were used before. What the repository itself
  promises then: no promotion is lost, and a completed job is only touched by a late outcome of its
  own last execution. (In theory System the workers use a token for one such call only.)
\<close>

section \<open>Calls\<close>

text \<open>A call is labelled by what matters below: an outcome other than completion, with the id,
  worker and generation it names; an operator's replay or purge; anything else. The second component
  of a state are the ids handed out.\<close>

datatype label = Plain | Outcome token | Operator

type_synonym stored = "repo \<times> uuid list"

inductive call :: "label \<Rightarrow> stored \<Rightarrow> stored \<Rightarrow> bool" where
  enqueue: "jid \<notin> set I \<Longrightarrow> call Plain (r, I) (snd (Enqueue_mem now jid req r), jid # I)"
| enqueue_batch: "distinct (map (snd \<circ> fst) reqs) \<Longrightarrow> set (map (snd \<circ> fst) reqs) \<inter> set I = {} \<Longrightarrow>
    call Plain (r, I) (snd (EnqueueBatch_mem reqs r), map (snd \<circ> fst) reqs @ I)"
| claim: "call Plain (r, I) (snd (Claim_mem now w l r), I)"
| complete: "call Plain (r, I) (snd (Complete_mem now i w g r), I)"
| fail: "call (Outcome (i, w, g)) (r, I) (snd (Fail_mem now i w g msg t r), I)"
| retry: "call (Outcome (i, w, g)) (r, I) (snd (Retry_mem now i w g msg at r), I)"
| confirm_cancel: "call (Outcome (i, w, g)) (r, I) (snd (ConfirmCancel_mem now i w g r), I)"
| heartbeat: "call Plain (r, I) (snd (Heartbeat_mem now i w g l r), I)"
| request_cancel: "call Plain (r, I) (snd (RequestCancel_mem now i r), I)"
| recover: "call Plain (r, I) (snd (RecoverStale_mem now limit p r), I)"
| promote_next: "call Plain (r, I) (snd (PromoteNext_mem now c q r), I)"
| skip: "call Plain (r, I) (snd (SkipJob_mem now i r), I)"
| bulk_skip: "call Plain (r, I) (snd (BulkSkipDLQ_mem us now f r), I)"
| reschedule: "call Plain (r, I) (snd (RescheduleJob_mem now i at r), I)"
| reorder: "reordered r r' \<Longrightarrow> call Plain (r, I) (r', I)"
| replay: "call Operator (r, I) (snd (ReplayJob_mem now i r), I)"
| replay_payload: "call Operator (r, I) (snd (ReplayJobWithPayload_mem now i pl r), I)"
| bulk_replay: "call Operator (r, I) (snd (BulkReplayDLQ_mem us now f r), I)"
| bulk_purge: "call Operator (r, I) (snd (BulkPurgeDLQ_mem us f r), I)"

inductive calls :: "label list \<Rightarrow> stored \<Rightarrow> stored \<Rightarrow> bool" where
  none: "calls [] s s"
| more: "calls ls s t \<Longrightarrow> call l t u \<Longrightarrow> calls (ls @ [l]) s u"

text \<open>Every state of the system of theory System comes about by such calls.\<close>

lemma sstep_call:
  "sstep s s' \<Longrightarrow> (\<exists>l. l \<noteq> Operator \<and> call l (store s, issued s) (store s', issued s')) \<or>
     (store s', issued s') = (store s, issued s)"
proof (induction rule: sstep.cases)
  case (claim now w l s j r')
  then show ?case using call.claim [of "store s" "issued s" now w l] by auto
next
  case (enqueue_batch reqs s)
  then show ?case using call.enqueue_batch [of reqs "issued s" "store s"] by auto
qed (auto intro: call.intros)

lemma ostep_call: "ostep s s' \<Longrightarrow> call Operator (store s, issued s) (store s', issued s')"
  by (induction rule: ostep.cases) (auto intro: call.intros)

lemma reach_calls:
  "reach operator s \<Longrightarrow> \<exists>ls. calls ls (New_mem, []) (store s, issued s) \<and>
     (Operator \<in> set ls \<longrightarrow> operator)"
proof (induction rule: reach.induct)
  case init
  then show ?case using calls.none [of "(New_mem, [])"] by (auto simp: sys_init_def intro: exI [of _ "[]"])
next
  case (step s s')
  then obtain ls where ls: "calls ls (New_mem, []) (store s, issued s)" "Operator \<in> set ls \<longrightarrow> operator"
    by blast
  from sstep_call [OF step.hyps(2)] show ?case
  proof (elim disjE exE conjE)
    fix l assume "l \<noteq> Operator" "call l (store s, issued s) (store s', issued s')"
    with ls calls.more [OF ls(1)] show ?thesis by (intro exI [of _ "ls @ [l]"]) auto
  qed (use ls in auto)
next
  case (operator_step s s')
  then obtain ls where ls: "calls ls (New_mem, []) (store s, issued s)" by blast
  with operator_step calls.more [OF ls ostep_call] show ?case by blast
qed

section \<open>Well-formedness\<close>

definition stored_ok :: "stored \<Rightarrow> bool" where
  "stored_ok s \<longleftrightarrow> repo_ok (fst s) \<and> ids_ok (fst s) (snd s)"

lemma stored_ok_evolves: "evolves r r' \<Longrightarrow> stored_ok (r, I) \<Longrightarrow> stored_ok (r', I)"
  using evolves_repo_ok evolves_jobAt_None unfolding stored_ok_def ids_ok_def
  by (metis fst_conv not_None_eq snd_conv)

lemma stored_ok_wf: "stored_ok (r, I) \<Longrightarrow> repo_wf r"
  by (simp add: stored_ok_def repo_ok_def)

lemma stored_ok_enqueue:
  assumes "stored_ok (r, I)" and "jid \<notin> set I"
  shows "stored_ok (snd (enqueueSingleInMemory now jid req r), jid # I)"
proof -
  have none: "jobAt r jid = None" using assms by (auto simp: stored_ok_def ids_ok_def)
  have "repo_ok (snd (enqueueSingleInMemory now jid req r))"
    using enqueueSingle_repo_ok [OF _ none] assms(1) by (simp add: stored_ok_def)
  moreover have "ids_ok (snd (enqueueSingleInMemory now jid req r)) (jid # I)"
    using assms(1) by (auto simp: stored_ok_def ids_ok_def)
      (metis enqueueSingle_jobAt)
  ultimately show ?thesis by (simp add: stored_ok_def)
qed

text \<open>What every single enqueue keeps, a batch keeps.\<close>

lemma batch_keeps:
  assumes step: "\<And>r I now jid req. P (r, I) \<Longrightarrow> jid \<notin> set I \<Longrightarrow>
      P (snd (enqueueSingleInMemory now jid req r), jid # I)"
    and ids: "\<And>r I J. P (r, I) \<Longrightarrow> set I \<subseteq> set J \<Longrightarrow> P (r, J)"
    and reqs: "distinct (map (snd \<circ> fst) reqs)" "set (map (snd \<circ> fst) reqs) \<inter> set I = {}"
    and P: "P (r, I)"
  shows "P (snd (EnqueueBatch_mem reqs r), map (snd \<circ> fst) reqs @ I)"
proof (cases rule: EnqueueBatch_cases [of reqs r])
  case failed
  then show ?thesis using ids [OF P] by simp
next
  case (success out r')
  have "P (r', rev (map (snd \<circ> fst) reqs) @ I)"
    by (rule enqueue_loop_invariant [where P = "\<lambda>r I. P (r, I)", OF _ P reqs success(1)]) (rule step)
  then show ?thesis using ids by (fastforce simp: success(2))
qed

lemma stored_ok_call: "call l s s' \<Longrightarrow> stored_ok s \<Longrightarrow> stored_ok s'"
proof (induction rule: call.cases)
  case (enqueue jid I r now req)
  then show ?case using stored_ok_enqueue by (simp add: Enqueue_mem_def)
next
  case (enqueue_batch reqs I r)
  have "stored_ok (snd (EnqueueBatch_mem reqs r), map (snd \<circ> fst) reqs @ I)"
    by (rule batch_keeps [where P = stored_ok, OF stored_ok_enqueue])
       (use enqueue_batch in \<open>auto simp: stored_ok_def ids_ok_def\<close>)
  with enqueue_batch show ?case by simp
next
  case (reorder r r' I)
  then have wf: "repo_wf r" "idem_unique r" by (simp_all add: stored_ok_def repo_ok_def)
  note reads = reordered_reads [OF wf(1) reorder(4)]
  have "idem_unique r'" by (rule idem_unique_sub [OF wf(2)]) (simp add: reads(1))
  with reorder reads show ?case by (simp add: stored_ok_def repo_ok_def ids_ok_def)
next
  case (bulk_purge r I us f)
  then have ok: "repo_ok r" "repo_wf r" by (simp_all add: stored_ok_def repo_ok_def)
  from bulk_purge repo_ok_purge [OF ok(1)] bulk_purge_sub [OF ok(2)] show ?case
    by (auto simp: stored_ok_def ids_ok_def)
qed (simp_all add: stored_ok_evolves [OF evolves_Claim] stored_ok_evolves [OF evolves_Complete]
    stored_ok_evolves [OF evolves_lease_ops(1)] stored_ok_evolves [OF evolves_lease_ops(2)]
    stored_ok_evolves [OF evolves_lease_ops(3)] stored_ok_evolves [OF evolves_lease_ops(4)]
    stored_ok_evolves [OF evolves_cancel_replay(1)] stored_ok_evolves [OF evolves_cancel_replay(2)]
    stored_ok_evolves [OF evolves_cancel_replay(3)] stored_ok_evolves [OF evolves_cancel_replay(4)]
    stored_ok_evolves [OF evolves_Skip] stored_ok_evolves [OF evolves_Promote]
    stored_ok_evolves [OF evolves_Recover] stored_ok_evolves [OF evolves_bulk_skip]
    stored_ok_evolves [OF evolves_bulk_replay] stored_ok_wf)

lemma calls_ok: "calls ls s t \<Longrightarrow> stored_ok s \<Longrightarrow> stored_ok t"
  by (induction rule: calls.induct) (auto intro: stored_ok_call)

lemma stored_ok_init [simp]: "stored_ok (New_mem, [])"
  using repo_ok_New by (simp add: stored_ok_def ids_ok_def New_mem_def)

section \<open>No lost promotion\<close>

definition orderly :: "stored \<Rightarrow> bool" where
  "orderly s \<longleftrightarrow> stored_ok s \<and> gap_free (fst s) \<and> waits_rightly (fst s)"

lemma stored_ok_new: "stored_ok (r, I) \<Longrightarrow> jid \<notin> set I \<Longrightarrow> jobAt r jid = None"
  by (auto simp: stored_ok_def ids_ok_def)

lemma orderly_enqueue:
  assumes "orderly (r, I)" and "jid \<notin> set I"
  shows "orderly (snd (enqueueSingleInMemory now jid req r), jid # I)"
proof -
  have ok: "stored_ok (r, I)" "gap_free r" "waits_rightly r" using assms(1) by (simp_all add: orderly_def)
  from waits_enqueue [OF stored_ok_wf [OF ok(1)] ok(3,2) stored_ok_new [OF ok(1) assms(2)]]
    stored_ok_enqueue [OF ok(1) assms(2)] enqueueSingle_gap_free [OF ok(2)]
  show ?thesis by (simp add: orderly_def)
qed

lemma orderly_call:
  assumes c: "call l s s'" "l \<noteq> Operator" and s: "orderly s"
  shows "orderly s'"
proof -
  have ok: "stored_ok s" "gap_free (fst s)" and w: "waits_rightly (fst s)"
    using s by (simp_all add: orderly_def)
  have wf: "repo_wf (fst s)" using stored_ok_wf [of "fst s" "snd s"] ok(1) by simp
  have ev: "orderly (r', snd s)" if "evolves (fst s) r'" "waits_rightly r'" for r'
    using stored_ok_evolves [OF that(1), of "snd s"] evolves_gap_free [OF that(1)] ok that(2)
    by (simp add: orderly_def)
  note nc = waits_no_completion [OF w]
  from c(1) show ?thesis
  proof cases
    case (enqueue jid I r now req)
    with s show ?thesis using orderly_enqueue by (simp add: Enqueue_mem_def)
  next
    case (enqueue_batch reqs I r)
    have "orderly (snd (EnqueueBatch_mem reqs r), map (snd \<circ> fst) reqs @ I)"
      by (rule batch_keeps [where P = orderly, OF orderly_enqueue])
         (use s enqueue_batch in \<open>auto simp: orderly_def stored_ok_def ids_ok_def\<close>)
    with enqueue_batch show ?thesis by simp
  next
    case (reorder r r' I)
    note reads = reordered_reads [OF wf, of r']
    have "stored_ok s'" using stored_ok_call [OF c(1) ok(1)] .
    with reorder reads ok(2) w show ?thesis by (simp add: orderly_def gap_free_def waits_rightly_def)
  next
    case (claim r I now wk l')
    then show ?thesis using ev [OF evolves_Claim [OF wf] nc [OF nc_claim [OF wf]]] by simp
  next
    case (complete r I now i wk g)
    then show ?thesis using ev [OF evolves_Complete [OF wf] waits_complete_ops(1) [OF wf w]] by simp
  next
    case (skip r I now i)
    then show ?thesis using ev [OF evolves_Skip [OF wf] waits_complete_ops(2) [OF wf w]] by simp
  next
    case (bulk_skip r I us now f)
    then show ?thesis using ev [OF evolves_bulk_skip [OF wf] waits_bulk_skip [OF wf w]] by simp
  next
    case (recover r I now limit p)
    then show ?thesis using ev [OF evolves_Recover nc [OF nc_recover]] by simp
  next
    case (promote_next r I now ch q)
    then show ?thesis using ev [OF evolves_Promote [OF wf] nc [OF nc_promote [OF wf]]] by simp
  next
    case (fail i wk g r I now msg t)
    then show ?thesis using ev [OF evolves_lease_ops(1) nc [OF nc_ops(1)]] by simp
  next
    case (retry i wk g r I now msg at)
    then show ?thesis using ev [OF evolves_lease_ops(2) nc [OF nc_ops(2)]] by simp
  next
    case (confirm_cancel i wk g r I now)
    then show ?thesis using ev [OF evolves_lease_ops(4) nc [OF nc_ops(4)]] by simp
  next
    case (heartbeat r I now i wk g l')
    then show ?thesis using ev [OF evolves_lease_ops(3) nc [OF nc_ops(3)]] by simp
  next
    case (request_cancel r I now i)
    then show ?thesis using ev [OF evolves_cancel_replay(1) nc [OF nc_ops(5)]] by simp
  next
    case (reschedule r I now i at)
    then show ?thesis using ev [OF evolves_cancel_replay(4) nc [OF nc_ops(6)]] by simp
  qed (use c(2) in simp_all)
qed

lemma calls_orderly:
  "calls ls s t \<Longrightarrow> Operator \<notin> set ls \<Longrightarrow> orderly s \<Longrightarrow> orderly t"
  by (induction rule: calls.induct) (auto intro: orderly_call)

lemma orderly_init: "orderly (New_mem, [])"
  by (simp add: orderly_def gap_free_def waits_rightly_def) (simp add: New_mem_def idAt_def)

text \<open>The calls that lead to the sample system with a claimed job.\<close>

lemma sample_calls: "\<exists>ls. calls ls (New_mem, []) (two_jobs_claimed, [8, 7]) \<and> Operator \<notin> set ls"
  using reach_calls [OF reach_sys_claimed [of False]] by (auto simp: sys_claimed_def)

text \<open>C7: no promotion is lost. Unless an operator replays or purges jobs, a blocked job has its
  predecessor in the repository, and that predecessor has not been completed, whatever operations
  were called with whatever arguments: completing or skipping a job never leaves its successor
  blocked, nor does enqueueing create one.\<close>

theorem no_lost_promotion:
  assumes "calls ls (New_mem, []) (r, I)" and "Operator \<notin> set ls"
    and "jobAt r i = Some j" and "Status j = StateBlocked"
  shows "\<exists>k p. jobAt r k = Some p \<and> ChainID p = ChainID j \<and> Sequence p = Sequence j - 1 \<and>
    Status p \<noteq> StateCompleted"
  using calls_orderly [OF assms(1,2) orderly_init] assms(3,4)
  unfolding orderly_def waits_rightly_def fst_conv by blast

theorem no_lost_promotion_witness:
  "\<exists>j k p. jobAt two_jobs_claimed 8 = Some j \<and> Status j = StateBlocked \<and>
     jobAt two_jobs_claimed k = Some p \<and> Sequence p = 1 \<and> Status p \<noteq> StateCompleted"
proof -
  let ?j = "job_or_zero two_jobs_claimed 8"
  have e: "jobAt two_jobs_claimed 8 = Some ?j" "Status ?j = StateBlocked" "Sequence ?j - 1 = 1"
    by code_simp+
  obtain ls where "calls ls (New_mem, []) (two_jobs_claimed, [8, 7])" "Operator \<notin> set ls"
    using sample_calls by blast
  from no_lost_promotion [OF this e(1,2)] e show ?thesis by auto
qed

section \<open>Completed jobs\<close>

definition same_execution :: "job \<Rightarrow> job \<Rightarrow> bool" where
  "same_execution j j' \<longleftrightarrow> Status j' = StateCompleted \<and> WorkerID j' = WorkerID j \<and>
     LeaseGeneration j' = LeaseGeneration j \<and> StartedAt j' = StartedAt j"

lemma drift_same_execution: "drift j j' \<Longrightarrow> Status j = StateCompleted \<Longrightarrow> same_execution j j'"
  by (auto simp: drift_def kept_def same_execution_def replayable_def)

lemma drifts_same_execution:
  "drifts r r' \<Longrightarrow> jobAt r i = Some j \<Longrightarrow> Status j = StateCompleted \<Longrightarrow>
   \<exists>j'. jobAt r' i = Some j' \<and> same_execution j j'"
  using pointwiseE [of "\<lambda>k. drift"] drift_same_execution by blast

text \<open>An outcome reported with another token.\<close>

lemma outcome_same_execution:
  assumes wf: "repo_wf r" and j: "jobAt r i = Some j" "Status j = StateCompleted"
    and t: "(k, w, g) \<noteq> (i, WorkerID j, LeaseGeneration j)"
    and r': "r' \<in> {snd (Complete_mem now k w g r), snd (Fail_mem now k w g msg t' r),
      snd (Retry_mem now k w g msg at r), snd (ConfirmCancel_mem now k w g r)}"
  shows "\<exists>j'. jobAt r' i = Some j' \<and> same_execution j j'"
  using finishing_ops [OF wf r']
proof (elim disjE exE conjE)
  assume "r' = r"
  with j show ?thesis by (simp add: same_execution_def)
next
  fix x assume x: "jobAt r k = Some x" "WorkerID x = w" "LeaseGeneration x = g" "finishes k r r'"
  have "k \<noteq> i" using x j(1) t by auto
  with pointwiseE [OF x(4) j(1)] j(2) show ?thesis
    by (auto simp: finish_def drift_same_execution)
qed

lemma complete_same_execution:
  assumes wf: "repo_wf r" and j: "jobAt r i = Some j" "Status j = StateCompleted"
  shows "\<exists>j'. jobAt (snd (Complete_mem now k w g r)) i = Some j' \<and> same_execution j j'"
proof (cases "(k, w, g) = (i, WorkerID j, LeaseGeneration j)")
  case True
  then have "jobAt (snd (Complete_mem now k w g r)) i = Some (completed now j)"
    using j by (simp add: Complete_mem_def with_lease_def jobAt_completed_promote [OF wf])
  then show ?thesis by (simp add: same_execution_def completed_def)
next
  case False
  show ?thesis by (rule outcome_same_execution [OF wf j False, where now = now]) simp
qed

lemma claim_same_execution:
  assumes wf: "repo_wf r" and j: "jobAt r i = Some j" "Status j = StateCompleted"
  shows "\<exists>j'. jobAt (snd (Claim_mem now w l r)) i = Some j' \<and> same_execution j j'"
  using job_step_claim [OF wf j(1), of now w l "[]"] job_step_completed j(2)
  unfolding same_execution_def by blast

lemma call_completed:
  assumes c: "call l s s'" and s: "stored_ok s"
    and j: "jobAt (fst s) i = Some j" "Status j = StateCompleted"
    and l: "l \<noteq> Outcome (i, WorkerID j, LeaseGeneration j)"
  shows "\<exists>j'. jobAt (fst s') i = Some j' \<and> same_execution j j'"
proof -
  have wf: "repo_wf (fst s)" using stored_ok_wf [of "fst s" "snd s"] s by simp
  have i: "i \<in> set (snd s)" using s j(1) by (auto simp: stored_ok_def ids_ok_def)
  note dr = drifts_same_execution [OF _ j] and out = outcome_same_execution [OF wf j]
  have keep: "\<exists>j'. jobAt r' i = Some j' \<and> same_execution j j'" if "jobAt r' i = Some j" for r'
    using that j(2) by (simp add: same_execution_def)
  have "\<not> replayable j" using j(2) by (simp add: replayable_def)
  note op = operator_keeps [OF wf j(1) this, THEN keep]
  from c show ?thesis
  proof cases
    case (enqueue jid I r now req)
    with i have "i \<noteq> jid" by auto
    with enqueue j(1) have "jobAt (fst s') i = Some j" by (simp add: Enqueue_mem_def enqueueSingle_jobAt)
    then show ?thesis by (rule keep)
  next
    case (enqueue_batch reqs I r)
    with enqueue_loop_keeps [OF enqueue_batch(4,5), of r i j] i j(1)
    have "jobAt (fst s') i = Some j" by simp
    then show ?thesis by (rule keep)
  next
    case (fail k w g r I now msg t)
    with l have "(k, w, g) \<noteq> (i, WorkerID j, LeaseGeneration j)" by simp
    then show ?thesis
      by (rule out [where now = now and msg = msg and t' = t]) (use fail in simp)
  next
    case (retry k w g r I now msg at)
    with l have "(k, w, g) \<noteq> (i, WorkerID j, LeaseGeneration j)" by simp
    then show ?thesis
      by (rule out [where now = now and msg = msg and at = at]) (use retry in simp)
  next
    case (confirm_cancel k w g r I now)
    with l have "(k, w, g) \<noteq> (i, WorkerID j, LeaseGeneration j)" by simp
    then show ?thesis by (rule out [where now = now]) (use confirm_cancel in simp)
  next
    case (reorder r r' I)
    with reordered_reads(1) [OF wf, of r'] j(1) have "jobAt (fst s') i = Some j" by simp
    then show ?thesis by (rule keep)
  qed (use op complete_same_execution [OF wf j] claim_same_execution [OF wf j]
      dr [OF drifts_ops(1)] dr [OF drifts_ops(2)] dr [OF drifts_ops(3)] dr [OF drifts_recover]
      dr [OF drifts_Promote [OF wf]] dr [OF drifts_skip [OF wf]] dr [OF drifts_bulk_skip [OF wf]]
      in simp_all)
qed

text \<open>C3: completed is final, but for one late call. Once a job is completed, no sequence of operations
  with any arguments, replays and purges included, takes it out of that state, removes it or hands it
  to a worker again, as long as no one reports another outcome (\<open>Fail\<close>, \<open>Retry\<close>, \<open>ConfirmCancel\<close>) with
  the worker and generation of its last execution. Such a late report is accepted, and each of the
  three undoes the completion.\<close>

theorem completed_is_final:
  assumes "calls ls (New_mem, []) (r, I)" and "jobAt r i = Some j" and "Status j = StateCompleted"
  shows "(\<forall>ms r' I'. calls ms (r, I) (r', I') \<and>
      Outcome (i, WorkerID j, LeaseGeneration j) \<notin> set ms \<longrightarrow>
      (\<exists>j'. jobAt r' i = Some j' \<and> Status j' = StateCompleted \<and> WorkerID j' = WorkerID j \<and>
        LeaseGeneration j' = LeaseGeneration j \<and> StartedAt j' = StartedAt j)) \<and>
    (\<forall>x \<in> {Fail_mem now i (WorkerID j) (LeaseGeneration j) msg t r,
        Retry_mem now i (WorkerID j) (LeaseGeneration j) msg at r,
        ConfirmCancel_mem now i (WorkerID j) (LeaseGeneration j) r}.
      fst x = None \<and> (\<exists>j'. jobAt (snd x) i = Some j' \<and> Status j' \<noteq> StateCompleted))"
proof (intro conjI allI impI ballI)
  fix ms r' I'
  assume ms: "calls ms (r, I) (r', I') \<and> Outcome (i, WorkerID j, LeaseGeneration j) \<notin> set ms"
  have "\<exists>j'. jobAt (fst b) i = Some j' \<and> same_execution j j'"
    if "calls ms a b" "a = (r, I)" "Outcome (i, WorkerID j, LeaseGeneration j) \<notin> set ms" for a b
    using that
  proof (induction rule: calls.induct)
    case (none s)
    with assms(2,3) show ?case by (simp add: same_execution_def)
  next
    case (more ls s b l c)
    then obtain y where y: "jobAt (fst b) i = Some y" "same_execution j y" by auto
    have ok: "stored_ok b"
      using calls_ok [OF more.hyps(1)] calls_ok [OF assms(1)] more.prems(1) by simp
    have "l \<noteq> Outcome (i, WorkerID y, LeaseGeneration y)"
      using more.prems(2) y(2) by (auto simp: same_execution_def)
    with call_completed [OF more.hyps(2) ok y(1)] y(2) show ?case
      by (fastforce simp: same_execution_def)
  qed
  with ms show "\<exists>j'. jobAt r' i = Some j' \<and> Status j' = StateCompleted \<and> WorkerID j' = WorkerID j \<and>
      LeaseGeneration j' = LeaseGeneration j \<and> StartedAt j' = StartedAt j"
    by (fastforce simp: same_execution_def)
qed (use assms(2) in \<open>auto simp: Fail_mem_def Retry_mem_def ConfirmCancel_mem_def with_lease_def
    failed_def retrying_def Let_def\<close>)

theorem completed_is_final_witness:
  "\<exists>ls r j. calls ls (New_mem, []) (r, [8, 7]) \<and> jobAt r 7 = Some j \<and> Status j = StateCompleted \<and>
     fst (Fail_mem 60 7 ''w'' 1 ''late'' True r) = None"
proof -
  let ?r = "snd (Complete_mem 50 7 ''w'' 1 two_jobs_claimed)"
  let ?j = "job_or_zero ?r 7"
  have e: "jobAt ?r 7 = Some ?j" "Status ?j = StateCompleted" "WorkerID ?j = ''w''" "LeaseGeneration ?j = 1"
    by code_simp+
  obtain ls where "calls ls (New_mem, []) (two_jobs_claimed, [8, 7])" using sample_calls by blast
  from calls.more [OF this call.complete [of _ _ 50 7 "''w''" 1]]
  have c: "calls (ls @ [Plain]) (New_mem, []) (?r, [8, 7])" .
  from completed_is_final [OF c e(1,2), of 60 "''late''" True] have
    "fst (Fail_mem 60 7 (WorkerID ?j) (LeaseGeneration ?j) ''late'' True ?r) = None" by blast
  with c e show ?thesis by metis
qed

end
