(* ===== verification/Sql.thy ===== *)
theory Sql
  imports Memory_Query
begin

text \<open>
  What the two SQL repositories share: the table \<open>ordered_jobs\<close> (src/repository/postgres and
  src/repository/sqlserver, 001_initial.sql), the statements they run on it, and transactions.

  \<^item> A table is a list of rows in no fixed order; a nullable column is an option. \<open>row_job\<close> is the
    row as the repositories scan it, with the \<open>COALESCE\<close>s of their column lists.
  \<^item> A statement runs as a whole. It may fail (\<open>faults\<close> says which statements of which call do,
    and with what error); in a PostgreSQL transaction a failed statement aborts the transaction: every
    later statement fails and the commit rolls back.
  \<^item> An environment \<open>env\<close> has what a call reads from outside: the database clock, the clock of the
    Go process, the rows other transactions have locked, the faults, the text the database
    gives back for a JSON value, and what the plan of a claim leaves open: the order of rows that
    its \<open>ORDER BY\<close> does not tell apart (\<open>tie\<close>), and whether it evaluates the condition of
    every row or stops at the first that qualifies (\<open>full_scan\<close>). Between the statements of one call other transactions do not run:
    enqueues hold the lock of the chain, every other write is one conditional update, and the rows
    \<open>SKIP LOCKED\<close> passes over are in \<open>locked\<close>.
\<close>

section \<open>The table\<close>

record row =
  rid :: uuid
  chain_id :: string
  sequence :: int
  job_type :: string
  payload :: string
  status :: string
  attempt :: int
  max_attempts :: int
  available_at :: time
  deadline_at :: "time option"
  worker_id :: "string option"
  lease_until :: "time option"
  lease_generation :: int
  started_at :: "time option"
  completed_at :: "time option"
  failed_at :: "time option"
  idempotency_key :: "string option"
  last_error :: "string option"
  tenant_id :: "string option"
  trace_id :: "string option"
  ordering_mode :: string
  created_at :: time
  updated_at :: time

text \<open>\<open>COALESCE(column, '')\<close>, and \<open>nullable\<close>, its counterpart when a row is written.\<close>

definition coalesce :: "string option \<Rightarrow> string" where
  "coalesce v = (case v of None \<Rightarrow> [] | Some s \<Rightarrow> s)"

definition nullable :: "string \<Rightarrow> string option" where
  "nullable s = (if s = [] then None else Some s)"

lemma coalesce_simps [simp]:
  "coalesce None = []" "coalesce (Some s) = s" "coalesce (nullable s) = s"
  by (simp_all add: coalesce_def nullable_def)

definition row_job :: "row \<Rightarrow> job" where
  "row_job x =
    \<lparr>ID = rid x, ChainID = chain_id x, Sequence = sequence x, Type = job_type x,
     Payload = payload x, IdempotencyKey = coalesce (idempotency_key x),
     TenantID = coalesce (tenant_id x), OrderingMode = ordering_mode x, Status = status x,
     Attempt = attempt x, MaxAttempts = max_attempts x, AvailableAt = available_at x,
     DeadlineAt = deadline_at x, WorkerID = coalesce (worker_id x), LeaseUntil = lease_until x,
     LeaseGeneration = lease_generation x, LastError = coalesce (last_error x),
     CreatedAt = created_at x, UpdatedAt = updated_at x, StartedAt = started_at x,
     CompletedAt = completed_at x, FailedAt = failed_at x, TraceID = coalesce (trace_id x)\<rparr>"

lemma row_job_sel [simp]:
  "ID (row_job x) = rid x" "ChainID (row_job x) = chain_id x" "Sequence (row_job x) = sequence x"
  "Type (row_job x) = job_type x" "Payload (row_job x) = payload x"
  "IdempotencyKey (row_job x) = coalesce (idempotency_key x)"
  "TenantID (row_job x) = coalesce (tenant_id x)" "OrderingMode (row_job x) = ordering_mode x"
  "Status (row_job x) = status x" "Attempt (row_job x) = attempt x"
  "MaxAttempts (row_job x) = max_attempts x" "AvailableAt (row_job x) = available_at x"
  "DeadlineAt (row_job x) = deadline_at x" "WorkerID (row_job x) = coalesce (worker_id x)"
  "LeaseUntil (row_job x) = lease_until x" "LeaseGeneration (row_job x) = lease_generation x"
  "LastError (row_job x) = coalesce (last_error x)" "CreatedAt (row_job x) = created_at x"
  "UpdatedAt (row_job x) = updated_at x" "StartedAt (row_job x) = started_at x"
  "CompletedAt (row_job x) = completed_at x" "FailedAt (row_job x) = failed_at x"
  "TraceID (row_job x) = coalesce (trace_id x)"
  by (simp_all add: row_job_def)

record sqldb =
  table :: "row list"
  sent :: "(string \<times> string) list"

definition empty_db :: sqldb where
  "empty_db = \<lparr>table = [], sent = []\<rparr>"

section \<open>Environments and transactions\<close>

record env =
  db_now :: time
  go_now :: time
  locked :: "uuid \<Rightarrow> bool"
  faults :: "nat \<Rightarrow> nat \<Rightarrow> gerror option"
  jsonb :: "string \<Rightarrow> string option"
  tie :: "uuid \<Rightarrow> nat"
  full_scan :: bool

record txn =
  tab :: "row list"
  notices :: "(string \<times> string) list"
  step_no :: nat
  aborted :: bool
  aborts :: bool
  failing :: "nat \<Rightarrow> gerror option"

type_synonym 'a query = "txn \<Rightarrow> (gerror + 'a) \<times> txn"

definition returnq :: "'a \<Rightarrow> 'a query" where
  "returnq x t = (Inr x, t)"

definition failq :: "gerror \<Rightarrow> 'a query" where
  "failq e t = (Inl e, t)"

text \<open>\<open>if err != nil { return err }\<close> after a statement, and a statement whose error the code looks
  at or drops.\<close>

definition bindq :: "'a query \<Rightarrow> ('a \<Rightarrow> 'b query) \<Rightarrow> 'b query" where
  "bindq m f t = (case m t of (Inl e, t') \<Rightarrow> (Inl e, t') | (Inr x, t') \<Rightarrow> f x t')"

definition observe :: "'a query \<Rightarrow> (gerror + 'a) query" where
  "observe m t = (case m t of (res, t') \<Rightarrow> (Inr res, t'))"

definition ErrTxAborted :: gerror where
  "ErrTxAborted = Message ''current transaction is aborted''"

definition stmt :: "(row list \<Rightarrow> (gerror + 'a) \<times> row list) \<Rightarrow> 'a query" where
  "stmt f t =
    (if aborted t then (Inl ErrTxAborted, t)
     else
       (let n = step_no t;
            broken = t\<lparr>step_no := n + 1, aborted := aborts t\<rparr>
        in case failing t n of
             Some e \<Rightarrow> (Inl e, broken)
           | None \<Rightarrow>
               (case f (tab t) of
                  (Inl e, _) \<Rightarrow> (Inl e, broken)
                | (Inr x, T) \<Rightarrow> (Inr x, t\<lparr>step_no := n + 1, tab := T\<rparr>))))"

text \<open>\<open>withTx\<close>: begin, the body, and commit or roll back. Notifications go out with the commit.
  Outside a transaction every statement takes effect by itself.\<close>

definition begin_tx :: "bool \<Rightarrow> env \<Rightarrow> nat \<Rightarrow> nat \<Rightarrow> sqldb \<Rightarrow> txn" where
  "begin_tx aborting E call n d =
    \<lparr>tab = table d, notices = [], step_no = n, aborted = False, aborts = aborting,
     failing = faults E call\<rparr>"

definition withTx :: "bool \<Rightarrow> env \<Rightarrow> 'a query \<Rightarrow> sqldb \<Rightarrow> (gerror + 'a) \<times> sqldb" where
  "withTx aborting E fn d =
    (case faults E 0 0 of
       Some e \<Rightarrow> (Inl e, d)
     | None \<Rightarrow>
         (case fn (begin_tx aborting E 0 1 d) of
            (Inl e, _) \<Rightarrow> (Inl e, d)
          | (Inr x, t) \<Rightarrow>
              if aborted t then (Inl (Message ''commit unexpectedly resulted in rollback''), d)
              else case failing t (step_no t) of
                     Some e \<Rightarrow> (Inl e, d)
                   | None \<Rightarrow> (Inr x, \<lparr>table = tab t, sent = sent d @ notices t\<rparr>)))"

definition autocommit :: "env \<Rightarrow> nat \<Rightarrow> 'a query \<Rightarrow> sqldb \<Rightarrow> (gerror + 'a) \<times> sqldb" where
  "autocommit E call q d =
    (case q (begin_tx False E call 0 d) of
       (res, t) \<Rightarrow> (res, \<lparr>table = tab t, sent = sent d @ notices t\<rparr>))"

section \<open>Statements\<close>

definition sql_select :: "(row \<Rightarrow> bool) \<Rightarrow> row list query" where
  "sql_select p = stmt (\<lambda>T. (Inr (filter p T), T))"

text \<open>\<open>UPDATE \<dots> SET f WHERE p\<close>, where \<open>p\<close> may look at the whole table; the answer is the list of
  the updated rows.\<close>

definition update_rows :: "(row \<Rightarrow> bool) \<Rightarrow> (row \<Rightarrow> row) \<Rightarrow> row list \<Rightarrow> row list" where
  "update_rows p f T = map (\<lambda>x. if p x then f x else x) T"

definition sql_update :: "(row list \<Rightarrow> row \<Rightarrow> bool) \<Rightarrow> (row \<Rightarrow> row) \<Rightarrow> row list query" where
  "sql_update p f = stmt (\<lambda>T. (Inr (map f (filter (p T) T)), update_rows (p T) f T))"

definition sql_error :: "string \<Rightarrow> 'a query" where
  "sql_error msg = stmt (\<lambda>T. (Inl (Message msg), T))"

definition sql_delete :: "(row \<Rightarrow> bool) \<Rightarrow> int query" where
  "sql_delete p = stmt (\<lambda>T. (Inr (int (length (filter p T))), filter (\<lambda>x. \<not> p x) T))"

text \<open>\<open>INSERT\<close>, with the primary key and the unique constraint on chain and sequence.\<close>

definition sql_insert :: "row \<Rightarrow> row query" where
  "sql_insert x = stmt (\<lambda>T.
    if list_ex (\<lambda>y. rid y = rid x \<or> chain_id y = chain_id x \<and> sequence y = sequence x) T
    then (Inl (Message ''duplicate key value violates unique constraint''), T)
    else (Inr x, T @ [x]))"

text \<open>\<open>SELECT MAX(sequence)\<close>: NULL when no row matches.\<close>

definition sql_max_sequence :: "string \<Rightarrow> int option query" where
  "sql_max_sequence c = stmt (\<lambda>T.
    (Inr (case filter (\<lambda>x. chain_id x = c) T of
            [] \<Rightarrow> None
          | y # ys \<Rightarrow> Some (fold max (map sequence ys) (sequence y))), T))"

definition sql_exists :: "(row \<Rightarrow> bool) \<Rightarrow> bool query" where
  "sql_exists p = stmt (\<lambda>T. (Inr (list_ex p T), T))"

text \<open>A single row or \<open>ErrNoRows\<close>: the first row, in the order the database delivers them.\<close>

definition first_row :: "'a list \<Rightarrow> 'a option" where
  "first_row xs = (case xs of [] \<Rightarrow> None | x # _ \<Rightarrow> Some x)"

section \<open>\<open>LIKE\<close>\<close>

text \<open>\<open>%\<close> stands for any text, \<open>_\<close> for one character, a backslash takes the next one literally.\<close>

function like_match :: "string \<Rightarrow> string \<Rightarrow> bool" where
  "like_match [] s = (s = [])"
| "like_match (c # p) s =
    (if c = CHR ''%''
     then like_match p s \<or> (case s of [] \<Rightarrow> False | _ # s' \<Rightarrow> like_match (c # p) s')
     else case s of
       [] \<Rightarrow> False
     | d # s' \<Rightarrow>
         if c = CHR ''_'' then like_match p s'
         else if c = CHR 0x5C
         then (case p of [] \<Rightarrow> False | e # p' \<Rightarrow> e = d \<and> like_match p' s')
         else c = d \<and> like_match p s')"
  by pat_completeness auto
termination by (relation "measure (\<lambda>(p, s). length p + length s)") auto

definition ILIKE :: "string \<Rightarrow> string \<Rightarrow> bool" where
  "ILIKE s p = like_match (ToLower p) (ToLower s)"

end
