(* ===== verification/Postgres.thy ===== *)
theory Postgres
  imports Sql Retry
begin

text \<open>
  The PostgreSQL repository (src/repository/postgres/repository.go), operation by operation, with
  the statements as they are written there. Beside the explicit \<open>pg_notify\<close> calls, the trigger of
  001_initial.sql notifies channel \<open>ordered_jobs\<close> of every row written as pending or retrying.
  \<open>db_now\<close> is \<open>NOW()\<close>, \<open>go_now\<close> is \<open>time.Now().UTC()\<close>.
\<close>

section \<open>The repository value\<close>

record PgRepository =
  allowGap_pg :: bool
  notifyChannel_pg :: string

definition WithAllowGap_pg :: "bool \<Rightarrow> PgRepository \<Rightarrow> PgRepository" where
  "WithAllowGap_pg allow c = c\<lparr>allowGap_pg := allow\<rparr>"

definition WithNotifyChannel_pg :: "string \<Rightarrow> PgRepository \<Rightarrow> PgRepository" where
  "WithNotifyChannel_pg ch c = c\<lparr>notifyChannel_pg := ch\<rparr>"

definition New_pg :: "(PgRepository \<Rightarrow> PgRepository) list \<Rightarrow> PgRepository" where
  "New_pg opts = fold (\<lambda>opt c. opt c) opts
     \<lparr>allowGap_pg = False, notifyChannel_pg = ''ordered_jobs''\<rparr>"

definition NotifyChannel_pg :: "PgRepository \<Rightarrow> string" where
  "NotifyChannel_pg c = notifyChannel_pg c"

section \<open>Notifications\<close>

text \<open>Equal notifications of one transaction are delivered once; an empty channel is an error.\<close>

definition add_notice :: "string \<times> string \<Rightarrow> txn \<Rightarrow> txn" where
  "add_notice n t = (if n \<in> set (notices t) then t else t\<lparr>notices := notices t @ [n]\<rparr>)"

definition notify_pg :: "string \<Rightarrow> string \<Rightarrow> unit query" where
  "notify_pg channel msg =
    (if channel = [] then sql_error ''channel name cannot be empty''
     else bindq (stmt (\<lambda>T. (Inr (), T))) (\<lambda>_ t. (Inr (), add_notice (channel, msg) t)))"

definition wakes :: "row \<Rightarrow> bool" where
  "wakes x \<longleftrightarrow> status x = StatePending \<or> status x = StateRetrying"

definition trigger_pg :: "row list \<Rightarrow> row list query" where
  "trigger_pg xs t =
    (Inr xs, fold (\<lambda>x. add_notice (''ordered_jobs'', chain_id x)) (filter wakes xs) t)"

definition pg_update :: "(row \<Rightarrow> bool) \<Rightarrow> (row \<Rightarrow> row) \<Rightarrow> row list query" where
  "pg_update p f = bindq (sql_update (\<lambda>_. p) f) trigger_pg"

section \<open>Enqueue\<close>

definition lock_chain_pg :: "string \<Rightarrow> unit query" where
  "lock_chain_pg c = stmt (\<lambda>T. (Inr (), T))"

text \<open>The columns \<open>findExistingByIdempotencyKey\<close> and the \<open>INSERT\<close>s return.\<close>

definition scan_existing :: "row \<Rightarrow> job" where
  "scan_existing x =
    (row_job x)\<lparr>StartedAt := None, CompletedAt := None, FailedAt := None, LastError := []\<rparr>"

definition findExistingByIdempotencyKey_pg :: "string \<Rightarrow> job option query" where
  "findExistingByIdempotencyKey_pg key =
    (if key = [] then returnq None
     else bindq (sql_select (\<lambda>x. idempotency_key x = Some key))
       (\<lambda>xs. returnq (map_option scan_existing (first_row xs))))"

definition at_seq :: "string \<Rightarrow> int \<Rightarrow> row \<Rightarrow> bool" where
  "at_seq c q x \<longleftrightarrow> chain_id x = c \<and> sequence x = q"

text \<open>\<open>*max + 1\<close> on \<open>int64\<close>: after the largest number comes the smallest.\<close>

definition next_seq :: "int option \<Rightarrow> int" where
  "next_seq mx = (case mx of None \<Rightarrow> 1 | Some m \<Rightarrow> wrap64 (m + 1))"

definition sequence_pg :: "PgRepository \<Rightarrow> string \<Rightarrow> int \<Rightarrow> int query" where
  "sequence_pg c ch seq =
    (if seq = 0 then bindq (sql_max_sequence ch) (\<lambda>mx. returnq (next_seq mx))
     else bindq (sql_exists (at_seq ch seq)) (\<lambda>exists.
       if exists then failq ErrDuplicateChainSeq
       else if seq > 1 \<and> \<not> allowGap_pg c then
         bindq (observe (sql_exists (at_seq ch (seq - 1)))) (\<lambda>pr.
           if pr \<noteq> Inr True then
             bindq (observe (sql_max_sequence ch)) (\<lambda>mr.
               (case (case mr of Inl _ \<Rightarrow> None | Inr mx \<Rightarrow> mx) of
                  Some m \<Rightarrow>
                    if seq > wrap64 (m + 1)
                    then failq (Errorf1 [] ErrSequenceGap
                      ('': chain '' @ ch @ '' missing seq '' @ format_int (seq - 1)))
                    else returnq seq
                | None \<Rightarrow>
                    if seq \<noteq> 1
                    then failq (Errorf1 [] ErrSequenceGap '': first sequence must be 1'')
                    else returnq seq))
           else returnq seq)
       else returnq seq))"

text \<open>The status \<open>Enqueue\<close> gives: only a completed predecessor counts.\<close>

definition status_pg :: "string \<Rightarrow> int \<Rightarrow> string query" where
  "status_pg ch seq =
    (if seq > 1 then
       bindq (sql_select (at_seq ch (seq - 1))) (\<lambda>xs.
         returnq (case first_row xs of
             None \<Rightarrow> StateBlocked
           | Some p \<Rightarrow> if status p \<noteq> StateCompleted then StateBlocked else StatePending))
     else returnq StatePending)"

text \<open>The row of an \<open>INSERT\<close>. \<open>Enqueue\<close> does not name the column \<open>ordering_mode\<close> and gets its
  default.\<close>

definition new_row ::
  "time \<Rightarrow> time \<Rightarrow> uuid \<Rightarrow> EnqueueRequest \<Rightarrow> int \<Rightarrow> string \<Rightarrow> string \<Rightarrow> string \<Rightarrow> row" where
  "new_row dbnow gonow jid req seq st mode body =
    \<lparr>rid = jid, chain_id = ChainID_req req, sequence = seq, job_type = Type_req req,
     payload = body, status = st, attempt = 0,
     max_attempts = (if MaxAttempts_req req = 0 then 5 else MaxAttempts_req req),
     available_at = (case AvailableAt_req req of None \<Rightarrow> gonow | Some t \<Rightarrow> t),
     deadline_at = DeadlineAt_req req, worker_id = None, lease_until = None,
     lease_generation = 0, started_at = None, completed_at = None, failed_at = None,
     idempotency_key = nullable (IdempotencyKey_req req), last_error = None,
     tenant_id = nullable (TenantID_req req), trace_id = nullable (TraceID_req req),
     ordering_mode = mode, created_at = dbnow, updated_at = dbnow\<rparr>"

definition marshal_payload :: "any_value \<Rightarrow> gerror + string" where
  "marshal_payload v =
    (case json_Marshal v of Inl e \<Rightarrow> Inl e | Inr b \<Rightarrow> Inr (if length b = 0 then ''{}'' else b))"

definition insert_pg ::
  "env \<Rightarrow> time \<Rightarrow> uuid \<Rightarrow> EnqueueRequest \<Rightarrow> int \<Rightarrow> string \<Rightarrow> string \<Rightarrow> row query" where
  "insert_pg E gonow jid req seq st mode =
    (case marshal_payload (Payload_req req) of
       Inl e \<Rightarrow> failq e
     | Inr bytes \<Rightarrow>
         (case jsonb E bytes of
            None \<Rightarrow> sql_error ''invalid input syntax for type json''
          | Some body \<Rightarrow>
              bindq (sql_insert (new_row (db_now E) gonow jid req seq st mode body)) (\<lambda>x.
                bindq (trigger_pg [x]) (\<lambda>_. returnq x))))"

definition enqueue_body_pg :: "PgRepository \<Rightarrow> env \<Rightarrow> uuid \<Rightarrow> EnqueueRequest \<Rightarrow> job query" where
  "enqueue_body_pg c E jid req =
    bindq (lock_chain_pg (ChainID_req req)) (\<lambda>_.
      bindq (findExistingByIdempotencyKey_pg (IdempotencyKey_req req)) (\<lambda>found.
        case found of
          Some existing \<Rightarrow> returnq existing
        | None \<Rightarrow>
            bindq (sequence_pg c (ChainID_req req) (Sequence_req req)) (\<lambda>seq.
              bindq (status_pg (ChainID_req req) seq) (\<lambda>st.
                bindq (insert_pg E (go_now E) jid req seq st OrderingModeStrict) (\<lambda>x.
                  returnq ((row_job x)\<lparr>OrderingMode := []\<rparr>))))))"

definition Enqueue_pg ::
  "PgRepository \<Rightarrow> env \<Rightarrow> uuid \<Rightarrow> EnqueueRequest \<Rightarrow> sqldb \<Rightarrow> (gerror + job) \<times> sqldb" where
  "Enqueue_pg c E jid req d =
    (case withTx True E (enqueue_body_pg c E jid req) d of
       (Inl e, d') \<Rightarrow> (Inl e, d')
     | (Inr job, d') \<Rightarrow>
         (Inr job, snd (autocommit E 1 (notify_pg (notifyChannel_pg c) (ChainID job)) d')))"

section \<open>EnqueueBatch\<close>

definition distinctChains :: "EnqueueRequest list \<Rightarrow> string list" where
  "distinctChains reqs = remdups (map ChainID_req reqs)"

definition resolveSequenceInTx_pg :: "string \<Rightarrow> int \<Rightarrow> int query" where
  "resolveSequenceInTx_pg ch requestedSeq =
    (if requestedSeq = 0 then bindq (sql_max_sequence ch) (\<lambda>mx. returnq (next_seq mx))
     else bindq (sql_exists (at_seq ch requestedSeq)) (\<lambda>exists.
       if exists then failq ErrDuplicateChainSeq else returnq requestedSeq))"

text \<open>The predecessor is looked up in the table, then among the jobs of the batch so far.\<close>

definition pred_finished :: "string \<Rightarrow> string \<Rightarrow> bool" where
  "pred_finished st mode \<longleftrightarrow>
     st = StateCompleted \<or>
     (st = StateFailed \<or> st = StateDeadLettered) \<and>
     (mode = OrderingModeSkipOnFailure \<or> mode = OrderingModeDeadLetterAndContinue)"

definition determineStatusInTx_pg :: "string \<Rightarrow> int \<Rightarrow> job list \<Rightarrow> string query" where
  "determineStatusInTx_pg ch seq previousInBatch =
    (if seq \<le> 1 then returnq StatePending
     else bindq (sql_select (at_seq ch (seq - 1))) (\<lambda>xs.
       returnq
         (case (case first_row xs of
                  Some p \<Rightarrow> Some (status p, ordering_mode p)
                | None \<Rightarrow>
                    map_option (\<lambda>j. (Status j, OrderingMode j))
                      (List.find (\<lambda>j. ChainID j = ch \<and> Sequence j = seq - 1) previousInBatch)) of
            None \<Rightarrow> StateBlocked
          | Some (st, mode) \<Rightarrow> if \<not> pred_finished st mode then StateBlocked else StatePending)))"

definition enqueueSingleInTx_pg ::
  "env \<Rightarrow> time \<Rightarrow> uuid \<Rightarrow> EnqueueRequest \<Rightarrow> job list \<Rightarrow> job query" where
  "enqueueSingleInTx_pg E gonow jid req previousInBatch =
    bindq (findExistingByIdempotencyKey_pg (IdempotencyKey_req req)) (\<lambda>found.
      case found of
        Some existing \<Rightarrow> returnq existing
      | None \<Rightarrow>
          (case (if IdempotencyKey_req req \<noteq> []
                 then List.find (\<lambda>o'. IdempotencyKey o' = IdempotencyKey_req req) previousInBatch
                 else None) of
             Some existing \<Rightarrow> returnq existing
           | None \<Rightarrow>
               bindq (resolveSequenceInTx_pg (ChainID_req req) (Sequence_req req)) (\<lambda>seq.
                 bindq (determineStatusInTx_pg (ChainID_req req) seq previousInBatch) (\<lambda>st.
                   bindq (insert_pg E gonow jid req seq st
                       (if OrderingMode_req req = [] then OrderingModeStrict
                        else OrderingMode_req req))
                     (\<lambda>x. returnq (row_job x))))))"

fun lock_chains_pg :: "string list \<Rightarrow> unit query" where
  "lock_chains_pg [] = returnq ()"
| "lock_chains_pg (c # cs) = bindq (lock_chain_pg c) (\<lambda>_. lock_chains_pg cs)"

fun enqueue_all_pg ::
  "env \<Rightarrow> ((time \<times> uuid) \<times> EnqueueRequest) list \<Rightarrow> job list \<Rightarrow> job list query" where
  "enqueue_all_pg E [] out = returnq out"
| "enqueue_all_pg E (((now, jid), req) # reqs) out =
    bindq (enqueueSingleInTx_pg E now jid req out) (\<lambda>j. enqueue_all_pg E reqs (out @ [j]))"

fun notify_all_pg :: "PgRepository \<Rightarrow> env \<Rightarrow> nat \<Rightarrow> job list \<Rightarrow> sqldb \<Rightarrow> sqldb" where
  "notify_all_pg c E call [] d = d"
| "notify_all_pg c E call (j # js) d =
    notify_all_pg c E (call + 1) js
      (snd (autocommit E call (notify_pg (notifyChannel_pg c) (ChainID j)) d))"

definition EnqueueBatch_pg ::
  "PgRepository \<Rightarrow> env \<Rightarrow> ((time \<times> uuid) \<times> EnqueueRequest) list \<Rightarrow> sqldb \<Rightarrow>
   (gerror + job list) \<times> sqldb" where
  "EnqueueBatch_pg c E reqs d =
    (if length reqs = 0 then (Inr [], d)
     else
       case withTx True E
         (bindq (lock_chains_pg (distinctChains (map snd reqs))) (\<lambda>_. enqueue_all_pg E reqs [])) d of
         (Inl e, d') \<Rightarrow> (Inl e, d')
       | (Inr out, d') \<Rightarrow> (Inr out, notify_all_pg c E 1 out d'))"

end
