(* ===== verification/Postgres_Ops.thy ===== *)
theory Postgres_Ops
  imports Postgres
begin

text \<open>
  The PostgreSQL repository on stored jobs (src/repository/postgres/repository.go, \<open>Get\<close> to
  \<open>RescheduleJob\<close>): claims, the operations of a lease holder, cancellation, recovery, replay, skip
  and reschedule.
\<close>

section \<open>Get\<close>

definition Get_pg :: "env \<Rightarrow> uuid \<Rightarrow> sqldb \<Rightarrow> gerror + job" where
  "Get_pg E jid d =
    fst (autocommit E 0 (bindq (sql_select (\<lambda>x. rid x = jid)) (\<lambda>xs.
      case first_row xs of None \<Rightarrow> failq ErrNotFound | Some x \<Rightarrow> returnq (row_job x))) d)"

definition GetByChainSeq_pg :: "env \<Rightarrow> string \<Rightarrow> int \<Rightarrow> sqldb \<Rightarrow> gerror + job" where
  "GetByChainSeq_pg E ch seq d =
    fst (autocommit E 0 (bindq (sql_select (at_seq ch seq)) (\<lambda>xs.
      case first_row xs of None \<Rightarrow> failq ErrNotFound | Some x \<Rightarrow> returnq (row_job x))) d)"

section \<open>Claim\<close>

text \<open>\<open>int64(lease.Seconds())\<close>, and 60 when that is not positive.\<close>

definition lease_seconds :: "duration \<Rightarrow> int" where
  "lease_seconds lease = (let leaseSec = quot lease Second in if leaseSec \<le> 0 then 60 else leaseSec)"

definition sql_pred_finished :: "row \<Rightarrow> row \<Rightarrow> bool" where
  "sql_pred_finished x p \<longleftrightarrow>
     chain_id p = chain_id x \<and> sequence p = sequence x - 1 \<and>
     (status p = StateCompleted \<or>
      (status p = StateFailed \<or> status p = StateDeadLettered) \<and>
      (ordering_mode p = OrderingModeSkipOnFailure \<or>
       ordering_mode p = OrderingModeDeadLetterAndContinue))"

definition sql_claimable :: "time \<Rightarrow> row list \<Rightarrow> row \<Rightarrow> bool" where
  "sql_claimable now T x \<longleftrightarrow>
     (status x = StatePending \<or> status x = StateRetrying) \<and> available_at x \<le> now \<and>
     (sequence x = 1 \<or> list_ex (sql_pred_finished x) T)"

text \<open>\<open>ORDER BY available_at ASC, created_at ASC \<dots> SKIP LOCKED LIMIT 1\<close>\<close>

definition claim_order :: "row \<Rightarrow> row \<Rightarrow> bool" where
  "claim_order a b \<longleftrightarrow>
     available_at a < available_at b \<or>
     available_at a = available_at b \<and> created_at a < created_at b"

text \<open>Rows that this order does not tell apart come as the plan has them.\<close>

definition comes_first :: "env \<Rightarrow> row \<Rightarrow> row \<Rightarrow> bool" where
  "comes_first E a b \<longleftrightarrow>
     claim_order a b \<or> \<not> claim_order b a \<and> tie E (rid a) < tie E (rid b)"

definition claim_candidate :: "env \<Rightarrow> row list \<Rightarrow> row option" where
  "claim_candidate E T =
    first_row (filter (\<lambda>x. \<not> locked E (rid x))
      (sort_slice (comes_first E) (filter (sql_claimable (db_now E) T) T)))"

text \<open>\<open>j.sequence - 1\<close> is computed in \<open>bigint\<close>: for the smallest number it is an error of the whole
  statement, as soon as the plan comes to that row.\<close>

definition underflows :: "time \<Rightarrow> row \<Rightarrow> bool" where
  "underflows now x \<longleftrightarrow>
     (status x = StatePending \<or> status x = StateRetrying) \<and> available_at x \<le> now \<and>
     sequence x = - (2 ^ 63)"

definition claim_overflows :: "env \<Rightarrow> row list \<Rightarrow> bool" where
  "claim_overflows E T \<longleftrightarrow>
     list_ex (\<lambda>x. underflows (db_now E) x \<and>
       (case claim_candidate E T of
          None \<Rightarrow> True
        | Some y \<Rightarrow> full_scan E \<or> \<not> comes_first E y x)) T"

definition claimed_row :: "time \<Rightarrow> string \<Rightarrow> int \<Rightarrow> row \<Rightarrow> row" where
  "claimed_row now workerID leaseSec x =
    x\<lparr>status := StateProcessing, worker_id := Some workerID,
      lease_until := Some (now + leaseSec * Second), lease_generation := lease_generation x + 1,
      attempt := attempt x + 1,
      started_at := (case started_at x of None \<Rightarrow> Some now | Some t \<Rightarrow> Some t), updated_at := now\<rparr>"

definition is_candidate :: "env \<Rightarrow> row list \<Rightarrow> row \<Rightarrow> bool" where
  "is_candidate E T x \<longleftrightarrow> (case claim_candidate E T of None \<Rightarrow> False | Some y \<Rightarrow> rid x = rid y)"

definition claim_stmt ::
  "string \<Rightarrow> (row list \<Rightarrow> bool) \<Rightarrow> (row list \<Rightarrow> row \<Rightarrow> bool) \<Rightarrow> (row \<Rightarrow> row) \<Rightarrow> row list query" where
  "claim_stmt msg overflows p f = stmt (\<lambda>T.
    if overflows T then (Inl (Message msg), T)
    else (Inr (map f (filter (p T) T)), update_rows (p T) f T))"

definition Claim_pg :: "env \<Rightarrow> string \<Rightarrow> duration \<Rightarrow> sqldb \<Rightarrow> (gerror + job) \<times> sqldb" where
  "Claim_pg E workerID lease d =
    (let leaseSec = lease_seconds lease in
     withTx True E
       (bindq (bindq (claim_stmt ''bigint out of range'' (claim_overflows E) (is_candidate E)
            (claimed_row (db_now E) workerID leaseSec)) trigger_pg) (\<lambda>xs.
          case first_row xs of None \<Rightarrow> failq ErrNotFound | Some x \<Rightarrow> returnq (row_job x))) d)"

section \<open>The holder of a lease\<close>

text \<open>\<open>WHERE id=\<dots> AND worker_id=\<dots> AND lease_generation=\<dots> AND status='PROCESSING'\<close>\<close>

definition holds_row :: "uuid \<Rightarrow> string \<Rightarrow> int \<Rightarrow> row \<Rightarrow> bool" where
  "holds_row jid workerID leaseGen x \<longleftrightarrow>
     rid x = jid \<and> worker_id x = Some workerID \<and> lease_generation x = leaseGen \<and>
     status x = StateProcessing"

text \<open>\<open>if tag.RowsAffected() == 0 { return ErrLeaseConflict }\<close>\<close>

definition need_rows :: "gerror \<Rightarrow> row list query \<Rightarrow> row list query" where
  "need_rows e q = bindq q (\<lambda>xs. if length xs = 0 then failq e else returnq xs)"

definition unblock_row :: "time \<Rightarrow> row \<Rightarrow> row" where
  "unblock_row now x = x\<lparr>status := StatePending, updated_at := now\<rparr>"

definition promote_pg :: "env \<Rightarrow> string \<Rightarrow> int \<Rightarrow> row list query" where
  "promote_pg E ch seq =
    pg_update (\<lambda>x. at_seq ch seq x \<and> status x = StateBlocked) (unblock_row (db_now E))"

definition completed_row :: "time \<Rightarrow> row \<Rightarrow> row" where
  "completed_row now x =
    x\<lparr>status := StateCompleted, completed_at := Some now, updated_at := now, lease_until := None\<rparr>"

definition Complete_pg ::
  "PgRepository \<Rightarrow> env \<Rightarrow> uuid \<Rightarrow> string \<Rightarrow> int \<Rightarrow> sqldb \<Rightarrow> (gerror + unit) \<times> sqldb" where
  "Complete_pg c E jid workerID leaseGen d =
    withTx True E
      (bindq (need_rows ErrLeaseConflict
          (pg_update (holds_row jid workerID leaseGen) (completed_row (db_now E)))) (\<lambda>_.
        bindq (sql_select (\<lambda>x. rid x = jid)) (\<lambda>xs.
          case first_row xs of
            None \<Rightarrow> failq (Message ''no rows in result set'')
          | Some x \<Rightarrow>
              bindq (promote_pg E (chain_id x) (sequence x + 1)) (\<lambda>_.
                bindq (observe (notify_pg (notifyChannel_pg c) (chain_id x))) (\<lambda>_. returnq ()))))) d"

definition failed_row :: "time \<Rightarrow> string \<Rightarrow> string \<Rightarrow> row \<Rightarrow> row" where
  "failed_row now st errMsg x =
    x\<lparr>status := st, failed_at := Some now, updated_at := now, last_error := Some errMsg,
      lease_until := None\<rparr>"

definition fail_status_pg :: "uuid \<Rightarrow> bool \<Rightarrow> string query" where
  "fail_status_pg jid terminal =
    (if terminal then
       bindq (observe (sql_select (\<lambda>x. rid x = jid))) (\<lambda>res.
         let mode = (case res of
               Inl _ \<Rightarrow> []
             | Inr xs \<Rightarrow> (case first_row xs of None \<Rightarrow> [] | Some x \<Rightarrow> ordering_mode x))
         in returnq (if mode = OrderingModeDeadLetterAndContinue then StateDeadLettered
                     else StateFailed))
     else returnq StateFailed)"

definition Fail_pg ::
  "env \<Rightarrow> uuid \<Rightarrow> string \<Rightarrow> int \<Rightarrow> string \<Rightarrow> bool \<Rightarrow> sqldb \<Rightarrow> (gerror + unit) \<times> sqldb" where
  "Fail_pg E jid workerID leaseGen errMsg terminal d =
    withTx True E
      (bindq (fail_status_pg jid terminal) (\<lambda>st.
        bindq (need_rows ErrLeaseConflict
            (pg_update (holds_row jid workerID leaseGen) (failed_row (db_now E) st errMsg)))
          (\<lambda>_. returnq ()))) d"

definition retrying_row :: "time \<Rightarrow> string \<Rightarrow> time \<Rightarrow> row \<Rightarrow> row" where
  "retrying_row now errMsg nextAvailable x =
    x\<lparr>status := StateRetrying, available_at := nextAvailable, updated_at := now,
      last_error := Some errMsg, lease_until := None\<rparr>"

definition Retry_pg ::
  "env \<Rightarrow> uuid \<Rightarrow> string \<Rightarrow> int \<Rightarrow> string \<Rightarrow> time \<Rightarrow> sqldb \<Rightarrow> (gerror + unit) \<times> sqldb" where
  "Retry_pg E jid workerID leaseGen errMsg nextAvailable d =
    withTx True E
      (bindq (need_rows ErrLeaseConflict
          (pg_update (holds_row jid workerID leaseGen)
            (retrying_row (db_now E) errMsg nextAvailable)))
        (\<lambda>_. returnq ())) d"

definition Heartbeat_pg ::
  "env \<Rightarrow> uuid \<Rightarrow> string \<Rightarrow> int \<Rightarrow> duration \<Rightarrow> sqldb \<Rightarrow> (gerror + unit) \<times> sqldb" where
  "Heartbeat_pg E jid workerID leaseGen lease d =
    autocommit E 0
      (bindq (need_rows ErrLeaseConflict
          (pg_update (holds_row jid workerID leaseGen)
            (\<lambda>x. x\<lparr>lease_until := Some (db_now E + lease_seconds lease * Second),
              updated_at := db_now E\<rparr>)))
        (\<lambda>_. returnq ())) d"

section \<open>Cancellation\<close>

definition cancel_row :: "time \<Rightarrow> row \<Rightarrow> row" where
  "cancel_row now x = x\<lparr>status := StateCancelRequested, updated_at := now\<rparr>"

definition RequestCancel_pg :: "env \<Rightarrow> uuid \<Rightarrow> sqldb \<Rightarrow> (gerror + unit) \<times> sqldb" where
  "RequestCancel_pg E jid d =
    autocommit E 0
      (bindq (pg_update (\<lambda>x. rid x = jid \<and>
          (status x = StatePending \<or> status x = StateRetrying \<or> status x = StateBlocked \<or>
           status x = StateProcessing)) (cancel_row (db_now E)))
        (\<lambda>_. returnq ())) d"

definition ConfirmCancel_pg ::
  "env \<Rightarrow> uuid \<Rightarrow> string \<Rightarrow> int \<Rightarrow> sqldb \<Rightarrow> (gerror + unit) \<times> sqldb" where
  "ConfirmCancel_pg E jid workerID leaseGen d =
    autocommit E 0
      (bindq (need_rows ErrLeaseConflict
          (pg_update (\<lambda>x. rid x = jid \<and> worker_id x = Some workerID \<and>
              lease_generation x = leaseGen)
            (\<lambda>x. x\<lparr>status := StateCancelled, updated_at := db_now E, lease_until := None\<rparr>)))
        (\<lambda>_. returnq ())) d"

section \<open>Recovery and promotion\<close>

definition stale_row :: "time \<Rightarrow> row \<Rightarrow> bool" where
  "stale_row now x \<longleftrightarrow>
     status x = StateProcessing \<and> (case lease_until x of None \<Rightarrow> False | Some t \<Rightarrow> t < now)"

text \<open>\<open>ORDER BY lease_until ASC \<dots> SKIP LOCKED LIMIT limit\<close>; a negative limit is an error.\<close>

definition stale_rows :: "env \<Rightarrow> int \<Rightarrow> row list \<Rightarrow> row list" where
  "stale_rows E limit T =
    take (nat limit) (filter (\<lambda>x. \<not> locked E (rid x))
      (sort_slice (\<lambda>a b. the (lease_until a) < the (lease_until b)) (filter (stale_row (db_now E)) T)))"

definition recovered_row :: "time \<Rightarrow> time \<Rightarrow> row \<Rightarrow> row" where
  "recovered_row now next x =
    x\<lparr>status := StateRetrying, available_at := next, updated_at := now,
      last_error := Some ''stale lease recovered'', lease_until := None\<rparr>"

text \<open>The loop reads the clock for every row; one reading stands for all of them here.\<close>

fun recover_rows_pg :: "env \<Rightarrow> (int \<Rightarrow> duration) option \<Rightarrow> row list \<Rightarrow> int \<Rightarrow> int query" where
  "recover_rows_pg E retryPolicy [] n = returnq n"
| "recover_rows_pg E retryPolicy (s # ss) n =
    (let delay = (case retryPolicy of None \<Rightarrow> Second | Some p \<Rightarrow> p (attempt s));
         next = go_now E + delay
     in bindq (pg_update (\<lambda>x. rid x = rid s \<and> stale_row (db_now E) x)
            (recovered_row (db_now E) next))
          (\<lambda>_. recover_rows_pg E retryPolicy ss (n + 1)))"

definition RecoverStale_pg ::
  "env \<Rightarrow> int \<Rightarrow> (int \<Rightarrow> duration) option \<Rightarrow> sqldb \<Rightarrow> (gerror + int) \<times> sqldb" where
  "RecoverStale_pg E limit retryPolicy d =
    withTx True E
      (bindq (if limit < 0 then sql_error ''LIMIT must not be negative''
              else stmt (\<lambda>T. (Inr (stale_rows E limit T), T)))
        (\<lambda>ss. recover_rows_pg E retryPolicy ss 0)) d"

definition PromoteNext_pg :: "env \<Rightarrow> string \<Rightarrow> int \<Rightarrow> sqldb \<Rightarrow> (gerror + unit) \<times> sqldb" where
  "PromoteNext_pg E chainID completedSeq d =
    autocommit E 0 (bindq (promote_pg E chainID (completedSeq + 1)) (\<lambda>_. returnq ())) d"

definition ListPendingChains_pg :: "env \<Rightarrow> sqldb \<Rightarrow> gerror + string list" where
  "ListPendingChains_pg E d =
    fst (autocommit E 0 (bindq (sql_select (\<lambda>x. status x = StatePending)) (\<lambda>xs.
      returnq (remdups (map chain_id xs)))) d)"

section \<open>Replay, skip, reschedule\<close>

definition replayable_row :: "row \<Rightarrow> bool" where
  "replayable_row x \<longleftrightarrow>
     status x = StateFailed \<or> status x = StateCancelled \<or> status x = StateDeadLettered"

definition replayed_row :: "time \<Rightarrow> row \<Rightarrow> row" where
  "replayed_row now x =
    x\<lparr>status := StatePending, attempt := 0, last_error := None, available_at := now,
      updated_at := now, lease_until := None\<rparr>"

text \<open>\<open>UPDATE \<dots> RETURNING\<close> the single row of an id, then the notification.\<close>

definition replay_with_pg :: "PgRepository \<Rightarrow> uuid \<Rightarrow> (row \<Rightarrow> row) \<Rightarrow> unit query" where
  "replay_with_pg c jid f =
    bindq (pg_update (\<lambda>x. rid x = jid \<and> replayable_row x) f) (\<lambda>xs.
      case first_row xs of
        None \<Rightarrow> failq ErrNotFound
      | Some x \<Rightarrow>
          bindq (observe (notify_pg (notifyChannel_pg c) (chain_id x))) (\<lambda>_. returnq ()))"

definition ReplayJob_pg :: "PgRepository \<Rightarrow> env \<Rightarrow> uuid \<Rightarrow> sqldb \<Rightarrow> (gerror + unit) \<times> sqldb" where
  "ReplayJob_pg c E jid d = withTx True E (replay_with_pg c jid (replayed_row (db_now E))) d"

definition ReplayJobWithPayload_pg ::
  "PgRepository \<Rightarrow> env \<Rightarrow> uuid \<Rightarrow> string \<Rightarrow> sqldb \<Rightarrow> (gerror + unit) \<times> sqldb" where
  "ReplayJobWithPayload_pg c E jid newPayload d =
    withTx True E
      (if length newPayload > 0 then
         (case jsonb E newPayload of
            None \<Rightarrow> sql_error ''invalid input syntax for type json''
          | Some body \<Rightarrow>
              replay_with_pg c jid (\<lambda>x. replayed_row (db_now E) (x\<lparr>payload := body\<rparr>)))
       else replay_with_pg c jid (replayed_row (db_now E))) d"

definition SkipJob_pg :: "PgRepository \<Rightarrow> env \<Rightarrow> uuid \<Rightarrow> sqldb \<Rightarrow> (gerror + unit) \<times> sqldb" where
  "SkipJob_pg c E jid d =
    withTx True E
      (bindq (pg_update (\<lambda>x. rid x = jid \<and> replayable_row x) (completed_row (db_now E))) (\<lambda>xs.
        case first_row xs of
          None \<Rightarrow> failq ErrNotFound
        | Some x \<Rightarrow>
            bindq (promote_pg E (chain_id x) (sequence x + 1)) (\<lambda>_.
              bindq (observe (notify_pg (notifyChannel_pg c) (chain_id x))) (\<lambda>_. returnq ())))) d"

definition RescheduleJob_pg ::
  "env \<Rightarrow> uuid \<Rightarrow> time \<Rightarrow> sqldb \<Rightarrow> (gerror + job) \<times> sqldb" where
  "RescheduleJob_pg E jid availableAt d =
    withTx True E
      (bindq (pg_update (\<lambda>x. rid x = jid \<and> (status x = StatePending \<or> status x = StateRetrying))
          (\<lambda>x. x\<lparr>available_at := availableAt, updated_at := db_now E\<rparr>)) (\<lambda>xs.
        case first_row xs of
          Some x \<Rightarrow> returnq (row_job x)
        | None \<Rightarrow>
            bindq (observe (sql_exists (\<lambda>x. rid x = jid))) (\<lambda>res.
              if res = Inr True then failq ErrJobNotEligible else failq ErrNotFound))) d"

section \<open>Listen\<close>

text \<open>The results of the successive waits, as far as they came in: a notification with its payload, a
  return without one, or an error (and whether the context is done by then). The answer is the
  chains handed to the callback and what \<open>Listen\<close> returned, if it did.\<close>

datatype wait_result = Notified string | NoNotification | WaitFailed gerror bool

fun listen_loop :: "wait_result list \<Rightarrow> string list \<times> gerror option option" where
  "listen_loop [] = ([], None)"
| "listen_loop (Notified ch # ws) = (case listen_loop ws of (cs, r) \<Rightarrow> (ch # cs, r))"
| "listen_loop (NoNotification # ws) = listen_loop ws"
| "listen_loop (WaitFailed e cancelled # ws) = ([], Some (if cancelled then None else Some e))"

definition Listen_pg ::
  "PgRepository \<Rightarrow> gerror option \<Rightarrow> gerror option \<Rightarrow> wait_result list \<Rightarrow>
   string list \<times> gerror option option" where
  "Listen_pg c acquire listen ws =
    (if notifyChannel_pg c = [] then ([], Some None)
     else case acquire of
       Some e \<Rightarrow> ([], Some (Some e))
     | None \<Rightarrow> (case listen of Some e \<Rightarrow> ([], Some (Some e)) | None \<Rightarrow> listen_loop ws))"

end
