(* ===== verification/Postgres_Query.thy ===== *)
theory Postgres_Query
  imports Postgres_Ops
begin

text \<open>
  Reports and dead-letter operations of the PostgreSQL repository
  (src/repository/postgres/repository.go, \<open>GetStats\<close> to \<open>CountDLQ\<close>). The WHERE clauses the code
  assembles are predicates here, one conjunct per appended clause. A column that is NULL makes a
  comparison false. Text columns are ordered by their bytes (the "C" collation).
\<close>

section \<open>GetStats\<close>

definition count_rows :: "(row \<Rightarrow> bool) \<Rightarrow> row list \<Rightarrow> int" where
  "count_rows p T = int (length (filter p T))"

text \<open>\<open>SELECT status, COUNT(*) \<dots> GROUP BY status\<close>, and what the loop does with one group.\<close>

definition group_status :: "row list \<Rightarrow> (string \<times> int) list" where
  "group_status T = map (\<lambda>st. (st, count_rows (\<lambda>x. status x = st) T)) (remdups (map status T))"

definition stats_group :: "string \<times> int \<Rightarrow> Stats \<Rightarrow> Stats" where
  "stats_group g stats =
    (case g of (st, cnt) \<Rightarrow>
      (let stats = stats\<lparr>Total_st := Total_st stats + cnt\<rparr>
       in if st = StatePending then stats\<lparr>Pending_st := cnt\<rparr>
          else if st = StateBlocked then stats\<lparr>Blocked_st := cnt\<rparr>
          else if st = StateProcessing then stats\<lparr>Processing_st := cnt\<rparr>
          else if st = StateCompleted then stats\<lparr>Completed_st := cnt\<rparr>
          else if st = StateRetrying then stats\<lparr>Retrying_st := cnt\<rparr>
          else if st = StateFailed then stats\<lparr>Failed_st := cnt\<rparr>
          else if st = StateDeadLettered then stats\<lparr>DeadLettered_st := cnt\<rparr>
          else if st = StateCancelRequested then stats\<lparr>CancelRequested_st := cnt\<rparr>
          else if st = StateCancelled then stats\<lparr>Cancelled_st := cnt\<rparr>
          else stats))"

definition sql_value :: "(row list \<Rightarrow> 'a) \<Rightarrow> 'a query" where
  "sql_value f = stmt (\<lambda>T. (Inr (f T), T))"

definition scheduled_row :: "time \<Rightarrow> row \<Rightarrow> bool" where
  "scheduled_row now x \<longleftrightarrow>
     (status x = StatePending \<or> status x = StateRetrying) \<and> available_at x > now"

definition GetStats_sql :: "env \<Rightarrow> sqldb \<Rightarrow> gerror + Stats" where
  "GetStats_sql E d =
    fst (autocommit E 0
      (bindq (sql_value group_status) (\<lambda>gs.
        let stats = fold stats_group gs zero_Stats in
        bindq (sql_value (\<lambda>T. int (length (remdups (map chain_id T))))) (\<lambda>n.
          bindq (sql_value (count_rows (scheduled_row (db_now E)))) (\<lambda>k.
            returnq (stats\<lparr>ActiveChains_st := n, Scheduled_st := k\<rparr>))))) d)"

section \<open>ListJobs\<close>

definition is_col :: "string option \<Rightarrow> string \<Rightarrow> bool" where
  "is_col v s \<longleftrightarrow> v = Some s"

definition col_ilike :: "string option \<Rightarrow> string \<Rightarrow> bool" where
  "col_ilike v pat = (case v of None \<Rightarrow> False | Some s \<Rightarrow> ILIKE s pat)"

definition search_pattern :: "string \<Rightarrow> string" where
  "search_pattern search = ''%'' @ search @ ''%''"

text \<open>The clauses \<open>ListJobs\<close> and \<open>buildDLQWhere\<close> both append.\<close>

definition where_common :: "JobFilter \<Rightarrow> row \<Rightarrow> bool" where
  "where_common flt x \<longleftrightarrow>
     (ChainID_flt flt \<noteq> [] \<longrightarrow> chain_id x = ChainID_flt flt) \<and>
     (JobType_flt flt \<noteq> [] \<longrightarrow> job_type x = JobType_flt flt) \<and>
     (TenantID_flt flt \<noteq> [] \<longrightarrow> is_col (tenant_id x) (TenantID_flt flt)) \<and>
     (TraceID_flt flt \<noteq> [] \<longrightarrow> is_col (trace_id x) (TraceID_flt flt))"

definition where_jobs_pg :: "(uuid \<Rightarrow> string) \<Rightarrow> time \<Rightarrow> JobFilter \<Rightarrow> row \<Rightarrow> bool" where
  "where_jobs_pg uuidString now flt x \<longleftrightarrow>
     (ScheduledOnly_flt flt \<longrightarrow> scheduled_row now x) \<and>
     (Status_flt flt \<noteq> [] \<longrightarrow> status x = Status_flt flt) \<and>
     where_common flt x \<and>
     (Search_flt flt \<noteq> [] \<longrightarrow>
        (let pat = search_pattern (Search_flt flt)
         in ILIKE (uuidString (rid x)) pat \<or> col_ilike (idempotency_key x) pat \<or>
            col_ilike (trace_id x) pat))"

definition row_less :: "string \<Rightarrow> row \<Rightarrow> row \<Rightarrow> bool" where
  "row_less orderBy a b =
    (let k = ToLower orderBy
     in if k = ''sequence'' then sequence a < sequence b
        else if k = ''available_at'' then available_at a < available_at b
        else if k = ''job_type'' then job_type a < job_type b
        else if k = ''status'' then status a < status b
        else created_at a < created_at b)"

text \<open>\<open>ORDER BY col dir\<close> and \<open>LIMIT l OFFSET o\<close> with the corrected limit and offset.\<close>

definition sql_dir :: "bool \<Rightarrow> ('a \<Rightarrow> 'a \<Rightarrow> bool) \<Rightarrow> 'a \<Rightarrow> 'a \<Rightarrow> bool" where
  "sql_dir asc lt a b = (if asc then lt a b else lt b a)"

definition page_limit :: "int \<Rightarrow> int" where
  "page_limit limit = (if limit \<le> 0 then 50 else limit)"

definition page_offset :: "int \<Rightarrow> int" where
  "page_offset offset = (if offset < 0 then 0 else offset)"

definition sql_page :: "int \<Rightarrow> int \<Rightarrow> 'a list \<Rightarrow> 'a list" where
  "sql_page offset limit xs = take (nat (page_limit limit)) (drop (nat (page_offset offset)) xs)"

definition ListJobs_pg ::
  "(uuid \<Rightarrow> string) \<Rightarrow> env \<Rightarrow> JobFilter \<Rightarrow> sqldb \<Rightarrow> gerror + job list \<times> int" where
  "ListJobs_pg uuidString E flt d =
    (let p = where_jobs_pg uuidString (db_now E) flt;
         asc = EqualFold (OrderDir_flt flt) ''asc''
     in fst (autocommit E 0
       (bindq (sql_value (count_rows p)) (\<lambda>total.
         bindq (sql_value (\<lambda>T. sql_page (Offset_flt flt) (Limit_flt flt)
             (sort_slice (sql_dir asc (row_less (OrderBy_flt flt))) (filter p T)))) (\<lambda>xs.
           returnq (map row_job xs, total)))) d))"

section \<open>ListChains\<close>

definition group_chain :: "row list \<Rightarrow> string \<Rightarrow> ChainSummary" where
  "group_chain T ch =
    (let xs = filter (\<lambda>x. chain_id x = ch) T in
     zero_ChainSummary\<lparr>ChainID_cs := ch, TotalJobs_cs := int (length xs),
       MaxSequence_cs := (case xs of [] \<Rightarrow> 0 | x # ys \<Rightarrow> fold max (map sequence ys) (sequence x)),
       PendingJobs_cs := count_rows (\<lambda>x. status x = StatePending \<or> status x = StateProcessing \<or>
         status x = StateRetrying) xs,
       FailedJobs_cs := count_rows (\<lambda>x. status x = StateFailed \<or> status x = StateDeadLettered) xs\<rparr>)"

definition where_chain :: "(string \<Rightarrow> string \<Rightarrow> bool) \<Rightarrow> ChainFilter \<Rightarrow> row \<Rightarrow> bool" where
  "where_chain like flt x \<longleftrightarrow>
     (Search_cflt flt \<noteq> [] \<longrightarrow> like (chain_id x) (search_pattern (Search_cflt flt)))"

definition summary_less :: "string \<Rightarrow> ChainSummary \<Rightarrow> ChainSummary \<Rightarrow> bool" where
  "summary_less orderBy a b =
    (let k = ToLower orderBy
     in if k = ''total_jobs'' then TotalJobs_cs a < TotalJobs_cs b
        else if k = ''max_sequence'' then MaxSequence_cs a < MaxSequence_cs b
        else if k = ''pending_jobs'' then PendingJobs_cs a < PendingJobs_cs b
        else if k = ''failed_jobs'' then FailedJobs_cs a < FailedJobs_cs b
        else ChainID_cs a < ChainID_cs b)"

text \<open>One more statement per summary fetches its latest status; its error is dropped.\<close>

fun latest_statuses :: "ChainSummary list \<Rightarrow> ChainSummary list query" where
  "latest_statuses [] = returnq []"
| "latest_statuses (cs # css) =
    bindq (observe (sql_select (at_seq (ChainID_cs cs) (MaxSequence_cs cs)))) (\<lambda>res.
      let cs' = (case res of
            Inl _ \<Rightarrow> cs
          | Inr xs \<Rightarrow> (case first_row xs of None \<Rightarrow> cs | Some x \<Rightarrow> cs\<lparr>LatestStatus_cs := status x\<rparr>))
      in bindq (latest_statuses css) (\<lambda>rest. returnq (cs' # rest)))"

definition ListChains_sql ::
  "(string \<Rightarrow> string \<Rightarrow> bool) \<Rightarrow> env \<Rightarrow> ChainFilter \<Rightarrow> sqldb \<Rightarrow> gerror + ChainSummary list \<times> int" where
  "ListChains_sql like E flt d =
    (let p = where_chain like flt;
         asc = \<not> EqualFold (OrderDir_cflt flt) ''desc'';
         groups = (\<lambda>T. map (group_chain (filter p T)) (remdups (map chain_id (filter p T))))
     in fst (autocommit E 0
       (bindq (sql_value (\<lambda>T. int (length (remdups (map chain_id (filter p T)))))) (\<lambda>total.
         bindq (sql_value (\<lambda>T. sql_page (Offset_cflt flt) (Limit_cflt flt)
             (sort_slice (sql_dir asc (summary_less (OrderBy_cflt flt))) (groups T)))) (\<lambda>css.
           bindq (latest_statuses css) (\<lambda>css'. returnq (css', total))))) d))"

definition ListChains_pg :: "env \<Rightarrow> ChainFilter \<Rightarrow> sqldb \<Rightarrow> gerror + ChainSummary list \<times> int" where
  "ListChains_pg = ListChains_sql ILIKE"

section \<open>The dead-letter queue\<close>

definition dlq_row :: "row \<Rightarrow> bool" where
  "dlq_row x \<longleftrightarrow> status x = StateFailed \<or> status x = StateDeadLettered"

definition buildDLQWhere_pg :: "(uuid \<Rightarrow> string) \<Rightarrow> JobFilter \<Rightarrow> row \<Rightarrow> bool" where
  "buildDLQWhere_pg uuidString flt x \<longleftrightarrow>
     dlq_row x \<and> where_common flt x \<and>
     (Search_flt flt \<noteq> [] \<longrightarrow>
        (let pat = search_pattern (Search_flt flt)
         in ILIKE (uuidString (rid x)) pat \<or> col_ilike (idempotency_key x) pat \<or>
            col_ilike (trace_id x) pat \<or> col_ilike (last_error x) pat))"

definition bulk_replayed_row :: "time \<Rightarrow> row \<Rightarrow> row" where
  "bulk_replayed_row now x =
    x\<lparr>status := StatePending, attempt := 0, last_error := Some [], available_at := now,
      updated_at := now, lease_until := None\<rparr>"

definition BulkReplayDLQ_pg ::
  "(uuid \<Rightarrow> string) \<Rightarrow> env \<Rightarrow> JobFilter \<Rightarrow> sqldb \<Rightarrow> (gerror + int) \<times> sqldb" where
  "BulkReplayDLQ_pg uuidString E flt d =
    autocommit E 0
      (bindq (pg_update (buildDLQWhere_pg uuidString flt) (bulk_replayed_row (db_now E)))
        (\<lambda>xs. returnq (int (length xs)))) d"

fun promote_items_pg :: "env \<Rightarrow> row list \<Rightarrow> unit query" where
  "promote_items_pg E [] = returnq ()"
| "promote_items_pg E (it # its) =
    bindq (observe (promote_pg E (chain_id it) (sequence it + 1))) (\<lambda>_. promote_items_pg E its)"

text \<open>The count is never assigned: the answer is 0.\<close>

definition BulkSkipDLQ_pg ::
  "(uuid \<Rightarrow> string) \<Rightarrow> env \<Rightarrow> JobFilter \<Rightarrow> sqldb \<Rightarrow> (gerror + int) \<times> sqldb" where
  "BulkSkipDLQ_pg uuidString E flt d =
    withTx True E
      (bindq (sql_select (buildDLQWhere_pg uuidString flt)) (\<lambda>items.
        if length items = 0 then returnq 0
        else
          bindq (pg_update (buildDLQWhere_pg uuidString flt) (completed_row (db_now E))) (\<lambda>_.
            bindq (promote_items_pg E items) (\<lambda>_. returnq 0)))) d"

definition BulkPurgeDLQ_pg ::
  "(uuid \<Rightarrow> string) \<Rightarrow> env \<Rightarrow> JobFilter \<Rightarrow> sqldb \<Rightarrow> (gerror + int) \<times> sqldb" where
  "BulkPurgeDLQ_pg uuidString E flt d =
    autocommit E 0 (sql_delete (buildDLQWhere_pg uuidString flt)) d"

definition CountDLQ_sql :: "env \<Rightarrow> sqldb \<Rightarrow> gerror + int" where
  "CountDLQ_sql E d = fst (autocommit E 0 (sql_value (count_rows dlq_row)) d)"

end
