(* ===== verification/Sql_Facts.thy ===== *)
theory Sql_Facts
  imports Postgres_Query
begin

text \<open>
  How statements compose. \<open>implements q g\<close> says that the query \<open>q\<close> does to the table what the
  function \<open>g\<close> does, whatever statements fail: in a PostgreSQL transaction a run of \<open>q\<close> ends
  aborted or exactly as \<open>g\<close> says, and without failures it ends as \<open>g\<close> says. So a whole transaction
  has the effect of \<open>g\<close> or none. The rest are the facts on rewriting the rows of a table.
\<close>

section \<open>Queries and table functions\<close>

definition follows :: "'a query \<Rightarrow> (row list \<Rightarrow> (gerror + 'a) \<times> row list) \<Rightarrow> bool" where
  "follows q g \<longleftrightarrow>
     (\<forall>t. aborts t \<longrightarrow>
        aborts (snd (q t)) \<and> (aborted t \<longrightarrow> aborted (snd (q t))) \<and>
        (\<not> aborted t \<longrightarrow> aborted (snd (q t)) \<or> (fst (q t), tab (snd (q t))) = g (tab t)))"

definition undisturbed :: "'a query \<Rightarrow> (row list \<Rightarrow> (gerror + 'a) \<times> row list) \<Rightarrow> bool" where
  "undisturbed q g \<longleftrightarrow>
     (\<forall>t. \<not> aborted t \<and> failing t = (\<lambda>_. None) \<longrightarrow>
        failing (snd (q t)) = (\<lambda>_. None) \<and> fst (q t) = fst (g (tab t)) \<and>
        (\<not> isl (fst (q t)) \<longrightarrow> \<not> aborted (snd (q t)) \<and> tab (snd (q t)) = snd (g (tab t))))"

definition implements :: "'a query \<Rightarrow> (row list \<Rightarrow> (gerror + 'a) \<times> row list) \<Rightarrow> bool" where
  "implements q g \<longleftrightarrow> follows q g \<and> undisturbed q g"

named_theorems impl

lemma implementsI:
  assumes "\<And>t. aborts t \<Longrightarrow> aborts (snd (q t))"
    and "\<And>t. aborts t \<Longrightarrow> aborted t \<Longrightarrow> aborted (snd (q t))"
    and "\<And>t. aborts t \<Longrightarrow> \<not> aborted t \<Longrightarrow>
      aborted (snd (q t)) \<or> (fst (q t), tab (snd (q t))) = g (tab t)"
    and "\<And>t. \<not> aborted t \<Longrightarrow> failing t = (\<lambda>_. None) \<Longrightarrow>
      failing (snd (q t)) = (\<lambda>_. None) \<and> fst (q t) = fst (g (tab t)) \<and>
      (\<not> isl (fst (q t)) \<longrightarrow> \<not> aborted (snd (q t)) \<and> tab (snd (q t)) = snd (g (tab t)))"
  shows "implements q g"
  using assms by (auto simp: implements_def follows_def undisturbed_def)

lemma implements_stmt [impl]: "implements (stmt f) f"
  by (rule implementsI) (auto simp: stmt_def Let_def split: option.splits prod.splits sum.splits)

lemma implements_returnq [impl]: "implements (returnq x) (\<lambda>T. (Inr x, T))"
  by (rule implementsI) (auto simp: returnq_def)

lemma implements_failq [impl]: "implements (failq e) (\<lambda>T. (Inl e, T))"
  by (rule implementsI) (auto simp: failq_def)

lemma implements_add_notice:
  "implements (\<lambda>t. (Inr x, add_notice n t)) (\<lambda>T. (Inr x, T))"
  by (rule implementsI) (auto simp: add_notice_def)

lemma fold_add_notice [simp]:
  "aborts (fold (\<lambda>x. add_notice (n x)) xs t) = aborts t"
  "aborted (fold (\<lambda>x. add_notice (n x)) xs t) = aborted t"
  "failing (fold (\<lambda>x. add_notice (n x)) xs t) = failing t"
  "tab (fold (\<lambda>x. add_notice (n x)) xs t) = tab t"
  "step_no (fold (\<lambda>x. add_notice (n x)) xs t) = step_no t"
  by (induction xs arbitrary: t) (simp_all add: add_notice_def)

lemma implements_trigger [impl]: "implements (trigger_pg xs) (\<lambda>T. (Inr xs, T))"
  by (rule implementsI) (auto simp: trigger_pg_def)

definition bind_table ::
  "(row list \<Rightarrow> (gerror + 'a) \<times> row list) \<Rightarrow> ('a \<Rightarrow> row list \<Rightarrow> (gerror + 'b) \<times> row list) \<Rightarrow>
   row list \<Rightarrow> (gerror + 'b) \<times> row list" where
  "bind_table g h T = (case g T of (Inl e, T') \<Rightarrow> (Inl e, T') | (Inr x, T') \<Rightarrow> h x T')"

lemma bind_table_simps [simp]:
  "g T = (Inl e, T') \<Longrightarrow> bind_table g h T = (Inl e, T')"
  "g T = (Inr x, T') \<Longrightarrow> bind_table g h T = h x T'"
  by (simp_all add: bind_table_def)

lemma implementsD:
  assumes "implements q g" and "q t = (r, t')"
  shows "aborts t \<Longrightarrow> aborts t'" and "aborts t \<Longrightarrow> aborted t \<Longrightarrow> aborted t'"
    and "aborts t \<Longrightarrow> \<not> aborted t \<Longrightarrow> aborted t' \<or> g (tab t) = (r, tab t')"
  using assms unfolding implements_def follows_def by (metis fst_conv snd_conv)+

lemma implements_undisturbed:
  assumes "implements q g" and "q t = (r, t')" and "\<not> aborted t" and "failing t = (\<lambda>_. None)"
  shows "failing t' = (\<lambda>_. None)" and "r = fst (g (tab t))"
    and "\<not> isl r \<Longrightarrow> \<not> aborted t'" and "\<not> isl r \<Longrightarrow> tab t' = snd (g (tab t))"
  using assms unfolding implements_def undisturbed_def by (metis fst_conv snd_conv)+

lemma implements_bindq [impl]:
  assumes m: "implements m g" and f: "\<And>x. implements (f x) (h x)"
  shows "implements (bindq m f) (bind_table g h)"
proof (rule implementsI)
  fix t :: txn
  obtain r t1 where mt: "m t = (r, t1)" by fastforce
  obtain r' t2 where bt: "bindq m f t = (r', t2)" by fastforce
  have split: "r' = Inl e \<and> t2 = t1" if "r = Inl e" for e
    using that mt bt by (simp add: bindq_def)
  have cont: "f x t1 = (r', t2)" if "r = Inr x" for x
    using that mt bt by (simp add: bindq_def)
  show "aborts (snd (bindq m f t))" if "aborts t"
    using implementsD(1) [OF m mt that] implementsD(1) [OF f cont] split bt by (cases r) auto
  show "aborted (snd (bindq m f t))" if "aborts t" "aborted t"
    using implementsD(1,2) [OF m mt] implementsD(2) [OF f cont] split bt that by (cases r) auto
  show "aborted (snd (bindq m f t)) \<or>
      (fst (bindq m f t), tab (snd (bindq m f t))) = bind_table g h (tab t)"
    if a: "aborts t" "\<not> aborted t"
  proof (cases r)
    case (Inl e)
    with implementsD(3) [OF m mt a] split bt show ?thesis by (auto simp: bind_table_def)
  next
    case (Inr x)
    note fx = implementsD(2,3) [OF f cont [OF Inr] implementsD(1) [OF m mt a(1)]]
    show ?thesis
      using implementsD(3) [OF m mt a] fx bt Inr by (cases "aborted t1") (auto simp: bind_table_def)
  qed
  show "failing (snd (bindq m f t)) = (\<lambda>_. None) \<and>
      fst (bindq m f t) = fst (bind_table g h (tab t)) \<and>
      (\<not> isl (fst (bindq m f t)) \<longrightarrow> \<not> aborted (snd (bindq m f t)) \<and>
         tab (snd (bindq m f t)) = snd (bind_table g h (tab t)))"
    if a: "\<not> aborted t" "failing t = (\<lambda>_. None)"
  proof (cases r)
    case (Inl e)
    then have "g (tab t) = (Inl e, snd (g (tab t)))"
      using implements_undisturbed(2) [OF m mt a] by (simp add: prod_eq_iff)
    with split [OF Inl] bt implements_undisturbed(1) [OF m mt a] show ?thesis by simp
  next
    case (Inr x)
    note u = implements_undisturbed [OF m mt a]
    have r: "\<not> isl r" "fst (g (tab t)) = Inr x" using Inr u(2) by simp_all
    have t1: "\<not> aborted t1" "g (tab t) = (Inr x, tab t1)"
      using r(2) u(3,4) [OF r(1)] by (simp_all add: prod_eq_iff)
    note v = implements_undisturbed [OF f cont [OF Inr] t1(1) u(1)]
    show ?thesis using v t1(2) bt by simp
  qed
qed

text \<open>A dropped error: the transaction is aborted, so nothing of it is committed.\<close>

lemma implements_observe [impl]:
  assumes q: "implements q g" and total: "\<And>T. \<not> isl (fst (g T))"
  shows "implements (observe q) (\<lambda>T. (Inr (fst (g T)), snd (g T)))"
proof (rule implementsI)
  fix t :: txn
  obtain r t' where qt: "q t = (r, t')" by fastforce
  then have ot: "observe q t = (Inr r, t')" by (simp add: observe_def)
  note d = implementsD [OF q qt] and u = implements_undisturbed [OF q qt]
  show "aborts (snd (observe q t))" if "aborts t" using d that ot by simp
  show "aborted (snd (observe q t))" if "aborts t" "aborted t" using d that ot by simp
  show "aborted (snd (observe q t)) \<or>
      (fst (observe q t), tab (snd (observe q t))) = (Inr (fst (g (tab t))), snd (g (tab t)))"
    if "aborts t" "\<not> aborted t" using d that ot by auto
  show "failing (snd (observe q t)) = (\<lambda>_. None) \<and>
      fst (observe q t) = fst (Inr (fst (g (tab t))), snd (g (tab t))) \<and>
      (\<not> isl (fst (observe q t)) \<longrightarrow> \<not> aborted (snd (observe q t)) \<and>
         tab (snd (observe q t)) = snd (Inr (fst (g (tab t))), snd (g (tab t))))"
    if "\<not> aborted t" "failing t = (\<lambda>_. None)"
    using u that ot total by simp
qed

text \<open>A transaction: its effect is that of the table function, or it fails and has none.\<close>

lemma withTx_implements:
  assumes q: "implements q g"
  shows "(\<exists>e. withTx True E q d = (Inl e, d)) \<or>
    (\<exists>x T n. g (table d) = (Inr x, T) \<and>
       withTx True E q d = (Inr x, \<lparr>table = T, sent = sent d @ n\<rparr>))"
proof -
  let ?t = "begin_tx True E 0 1 d"
  have t: "aborts ?t" "\<not> aborted ?t" "tab ?t = table d" by (simp_all add: begin_tx_def)
  obtain r t' where qt: "q ?t = (r, t')" by fastforce
  show ?thesis
    using implementsD(3) [OF q qt t(1,2)] t(3) qt
    by (cases r) (auto simp: withTx_def split: option.splits)
qed

definition calm :: "env \<Rightarrow> bool" where
  "calm E \<longleftrightarrow> faults E = (\<lambda>_ _. None)"

lemma withTx_calm:
  assumes q: "implements q g" and E: "calm E"
  shows "\<exists>n. withTx True E q d =
    (case g (table d) of (Inl e, _) \<Rightarrow> (Inl e, d)
     | (Inr x, T) \<Rightarrow> (Inr x, \<lparr>table = T, sent = sent d @ n\<rparr>))"
proof -
  let ?t = "begin_tx True E 0 1 d"
  have t: "\<not> aborted ?t" "failing ?t = (\<lambda>_. None)" "tab ?t = table d"
    using E by (simp_all add: begin_tx_def calm_def)
  obtain r t' where qt: "q ?t = (r, t')" by fastforce
  note u = implements_undisturbed [OF q qt t(1,2)]
  have f: "faults E 0 0 = None" using E by (simp add: calm_def)
  show ?thesis
  proof (cases r)
    case (Inl e)
    obtain T where "g (table d) = (Inl e, T)" using u(2) t(3) Inl by (metis prod.collapse)
    then show ?thesis using qt Inl f by (simp add: withTx_def)
  next
    case (Inr x)
    have r: "\<not> isl r" "fst (g (table d)) = Inr x" using Inr u(2) t(3) by simp_all
    have "g (table d) = (Inr x, tab t')" "\<not> aborted t'"
      using r(2) u(3,4) [OF r(1)] t(3) by (simp_all add: prod_eq_iff)
    then show ?thesis using qt Inr f u(1) by (auto simp: withTx_def)
  qed
qed

section \<open>Updates\<close>

definition tbl_update :: "(row \<Rightarrow> bool) \<Rightarrow> (row \<Rightarrow> row) \<Rightarrow> row list \<Rightarrow> (gerror + row list) \<times> row list" where
  "tbl_update p f T = (Inr (map f (filter p T)), update_rows p f T)"

lemma bind_trigger: "bind_table g (\<lambda>xs T. (Inr xs, T)) = g"
  by (auto simp: bind_table_def fun_eq_iff split: prod.splits sum.splits)

lemma implements_pg_update [impl]: "implements (pg_update p f) (tbl_update p f)"
proof -
  have "implements (pg_update p f) (bind_table (tbl_update p f) (\<lambda>xs T. (Inr xs, T)))"
    unfolding pg_update_def sql_update_def tbl_update_def by (intro impl)
  then show ?thesis by (simp only: bind_trigger)
qed

lemma implements_select [impl]: "implements (sql_select p) (\<lambda>T. (Inr (filter p T), T))"
  unfolding sql_select_def by (rule implements_stmt)

text \<open>An update on its own: the database refuses it, or it happens.\<close>

definition update_notices :: "env \<Rightarrow> nat \<Rightarrow> (row \<Rightarrow> bool) \<Rightarrow> (row \<Rightarrow> row) \<Rightarrow> sqldb \<Rightarrow> (string \<times> string) list" where
  "update_notices E k p f d =
    notices (snd (trigger_pg (map f (filter p (table d)))
      ((begin_tx False E k 0 d)\<lparr>step_no := 1, tab := update_rows p f (table d)\<rparr>)))"

lemma autocommit_update:
  assumes h: "\<And>xs t. h xs t = (res xs, t)"
  shows "autocommit E k (bindq (pg_update p f) h) d =
    (case faults E k 0 of
       Some e \<Rightarrow> (Inl e, d)
     | None \<Rightarrow> (res (map f (filter p (table d))),
         \<lparr>table = update_rows p f (table d), sent = sent d @ update_notices E k p f d\<rparr>))"
  by (simp add: autocommit_def bindq_def pg_update_def sql_update_def stmt_def begin_tx_def h
      trigger_pg_def update_notices_def Let_def split: option.splits)

lemma update_notices_none: "filter p (table d) = [] \<Longrightarrow> update_notices E k p f d = []"
  by (simp add: update_notices_def trigger_pg_def begin_tx_def)

section \<open>The rows of a table\<close>

definition row_at :: "row list \<Rightarrow> uuid \<Rightarrow> row option" where
  "row_at T i = List.find (\<lambda>x. rid x = i) T"

definition job_at :: "sqldb \<Rightarrow> uuid \<Rightarrow> job option" where
  "job_at d i = map_option row_job (row_at (table d) i)"

definition table_ok :: "row list \<Rightarrow> bool" where
  "table_ok T \<longleftrightarrow>
     distinct (map rid T) \<and> distinct (map (\<lambda>x. (chain_id x, sequence x)) T) \<and>
     (\<forall>x \<in> set T. status x = StateProcessing \<longrightarrow> worker_id x \<noteq> None)"

lemma row_at_Some: "row_at T i = Some x \<Longrightarrow> x \<in> set T \<and> rid x = i"
  by (auto simp: row_at_def dest: find_Some_mem)

lemma row_at_iff:
  "distinct (map rid T) \<Longrightarrow> row_at T i = Some x \<longleftrightarrow> x \<in> set T \<and> rid x = i"
proof (induction T)
  case (Cons y T)
  then show ?case by (auto simp: row_at_def)
qed (simp add: row_at_def)

lemma row_at_None: "row_at T i = None \<longleftrightarrow> i \<notin> rid ` set T"
  by (auto simp: row_at_def find_None_iff)

text \<open>The rows of an id: one or none.\<close>

lemma filter_rid:
  assumes "distinct (map rid T)"
  shows "filter (\<lambda>x. rid x = i \<and> Q x) T =
    (case row_at T i of None \<Rightarrow> [] | Some x \<Rightarrow> if Q x then [x] else [])"
  using assms
proof (induction T)
  case (Cons y T)
  then have "filter (\<lambda>x. rid x = rid y \<and> Q x) T = []"
    by (auto simp: filter_empty_conv) (metis imageI)
  with Cons show ?case by (auto simp: row_at_def)
qed (simp add: row_at_def)

lemma row_at_update [simp]:
  "(\<And>x. rid (f x) = rid x) \<Longrightarrow>
   row_at (update_rows p f T) i = map_option (\<lambda>x. if p x then f x else x) (row_at T i)"
  by (induction T) (auto simp: row_at_def update_rows_def)

lemma map_update_rows:
  "(\<And>x. g (f x) = g x) \<Longrightarrow> map g (update_rows p f T) = map g T"
  by (induction T) (auto simp: update_rows_def)

lemma update_rows_none: "filter p T = [] \<Longrightarrow> update_rows p f T = T"
  by (induction T) (auto simp: update_rows_def split: if_splits)

lemma set_update_rows: "x \<in> set (update_rows p f T) \<longleftrightarrow>
  (\<exists>y \<in> set T. x = (if p y then f y else y))"
  by (auto simp: update_rows_def)

lemma table_ok_update:
  assumes T: "table_ok T" and f: "\<And>x. rid (f x) = rid x" "\<And>x. chain_id (f x) = chain_id x"
      "\<And>x. sequence (f x) = sequence x"
    and w: "\<And>x. x \<in> set T \<Longrightarrow> p x \<Longrightarrow> status (f x) = StateProcessing \<Longrightarrow> worker_id (f x) \<noteq> None"
  shows "table_ok (update_rows p f T)"
proof -
  have m: "map rid (update_rows p f T) = map rid T"
    "map (\<lambda>x. (chain_id x, sequence x)) (update_rows p f T) = map (\<lambda>x. (chain_id x, sequence x)) T"
    using f by (auto intro: map_update_rows)
  show ?thesis
    using T w unfolding table_ok_def m by (auto simp: set_update_rows)
qed

text \<open>The rows of a place in a chain: one or none.\<close>

lemma at_seq_unique:
  assumes "table_ok T" and "x \<in> set T" and "y \<in> set T" and "at_seq c q x" and "at_seq c q y"
  shows "x = y"
  using assms
  by (auto simp: table_ok_def at_seq_def distinct_map dest!: inj_onD [where x = x and y = y])

lemma max_sequence_bounds:
  "fold max (map sequence ys) m \<ge> m \<and> (\<forall>x \<in> set ys. sequence x \<le> fold max (map sequence ys) m)"
proof (induction ys arbitrary: m)
  case (Cons y ys)
  from Cons.IH [of "max (sequence y) m"] show ?case by auto
qed simp

section \<open>The effect of a call\<close>

text \<open>
  \<open>acts E d g res\<close>: a call on \<open>d\<close> in environment \<open>E\<close> answered \<open>res\<close>, and has done what the table
  function's result \<open>g\<close> says, or failed and changed nothing; without faults it did what \<open>g\<close> says.
\<close>

definition acts ::
  "env \<Rightarrow> sqldb \<Rightarrow> (gerror + 'a) \<times> row list \<Rightarrow> (gerror + 'a) \<times> sqldb \<Rightarrow> bool" where
  "acts E d g res \<longleftrightarrow>
     ((\<exists>e. res = (Inl e, d)) \<or>
      (\<exists>x T n. g = (Inr x, T) \<and> res = (Inr x, \<lparr>table = T, sent = sent d @ n\<rparr>))) \<and>
     (calm E \<longrightarrow>
      (case g of
         (Inl e, _) \<Rightarrow> res = (Inl e, d)
       | (Inr x, T) \<Rightarrow> \<exists>n. res = (Inr x, \<lparr>table = T, sent = sent d @ n\<rparr>)))"

lemma acts_withTx: "implements q g \<Longrightarrow> acts E d (g (table d)) (withTx True E q d)"
  using withTx_implements [of q g E d] withTx_calm [of q g E d]
  by (auto simp: acts_def split: prod.splits sum.splits)

lemma acts_withTx_exists:
  assumes "\<exists>g. implements q g \<and> g (table d) = r"
  shows "acts E d r (withTx True E q d)"
  using assms acts_withTx by metis

lemma acts_calm_Inr:
  "acts E d (Inr x, T) res \<Longrightarrow> calm E \<Longrightarrow> \<exists>n. res = (Inr x, \<lparr>table = T, sent = sent d @ n\<rparr>)"
  by (simp add: acts_def)

lemma acts_calm_Inl: "acts E d (Inl e, T) res \<Longrightarrow> calm E \<Longrightarrow> res = (Inl e, d)"
  by (simp add: acts_def)

lemma acts_atomic:
  "acts E d g res \<Longrightarrow> (\<exists>e. res = (Inl e, d)) \<or>
    (\<exists>x. fst g = Inr x \<and> fst res = Inr x \<and> table (snd res) = snd g)"
  by (auto simp: acts_def)

text \<open>A single update outside a transaction.\<close>

lemma acts_autocommit_update:
  assumes h: "\<And>xs t. h xs t = (res xs, t)"
    and none: "\<And>xs. isl (res xs) \<Longrightarrow> xs = []"
  shows "acts E d (res (map f (filter p (table d))), update_rows p f (table d))
    (autocommit E 0 (bindq (pg_update p f) h) d)"
proof (cases "res (map f (filter p (table d)))")
  case (Inl e)
  then have "filter p (table d) = []" using none [of "map f (filter p (table d))"] by auto
  with Inl show ?thesis
    by (auto simp: acts_def autocommit_update [OF h] calm_def update_rows_none update_notices_none
        split: option.splits)
next
  case (Inr x)
  then show ?thesis
    by (auto simp: acts_def autocommit_update [OF h] calm_def split: option.splits)
qed

lemma implements_if [impl]:
  "(b \<Longrightarrow> implements q g) \<Longrightarrow> (\<not> b \<Longrightarrow> implements q' g') \<Longrightarrow>
   implements (if b then q else q') (\<lambda>T. if b then g T else g' T)"
  by simp

lemma implements_case_option [impl]:
  "implements q g \<Longrightarrow> (\<And>x. implements (q' x) (g' x)) \<Longrightarrow>
   implements (case v of None \<Rightarrow> q | Some x \<Rightarrow> q' x)
     (\<lambda>T. case v of None \<Rightarrow> g T | Some x \<Rightarrow> g' x T)"
  by (cases v) simp_all

lemma first_row_simps [simp]: "first_row [] = None" "first_row (x # xs) = Some x"
  by (simp_all add: first_row_def)

lemma first_row_rid [simp]: "first_row (filter (\<lambda>x. rid x = i) T) = row_at T i"
  by (induction T) (auto simp: row_at_def)

text \<open>Rewriting the row of one id leaves the others as they are.\<close>

lemma row_at_update_other:
  assumes f: "\<And>x. rid (f x) = rid x" and p: "\<And>x. p x \<Longrightarrow> rid x = i" and k: "k \<noteq> i"
  shows "row_at (update_rows p f T) k = row_at T k"
proof (cases "row_at T k")
  case (Some y)
  with row_at_Some [OF Some] p [of y] k f show ?thesis by auto
qed (simp add: f)

section \<open>Transactions that cannot commit\<close>

definition doomed :: "'a query \<Rightarrow> bool" where
  "doomed q \<longleftrightarrow> (\<forall>t. aborts t \<longrightarrow> isl (fst (q t)) \<or> aborted (snd (q t)))"

named_theorems doom

lemma doomed_failq [doom]: "doomed (failq e)"
  by (simp add: doomed_def failq_def)

lemma doomed_dropped_error [doom]: "doomed (bindq (observe (sql_error msg)) (\<lambda>_. returnq x))"
  by (simp add: doomed_def bindq_def observe_def sql_error_def stmt_def returnq_def Let_def
      split: option.splits)

lemma doomed_case_option [doom]:
  "doomed q \<Longrightarrow> (\<And>x. doomed (q' x)) \<Longrightarrow> doomed (case v of None \<Rightarrow> q | Some x \<Rightarrow> q' x)"
  by (cases v) simp_all

lemma doomed_bindq [doom]:
  assumes m: "implements m g" and f: "\<And>x. doomed (f x)"
  shows "doomed (bindq m f)"
  unfolding doomed_def
proof (intro allI impI)
  fix t :: txn assume t: "aborts t"
  obtain r t' where mt: "m t = (r, t')" by fastforce
  have "aborts t'" by (rule implementsD(1) [OF m mt t])
  then show "isl (fst (bindq m f t)) \<or> aborted (snd (bindq m f t))"
    using f mt by (cases r) (auto simp: bindq_def doomed_def)
qed

lemma withTx_doomed: "doomed q \<Longrightarrow> \<exists>e. withTx True E q d = (Inl e, d)"
  by (cases "q (begin_tx True E 0 1 d)")
    (auto simp: doomed_def withTx_def begin_tx_def split: option.splits sum.splits
      dest: spec [where x = "begin_tx True E 0 1 d"])

end
