(* ===== verification/Postgres_Effects.thy ===== *)
theory Postgres_Effects
  imports Sql_Facts
begin

text \<open>
  What each operation of the PostgreSQL repository does to the table: one table function per
  operation, and the fact (\<open>acts\<close>) that the operation has its effect or none. Properties and the
  interpretation of the engine's contract rest on these.
\<close>

section \<open>Table functions\<close>

text \<open>An update that needs a row and answers \<open>e\<close> without one.\<close>

definition tbl_need ::
  "gerror \<Rightarrow> (row \<Rightarrow> bool) \<Rightarrow> (row \<Rightarrow> row) \<Rightarrow> row list \<Rightarrow> (gerror + unit) \<times> row list" where
  "tbl_need e p f T = (if filter p T = [] then (Inl e, T) else (Inr (), update_rows p f T))"

definition tbl_promote :: "time \<Rightarrow> string \<Rightarrow> int \<Rightarrow> row list \<Rightarrow> row list" where
  "tbl_promote now c q T =
    update_rows (\<lambda>x. at_seq c q x \<and> status x = StateBlocked) (unblock_row now) T"

definition tbl_complete ::
  "time \<Rightarrow> uuid \<Rightarrow> string \<Rightarrow> int \<Rightarrow> row list \<Rightarrow> (gerror + unit) \<times> row list" where
  "tbl_complete now i w g T =
    (case filter (holds_row i w g) T of
       [] \<Rightarrow> (Inl ErrLeaseConflict, T)
     | x # _ \<Rightarrow> (Inr (), tbl_promote now (chain_id x) (sequence x + 1)
         (update_rows (holds_row i w g) (completed_row now) T)))"

definition tbl_fail ::
  "time \<Rightarrow> uuid \<Rightarrow> string \<Rightarrow> int \<Rightarrow> string \<Rightarrow> bool \<Rightarrow> row list \<Rightarrow> (gerror + unit) \<times> row list" where
  "tbl_fail now i w g msg terminal T =
    (let mode = (case row_at T i of None \<Rightarrow> [] | Some x \<Rightarrow> ordering_mode x);
         st = (if terminal \<and> mode = OrderingModeDeadLetterAndContinue then StateDeadLettered
               else StateFailed)
     in tbl_need ErrLeaseConflict (holds_row i w g) (failed_row now st msg) T)"

definition tbl_skip :: "time \<Rightarrow> uuid \<Rightarrow> row list \<Rightarrow> (gerror + unit) \<times> row list" where
  "tbl_skip now i T =
    (case filter (\<lambda>x. rid x = i \<and> replayable_row x) T of
       [] \<Rightarrow> (Inl ErrNotFound, T)
     | x # _ \<Rightarrow> (Inr (), tbl_promote now (chain_id x) (sequence x + 1)
         (update_rows (\<lambda>x. rid x = i \<and> replayable_row x) (completed_row now) T)))"

definition tbl_claim ::
  "string \<Rightarrow> env \<Rightarrow> string \<Rightarrow> int \<Rightarrow> row list \<Rightarrow> (gerror + job) \<times> row list" where
  "tbl_claim msg E w secs T =
    (if claim_overflows E T then (Inl (Message msg), T)
     else case claim_candidate E T of
       None \<Rightarrow> (Inl ErrNotFound, T)
     | Some x \<Rightarrow> (Inr (row_job (claimed_row (db_now E) w secs x)),
         update_rows (\<lambda>y. rid y = rid x) (claimed_row (db_now E) w secs) T))"

section \<open>Rewriting rows keeps what they are\<close>

text \<open>The updates keep the id and the place in the chain.\<close>

lemma row_updates [simp]:
  "rid (unblock_row now x) = rid x" "chain_id (unblock_row now x) = chain_id x"
  "sequence (unblock_row now x) = sequence x"
  "rid (completed_row now x) = rid x" "chain_id (completed_row now x) = chain_id x"
  "sequence (completed_row now x) = sequence x"
  "rid (failed_row now st msg x) = rid x" "chain_id (failed_row now st msg x) = chain_id x"
  "sequence (failed_row now st msg x) = sequence x"
  "rid (retrying_row now msg at x) = rid x" "chain_id (retrying_row now msg at x) = chain_id x"
  "sequence (retrying_row now msg at x) = sequence x"
  "rid (claimed_row now w s x) = rid x" "chain_id (claimed_row now w s x) = chain_id x"
  "sequence (claimed_row now w s x) = sequence x"
  "rid (cancel_row now x) = rid x" "chain_id (cancel_row now x) = chain_id x"
  "sequence (cancel_row now x) = sequence x"
  "rid (replayed_row now x) = rid x" "chain_id (replayed_row now x) = chain_id x"
  "sequence (replayed_row now x) = sequence x"
  "rid (recovered_row now at x) = rid x" "chain_id (recovered_row now at x) = chain_id x"
  "sequence (recovered_row now at x) = sequence x"
  by (simp_all add: unblock_row_def completed_row_def failed_row_def retrying_row_def
      claimed_row_def cancel_row_def replayed_row_def recovered_row_def)

lemma row_status [simp]:
  "status (unblock_row now x) = StatePending" "status (completed_row now x) = StateCompleted"
  "status (failed_row now st msg x) = st" "status (retrying_row now msg at x) = StateRetrying"
  "status (claimed_row now w s x) = StateProcessing"
  "status (cancel_row now x) = StateCancelRequested"
  "status (replayed_row now x) = StatePending" "status (recovered_row now at x) = StateRetrying"
  by (simp_all add: unblock_row_def completed_row_def failed_row_def retrying_row_def
      claimed_row_def cancel_row_def replayed_row_def recovered_row_def)

text \<open>The row a lease update touches.\<close>

lemma filter_holds_row:
  assumes "table_ok T"
  shows "filter (holds_row i w g) T =
    (case row_at T i of None \<Rightarrow> [] | Some x \<Rightarrow> if holds_row i w g x then [x] else [])"
proof -
  have "filter (holds_row i w g) T = filter (\<lambda>x. rid x = i \<and> holds_row i w g x) T"
    by (rule filter_cong) (auto simp: holds_row_def)
  with assms show ?thesis by (simp add: filter_rid table_ok_def)
qed

lemma holds_row_at:
  assumes x: "row_at T i = Some x" "holds_row i w g x" and y: "row_at T k = Some y"
  shows "holds_row i w g y \<longleftrightarrow> k = i"
proof (cases "k = i")
  case True
  then have "y = x" using x(1) y by simp
  with x(2) True show ?thesis by simp
next
  case False
  then show ?thesis using row_at_Some [OF y] by (auto simp: holds_row_def)
qed

lemma row_at_promote:
  "row_at (tbl_promote now c q T) k =
   map_option (\<lambda>x. if at_seq c q x \<and> status x = StateBlocked then unblock_row now x else x)
     (row_at T k)"
  by (simp add: tbl_promote_def)

lemma table_ok_promote: "table_ok T \<Longrightarrow> table_ok (tbl_promote now c q T)"
  unfolding tbl_promote_def by (rule table_ok_update) simp_all

section \<open>Every operation has its effect or none\<close>

lemma implements_notify [impl]: "ch \<noteq> [] \<Longrightarrow> implements (notify_pg ch m) (\<lambda>T. (Inr (), T))"
proof -
  assume ch: "ch \<noteq> []"
  have "implements (bindq (stmt (\<lambda>T. (Inr (), T))) (\<lambda>_ t. (Inr (), add_notice (ch, m) t)))
      (bind_table (\<lambda>T. (Inr (), T)) (\<lambda>_ T. (Inr (), T)))"
    by (intro impl implements_add_notice)
  moreover have "bind_table (\<lambda>T. (Inr (), T)) (\<lambda>_ T. (Inr (), T)) = (\<lambda>T. (Inr (), T))"
    by (simp add: fun_eq_iff)
  ultimately show ?thesis using ch by (simp add: notify_pg_def)
qed

lemma implements_need [impl]:
  "implements (need_rows e (pg_update p f))
    (bind_table (tbl_update p f) (\<lambda>xs T. if length xs = 0 then (Inl e, T) else (Inr xs, T)))"
  unfolding need_rows_def by (rule impl)+

lemma implements_cong: "implements q g \<Longrightarrow> (\<And>T. g T = g' T) \<Longrightarrow> implements q g'"
  by (simp add: ext [of g g'])

lemma implements_need_unit:
  "implements (bindq (need_rows e (pg_update p f)) (\<lambda>_. returnq ())) (tbl_need e p f)"
  by (rule implements_cong, (rule impl)+)
    (auto simp: bind_table_def tbl_update_def tbl_need_def update_rows_none)

lemma implements_promote [impl]:
  "implements (promote_pg E c q)
    (\<lambda>T. (Inr (map (unblock_row (db_now E)) (filter (\<lambda>x. at_seq c q x \<and> status x = StateBlocked) T)),
      tbl_promote (db_now E) c q T))"
  unfolding promote_pg_def by (rule implements_cong, rule impl) (simp add: tbl_update_def tbl_promote_def)

lemma Retry_acts:
  "acts E d (tbl_need ErrLeaseConflict (holds_row i w g) (retrying_row (db_now E) msg at) (table d))
    (Retry_pg E i w g msg at d)"
  unfolding Retry_pg_def by (rule acts_withTx [OF implements_need_unit])

lemma Fail_acts: "acts E d (tbl_fail (db_now E) i w g msg terminal (table d))
    (Fail_pg E i w g msg terminal d)"
proof -
  have "implements (fail_status_pg i terminal) (\<lambda>T. (Inr
      (let mode = (case row_at T i of None \<Rightarrow> [] | Some x \<Rightarrow> ordering_mode x)
       in if terminal \<and> mode = OrderingModeDeadLetterAndContinue then StateDeadLettered
          else StateFailed), T))"
  proof (cases terminal)
    case True
    show ?thesis
      unfolding fail_status_pg_def if_P [OF True] Let_def
      by (rule implements_cong, (rule impl | simp)+) (simp add: True bind_table_def)
  next
    case False
    then show ?thesis by (simp add: fail_status_pg_def implements_returnq)
  qed
  note i = implements_bindq [OF this implements_need_unit]
  show ?thesis
    unfolding Fail_pg_def
    by (rule acts_withTx [OF implements_cong, OF i]) (simp add: tbl_fail_def Let_def)
qed

lemma acts_autocommit_need:
  "acts E d (tbl_need e p f (table d))
    (autocommit E 0 (bindq (need_rows e (pg_update p f)) (\<lambda>_. returnq ())) d)"
proof -
  let ?res = "\<lambda>xs :: row list. if xs = [] then Inl e else Inr ()"
  let ?h = "\<lambda>xs. bindq (if length xs = 0 then failq e else returnq xs) (\<lambda>_. returnq ())"
  have q: "bindq (need_rows e (pg_update p f)) (\<lambda>_. returnq ()) = bindq (pg_update p f) ?h"
    by (simp add: bindq_def need_rows_def fun_eq_iff split: prod.splits sum.splits)
  have h: "?h xs t = (?res xs, t)" for xs t
    by (simp add: bindq_def failq_def returnq_def)
  have r: "xs = []" if "isl (?res xs)" for xs
    using that by (simp split: if_splits)
  note a = acts_autocommit_update [where h = ?h and res = ?res, OF h r, of E d f p]
  show ?thesis
  proof (cases "filter p (table d) = []")
    case True
    with a show ?thesis unfolding q by (simp add: tbl_need_def update_rows_none)
  next
    case False
    with a show ?thesis unfolding q by (simp add: tbl_need_def)
  qed
qed

lemma Heartbeat_acts:
  "acts E d (tbl_need ErrLeaseConflict (holds_row i w g)
      (\<lambda>x. x\<lparr>lease_until := Some (db_now E + lease_seconds l * Second), updated_at := db_now E\<rparr>) (table d))
    (Heartbeat_pg E i w g l d)"
  unfolding Heartbeat_pg_def by (rule acts_autocommit_need)

lemma ConfirmCancel_acts:
  "acts E d (tbl_need ErrLeaseConflict
      (\<lambda>x. rid x = i \<and> worker_id x = Some w \<and> lease_generation x = g)
      (\<lambda>x. x\<lparr>status := StateCancelled, updated_at := db_now E, lease_until := None\<rparr>) (table d))
    (ConfirmCancel_pg E i w g d)"
  unfolding ConfirmCancel_pg_def by (rule acts_autocommit_need)

definition cancellable :: "uuid \<Rightarrow> row \<Rightarrow> bool" where
  "cancellable i x \<longleftrightarrow> rid x = i \<and>
     (status x = StatePending \<or> status x = StateRetrying \<or> status x = StateBlocked \<or>
      status x = StateProcessing)"

lemma acts_autocommit_plain:
  "acts E d (Inr (), update_rows p f (table d))
    (autocommit E 0 (bindq (pg_update p f) (\<lambda>_. returnq ())) d)"
  using acts_autocommit_update [where h = "\<lambda>_. returnq ()" and res = "\<lambda>_. Inr ()" and E = E and d = d]
  by (simp add: returnq_def)

lemma RequestCancel_acts:
  "acts E d (Inr (), update_rows (cancellable i) (cancel_row (db_now E)) (table d))
    (RequestCancel_pg E i d)"
  unfolding RequestCancel_pg_def cancellable_def by (rule acts_autocommit_plain)

lemma PromoteNext_acts:
  "acts E d (Inr (), tbl_promote (db_now E) c (q + 1) (table d)) (PromoteNext_pg E c q d)"
  unfolding PromoteNext_pg_def promote_pg_def tbl_promote_def by (rule acts_autocommit_plain)

text \<open>Complete, skip and claim need the table to be well formed: an id has one row.\<close>

lemma Complete_acts:
  assumes c: "notifyChannel_pg c \<noteq> []" and T: "table_ok (table d)"
  shows "acts E d (tbl_complete (db_now E) i w g (table d)) (Complete_pg c E i w g d)"
  unfolding Complete_pg_def
  by (rule acts_withTx_exists, rule exI, rule conjI, (rule impl | rule c | simp)+)
    (auto simp: bind_table_def tbl_update_def tbl_complete_def filter_holds_row [OF T]
      intro!: update_rows_none split: option.splits)

lemma Skip_acts:
  assumes c: "notifyChannel_pg c \<noteq> []" and T: "table_ok (table d)"
  shows "acts E d (tbl_skip (db_now E) i (table d)) (SkipJob_pg c E i d)"
  unfolding SkipJob_pg_def
  by (rule acts_withTx_exists, rule exI, rule conjI, (rule impl | rule c | simp)+)
    (use T in \<open>auto simp: bind_table_def tbl_update_def tbl_skip_def filter_rid table_ok_def
      intro!: update_rows_none split: option.splits\<close>)

lemma Replay_acts:
  assumes c: "notifyChannel_pg c \<noteq> []"
  shows "acts E d (tbl_need ErrNotFound (\<lambda>x. rid x = i \<and> replayable_row x)
    (replayed_row (db_now E)) (table d)) (ReplayJob_pg c E i d)"
  unfolding ReplayJob_pg_def replay_with_pg_def
  by (rule acts_withTx_exists, rule exI, rule conjI, (rule impl | rule c | simp)+)
    (auto simp: bind_table_def tbl_update_def tbl_need_def first_row_def update_rows_none
      split: list.splits)

section \<open>The claim\<close>

text \<open>\<open>ORDER BY\<close>: \<open>a\<close> may stand before \<open>b\<close>.\<close>

definition claim_not_after :: "env \<Rightarrow> row \<Rightarrow> row \<Rightarrow> bool" where
  "claim_not_after E a b \<longleftrightarrow> \<not> comes_first E b a"

lemma comes_first_iff:
  "comes_first E a b \<longleftrightarrow>
     available_at a < available_at b \<or>
     available_at a = available_at b \<and>
       (created_at a < created_at b \<or>
        created_at a = created_at b \<and> tie E (rid a) < tie E (rid b))"
  unfolding comes_first_def claim_order_def by linarith

lemma claim_not_after_iff:
  "claim_not_after E a b \<longleftrightarrow>
     available_at a < available_at b \<or>
     available_at a = available_at b \<and>
       (created_at a < created_at b \<or>
        created_at a = created_at b \<and> tie E (rid a) \<le> tie E (rid b))"
  unfolding claim_not_after_def comes_first_iff by linarith

interpretation pg_claim_sort: slice_order "comes_first E" "claim_not_after E"
proof
  fix x y z
  show "comes_first E x y \<Longrightarrow> claim_not_after E x y"
    unfolding comes_first_iff claim_not_after_iff by linarith
  show "\<not> comes_first E x y \<Longrightarrow> claim_not_after E y x" by (simp add: claim_not_after_def)
  show "claim_not_after E x z" if "claim_not_after E x y" "claim_not_after E y z"
    using that unfolding claim_not_after_iff by linarith
qed

lemma first_row_filter: "first_row (filter P xs) = List.find P xs"
  by (induction xs) auto

lemma claim_candidate_None:
  "claim_candidate E T = None \<longleftrightarrow>
   (\<forall>x \<in> set T. sql_claimable (db_now E) T x \<longrightarrow> locked E (rid x))"
  by (auto simp: claim_candidate_def first_row_filter find_None_iff)

lemma claim_candidate_Some:
  assumes "claim_candidate E T = Some x"
  shows "x \<in> set T" and "sql_claimable (db_now E) T x" and "\<not> locked E (rid x)"
    and "\<And>y. y \<in> set T \<Longrightarrow> sql_claimable (db_now E) T y \<Longrightarrow> \<not> locked E (rid y) \<Longrightarrow> \<not> comes_first E y x"
proof -
  let ?c = "filter (sql_claimable (db_now E) T) T"
  have f: "List.find (\<lambda>x. \<not> locked E (rid x)) (sort_slice (comes_first E) ?c) = Some x"
    using assms by (simp add: claim_candidate_def first_row_filter)
  then have "x \<in> set ?c \<and> \<not> locked E (rid x)" using find_Some_mem [OF f] by simp
  then show "x \<in> set T" "sql_claimable (db_now E) T x" "\<not> locked E (rid x)" by auto
  fix y assume "y \<in> set T" "sql_claimable (db_now E) T y" "\<not> locked E (rid y)"
  then show "\<not> comes_first E y x"
    using pg_claim_sort.sort_slice_find_least [OF f, of y] by (simp add: claim_not_after_def)
qed

lemma filter_candidate:
  assumes "table_ok T" and "claim_candidate E T = Some x"
  shows "filter (is_candidate E T) T = [x]"
proof -
  have "filter (is_candidate E T) T = filter (\<lambda>y. rid y = rid x \<and> True) T"
    by (rule filter_cong) (auto simp: is_candidate_def assms(2))
  moreover have "row_at T (rid x) = Some x"
    using assms(1) claim_candidate_Some(1) [OF assms(2)] by (simp add: table_ok_def row_at_iff)
  moreover have "distinct (map rid T)" using assms(1) by (simp add: table_ok_def)
  ultimately show ?thesis using filter_rid [of T "rid x" "\<lambda>_. True"] by simp
qed

lemma Claim_acts:
  assumes T: "table_ok (table d)"
  shows "acts E d (tbl_claim ''bigint out of range'' E w (lease_seconds l) (table d)) (Claim_pg E w l d)"
proof -
  let ?f = "claimed_row (db_now E) w (lease_seconds l)"
  let ?m = "''bigint out of range''"
  let ?g = "\<lambda>T. (if claim_overflows E T then (Inl (Message ?m), T)
    else (Inr (map ?f (filter (is_candidate E T) T)), update_rows (is_candidate E T) ?f T))
    :: (gerror + row list) \<times> row list"
  have "implements (bindq (claim_stmt ?m (claim_overflows E) (is_candidate E) ?f) trigger_pg) ?g"
    unfolding claim_stmt_def
    by (rule implements_cong, (rule impl)+) (simp add: bind_table_def)
  note i = implements_bindq [OF this, where f = "\<lambda>xs. case first_row xs of
      None \<Rightarrow> failq ErrNotFound | Some x \<Rightarrow> returnq (row_job x)" and h = "\<lambda>xs T. case first_row xs of
      None \<Rightarrow> (Inl ErrNotFound, T) | Some x \<Rightarrow> (Inr (row_job x), T)"]
  have "bind_table ?g (\<lambda>xs T. case first_row xs of
      None \<Rightarrow> (Inl ErrNotFound, T) | Some x \<Rightarrow> (Inr (row_job x), T)) (table d) =
    tbl_claim ?m E w (lease_seconds l) (table d)"
  proof (cases "claim_candidate E (table d)")
    case None
    then have "filter (is_candidate E (table d)) (table d) = []" by (simp add: is_candidate_def)
    with None show ?thesis by (simp add: bind_table_def tbl_claim_def update_rows_none)
  next
    case (Some x)
    have "update_rows (is_candidate E (table d)) ?f (table d) =
        update_rows (\<lambda>y. rid y = rid x) ?f (table d)"
      by (simp add: update_rows_def is_candidate_def Some)
    with Some filter_candidate [OF T Some] show ?thesis
      by (simp add: bind_table_def tbl_claim_def)
  qed
  then show ?thesis
    unfolding Claim_pg_def Let_def
    by - (rule acts_withTx_exists, rule exI, rule conjI, rule i, (rule impl)+, simp)
qed

lemma Claim_pg_cases:
  assumes "table_ok (table d)"
  obtains (failed) e where "Claim_pg E w l d = (Inl e, d)"
      "calm E \<Longrightarrow> e = Message ''bigint out of range'' \<and> claim_overflows E (table d) \<or>
        e = ErrNotFound \<and> claim_candidate E (table d) = None"
    | (claimed) x n where "claim_candidate E (table d) = Some x"
      "Claim_pg E w l d = (Inr (row_job (claimed_row (db_now E) w (lease_seconds l) x)),
        \<lparr>table = update_rows (\<lambda>y. rid y = rid x) (claimed_row (db_now E) w (lease_seconds l)) (table d),
         sent = sent d @ n\<rparr>)"
proof (cases "claim_overflows E (table d)")
  case True
  with Claim_acts [OF assms, of E w l] that(1) show ?thesis by (auto simp: acts_def tbl_claim_def)
next
  case False
  with Claim_acts [OF assms, of E w l] that show ?thesis
    by (cases "claim_candidate E (table d)") (auto simp: acts_def tbl_claim_def)
qed

lemma claim_overflows_row: "claim_overflows E T \<Longrightarrow> \<exists>x \<in> set T. underflows (db_now E) x"
  by (auto simp: claim_overflows_def list_ex_iff)

end
