(* ===== verification/Postgres_Repo.thy ===== *)
theory Postgres_Repo
  imports Postgres_Effects Engine_Props
begin

text \<open>
  The PostgreSQL repository behind the \<open>Repository\<close> interface, and the interpretation of the
  engine's contract on it. The calls run in an environment without faults, with both clocks equal,
  arbitrary rows locked and an arbitrary rendering of JSON, claims evaluate every row and take ties
  in table order; the notification channel is not empty
  (it is \<open>ch # chs\<close>).
\<close>

section \<open>The record\<close>

definition calm_env :: "(time \<Rightarrow> uuid \<Rightarrow> bool) \<Rightarrow> (string \<Rightarrow> string option) \<Rightarrow> time \<Rightarrow> env" where
  "calm_env lk js now =
    \<lparr>db_now = now, go_now = now, locked = lk now, faults = (\<lambda>_ _. None), jsonb = js,
     tie = (\<lambda>_. 0), full_scan = True\<rparr>"

lemma calm_env_sel [simp]:
  "calm (calm_env lk js now)" "db_now (calm_env lk js now) = now" "go_now (calm_env lk js now) = now"
  "locked (calm_env lk js now) = lk now"
  by (simp_all add: calm_env_def calm_def)

text \<open>The error of a call, as the interface has it.\<close>

definition err_of :: "(gerror + unit) \<times> sqldb \<Rightarrow> gerror option \<times> sqldb" where
  "err_of res = (case res of (Inl e, d) \<Rightarrow> (Some e, d) | (Inr _, d) \<Rightarrow> (None, d))"

lemma err_of_simps [simp]: "err_of (Inl e, d) = (Some e, d)" "err_of (Inr u, d) = (None, d)"
  by (simp_all add: err_of_def)

text \<open>The interface has no clock for a batch: the transaction starts at its first request.\<close>

definition batch_start :: "((time \<times> uuid) \<times> EnqueueRequest) list \<Rightarrow> time" where
  "batch_start reqs = (case reqs of [] \<Rightarrow> 0 | ((now, _), _) # _ \<Rightarrow> now)"

definition postgres_repository ::
  "(uuid \<Rightarrow> string) \<Rightarrow> PgRepository \<Rightarrow> (time \<Rightarrow> env) \<Rightarrow> sqldb Repository" where
  "postgres_repository uuidString c E =
    \<lparr>Enqueue_r = (\<lambda>now. Enqueue_pg c (E now)),
     EnqueueBatch_r = (\<lambda>reqs. EnqueueBatch_pg c (E (batch_start reqs)) reqs),
     Get_r = Get_pg (E 0), GetByChainSeq_r = GetByChainSeq_pg (E 0),
     Claim_r = (\<lambda>now. Claim_pg (E now)),
     Complete_r = (\<lambda>now i w g d. err_of (Complete_pg c (E now) i w g d)),
     Fail_r = (\<lambda>now i w g msg t d. err_of (Fail_pg (E now) i w g msg t d)),
     Retry_r = (\<lambda>now i w g msg at d. err_of (Retry_pg (E now) i w g msg at d)),
     Heartbeat_r = (\<lambda>now i w g l d. err_of (Heartbeat_pg (E now) i w g l d)),
     RequestCancel_r = (\<lambda>now i d. err_of (RequestCancel_pg (E now) i d)),
     ConfirmCancel_r = (\<lambda>now i w g d. err_of (ConfirmCancel_pg (E now) i w g d)),
     RecoverStale_r = (\<lambda>now. RecoverStale_pg (E now)),
     ReplayJob_r = (\<lambda>now i d. err_of (ReplayJob_pg c (E now) i d)),
     ReplayJobWithPayload_r = (\<lambda>now i p d. err_of (ReplayJobWithPayload_pg c (E now) i p d)),
     SkipJob_r = (\<lambda>now i d. err_of (SkipJob_pg c (E now) i d)),
     RescheduleJob_r = (\<lambda>now. RescheduleJob_pg (E now)),
     BulkReplayDLQ_r = (\<lambda>now. BulkReplayDLQ_pg uuidString (E now)),
     BulkSkipDLQ_r = (\<lambda>now. BulkSkipDLQ_pg uuidString (E now)),
     BulkPurgeDLQ_r = BulkPurgeDLQ_pg uuidString (E 0),
     CountDLQ_r = CountDLQ_sql (E 0),
     PromoteNext_r = (\<lambda>now ch q d. err_of (PromoteNext_pg (E now) ch q d)),
     ListPendingChains_r = ListPendingChains_pg (E 0),
     GetStats_r = (\<lambda>now. GetStats_sql (E now)),
     ListJobs_r = (\<lambda>now f d. Returns (ListJobs_pg uuidString (E now) f d)),
     ListChains_r = (\<lambda>f d. Returns (ListChains_pg (E 0) f d)),
     NotifyChannel_r = (\<lambda>d. NotifyChannel_pg c)\<rparr>"

lemma postgres_repository_sel [simp]:
  "Claim_r (postgres_repository us c E) = (\<lambda>now. Claim_pg (E now))"
  "Complete_r (postgres_repository us c E) = (\<lambda>now i w g d. err_of (Complete_pg c (E now) i w g d))"
  "Fail_r (postgres_repository us c E) = (\<lambda>now i w g msg t d. err_of (Fail_pg (E now) i w g msg t d))"
  "Retry_r (postgres_repository us c E) = (\<lambda>now i w g msg at d. err_of (Retry_pg (E now) i w g msg at d))"
  "RequestCancel_r (postgres_repository us c E) = (\<lambda>now i d. err_of (RequestCancel_pg (E now) i d))"
  "PromoteNext_r (postgres_repository us c E) = (\<lambda>now ch q d. err_of (PromoteNext_pg (E now) ch q d))"
  by (simp_all add: postgres_repository_def)

section \<open>Its contract\<close>

definition db_ok :: "sqldb \<Rightarrow> bool" where
  "db_ok d \<longleftrightarrow> table_ok (table d)"

definition holds_processing :: "job \<Rightarrow> string \<Rightarrow> int \<Rightarrow> bool" where
  "holds_processing j w g \<longleftrightarrow> holds_lease j w g \<and> Status j = StateProcessing"

lemma job_at_Some:
  assumes "db_ok d" and "job_at d i = Some j"
  shows "\<exists>x. row_at (table d) i = Some x \<and> j = row_job x \<and> x \<in> set (table d) \<and> rid x = i"
  using assms row_at_Some [of "table d" i] by (auto simp: job_at_def)

lemma holds_row_iff:
  assumes "db_ok d" and "x \<in> set (table d)" and "rid x = i"
  shows "holds_row i w g x \<longleftrightarrow> holds_processing (row_job x) w g"
proof -
  have "status x = StateProcessing \<Longrightarrow> \<exists>v. worker_id x = Some v"
    using assms by (auto simp: db_ok_def table_ok_def)
  then show ?thesis
    using assms(3) by (auto simp: holds_row_def holds_processing_def holds_lease_def)
qed

text \<open>An update of the row of a lease, without faults: refused or done.\<close>

lemma need_refused:
  assumes "acts E d (tbl_need e p f (table d)) res" and "calm E" and "filter p (table d) = []"
  shows "res = (Inl e, d)"
  using assms by (simp add: tbl_need_def acts_def)

lemma need_done:
  assumes "acts E d (tbl_need e p f (table d)) res" and "calm E" and "filter p (table d) \<noteq> []"
  shows "\<exists>n. res = (Inr (), \<lparr>table = update_rows p f (table d), sent = sent d @ n\<rparr>)"
  using assms acts_calm_Inr [of E d "()"] by (simp add: tbl_need_def)

lemma holds_filter:
  assumes "db_ok d" and "row_at (table d) i = Some x"
  shows "filter (holds_row i w g) (table d) = (if holds_row i w g x then [x] else [])"
  using assms by (simp add: filter_holds_row db_ok_def)

lemma tbl_fail_need:
  "\<exists>st. (st = StateFailed \<or> st = StateDeadLettered) \<and>
     tbl_fail now i w g msg t T = tbl_need ErrLeaseConflict (holds_row i w g) (failed_row now st msg) T"
  by (auto simp: tbl_fail_def Let_def)

lemma db_ok_update:
  assumes "db_ok d" and "\<And>x. rid (f x) = rid x" and "\<And>x. chain_id (f x) = chain_id x"
    and "\<And>x. sequence (f x) = sequence x" and "\<And>x. p x \<Longrightarrow> status (f x) \<noteq> StateProcessing"
  shows "db_ok \<lparr>table = update_rows p f (table d), sent = n\<rparr>"
  using table_ok_update [of "table d" f p] assms by (auto simp: db_ok_def)

lemma pg_fenced:
  assumes d: "db_ok d" and i: "job_at d i = Some j" and h: "\<not> holds_processing j w g"
    and E: "calm E"
  shows "notifyChannel_pg c \<noteq> [] \<Longrightarrow> Complete_pg c E i w g d = (Inl ErrLeaseConflict, d)"
    and "Fail_pg E i w g msg t d = (Inl ErrLeaseConflict, d)"
    and "Retry_pg E i w g msg at d = (Inl ErrLeaseConflict, d)"
    and "Heartbeat_pg E i w g l d = (Inl ErrLeaseConflict, d)"
proof -
  obtain x where x: "row_at (table d) i = Some x" "j = row_job x" "x \<in> set (table d)" "rid x = i"
    using job_at_Some [OF d i] by blast
  have n: "filter (holds_row i w g) (table d) = []"
    using holds_filter [OF d x(1)] holds_row_iff [OF d x(3,4)] h x(2) by simp
  have T: "table_ok (table d)" using d by (simp add: db_ok_def)
  have "tbl_complete (db_now E) i w g (table d) = (Inl ErrLeaseConflict, table d)"
    by (simp add: tbl_complete_def n)
  then show "Complete_pg c E i w g d = (Inl ErrLeaseConflict, d)" if c: "notifyChannel_pg c \<noteq> []"
    using Complete_acts [OF c T, of E i w g] acts_calm_Inl [OF _ E] by metis
  obtain st where "tbl_fail (db_now E) i w g msg t (table d) =
      tbl_need ErrLeaseConflict (holds_row i w g) (failed_row (db_now E) st msg) (table d)"
    using tbl_fail_need by blast
  with Fail_acts [of E d i w g msg t] show "Fail_pg E i w g msg t d = (Inl ErrLeaseConflict, d)"
    using need_refused [OF _ E n] by metis
  show "Retry_pg E i w g msg at d = (Inl ErrLeaseConflict, d)"
    by (rule need_refused [OF Retry_acts E n])
  show "Heartbeat_pg E i w g l d = (Inl ErrLeaseConflict, d)"
    by (rule need_refused [OF Heartbeat_acts E n])
qed

lemma pg_confirm_cancel:
  assumes d: "db_ok d" and i: "job_at d i = Some j" and E: "calm E"
  shows "\<not> (WorkerID j = w \<and> LeaseGeneration j = g) \<Longrightarrow>
      ConfirmCancel_pg E i w g d = (Inl ErrLeaseConflict, d)"
    and "WorkerID j = w \<Longrightarrow> LeaseGeneration j = g \<Longrightarrow> w \<noteq> [] \<Longrightarrow>
      \<exists>d'. ConfirmCancel_pg E i w g d = (Inr (), d') \<and>
        job_at d' i = Some (j\<lparr>Status := StateCancelled, UpdatedAt := db_now E, LeaseUntil := None\<rparr>)"
proof -
  obtain x where x: "row_at (table d) i = Some x" "j = row_job x" "x \<in> set (table d)" "rid x = i"
    using job_at_Some [OF d i] by blast
  let ?p = "\<lambda>x. rid x = i \<and> worker_id x = Some w \<and> lease_generation x = g"
  have f: "filter ?p (table d) = (if ?p x then [x] else [])"
    using filter_rid [of "table d" i "\<lambda>x. worker_id x = Some w \<and> lease_generation x = g"] x(1,4) d
    by (simp add: db_ok_def table_ok_def)
  show "ConfirmCancel_pg E i w g d = (Inl ErrLeaseConflict, d)"
    if "\<not> (WorkerID j = w \<and> LeaseGeneration j = g)"
    by (rule need_refused [OF ConfirmCancel_acts E]) (use that f x(2) in auto)
  show "\<exists>d'. ConfirmCancel_pg E i w g d = (Inr (), d') \<and>
      job_at d' i = Some (j\<lparr>Status := StateCancelled, UpdatedAt := db_now E, LeaseUntil := None\<rparr>)"
    if h: "WorkerID j = w" "LeaseGeneration j = g" "w \<noteq> []"
  proof -
    have p: "?p x" using h x(2,4) by (cases "worker_id x") auto
    obtain n where n: "ConfirmCancel_pg E i w g d = (Inr (), \<lparr>table = update_rows ?p
        (\<lambda>x. x\<lparr>status := StateCancelled, updated_at := db_now E, lease_until := None\<rparr>) (table d),
        sent = sent d @ n\<rparr>)"
      using need_done [OF ConfirmCancel_acts E, of i w g d] f p by auto
    then show ?thesis using x p by (auto simp: job_at_def row_at_update row_job_def)
  qed
qed

lemma pg_claim_some:
  assumes d: "db_ok d" and c: "Claim_pg E w l d = (Inr j, d')"
  shows "db_ok d' \<and> job_at d' (ID j) = Some j \<and> WorkerID j = w \<and> Status j = StateProcessing \<and>
    holds_processing j w (LeaseGeneration j)"
proof -
  let ?f = "claimed_row (db_now E) w (lease_seconds l)"
  have T: "table_ok (table d)" using d by (simp add: db_ok_def)
  obtain x n where x: "claim_candidate E (table d) = Some x" "j = row_job (?f x)"
      "d' = \<lparr>table = update_rows (\<lambda>y. rid y = rid x) ?f (table d), sent = sent d @ n\<rparr>"
    using Claim_acts [OF T, of E w l] c
    by (auto simp: acts_def tbl_claim_def split: option.splits if_splits)
  have "row_at (table d) (rid x) = Some x"
    using claim_candidate_Some(1) [OF x(1)] T by (simp add: row_at_iff table_ok_def)
  then have "row_at (table d') (rid x) = Some (?f x)" by (simp add: x(3))
  moreover have "table_ok (table d')"
    unfolding x(3) sqldb.select_convs
    by (rule table_ok_update [OF T]) (simp_all add: claimed_row_def)
  ultimately show ?thesis
    by (simp add: x(2) db_ok_def job_at_def holds_processing_def holds_lease_def)
      (simp add: claimed_row_def)
qed

lemma pg_claim_none: "db_ok d \<Longrightarrow> Claim_pg E w l d = (Inl e, d') \<Longrightarrow> d' = d"
  using Claim_acts [of d E w l] by (auto simp: acts_def db_ok_def)

lemma same_identity_row_job [simp]:
  "same_identity (row_job x) (row_job (completed_row now x))"
  "same_identity (row_job x) (row_job (failed_row now st msg x))"
  "same_identity (row_job x) (row_job (retrying_row now msg at x))"
  "same_identity (row_job x) (row_job (unblock_row now x))"
  "same_identity (row_job x) (row_job (cancel_row now x))"
  by (simp_all add: same_identity_def completed_row_def failed_row_def retrying_row_def
      unblock_row_def cancel_row_def)

text \<open>The holder's operations, without faults.\<close>

lemma pg_need_held:
  assumes d: "db_ok d" and i: "job_at d i = Some j" and h: "holds_processing j w g"
    and E: "calm E" and a: "acts E d (tbl_need e (holds_row i w g) f (table d)) res"
    and f: "\<And>x. rid (f x) = rid x" "\<And>x. chain_id (f x) = chain_id x" "\<And>x. sequence (f x) = sequence x"
      "\<And>x. status (f x) \<noteq> StateProcessing"
  shows "\<exists>x n. j = row_job x \<and> res = (Inr (), \<lparr>table = update_rows (holds_row i w g) f (table d), sent = n\<rparr>) \<and>
    db_ok (snd res) \<and> job_at (snd res) i = Some (row_job (f x)) \<and>
    (\<forall>k. k \<noteq> i \<longrightarrow> job_at (snd res) k = job_at d k)"
proof -
  obtain x where x: "row_at (table d) i = Some x" "j = row_job x" "x \<in> set (table d)" "rid x = i"
    using job_at_Some [OF d i] by blast
  have hx: "holds_row i w g x" using holds_row_iff [OF d x(3,4)] h x(2) by simp
  have n: "filter (holds_row i w g) (table d) \<noteq> []" using holds_filter [OF d x(1)] hx by simp
  from need_done [OF a E n]
  obtain n where r: "res = (Inr (), \<lparr>table = update_rows (holds_row i w g) f (table d), sent = sent d @ n\<rparr>)"
    by blast
  have o: "job_at (snd res) k = job_at d k" if "k \<noteq> i" for k
    using that row_at_Some [of "table d" k]
    by (auto simp: r job_at_def f(1) holds_row_def option.map_comp intro!: option.map_cong0
        split: option.splits)
  have "db_ok (snd res)" unfolding r snd_conv by (rule db_ok_update [OF d]) (simp_all add: f)
  moreover have "job_at (snd res) i = Some (row_job (f x))" by (simp add: r job_at_def f(1) x(1) hx)
  ultimately show ?thesis using x(2) r o by blast
qed

lemma pg_complete_held:
  assumes d: "db_ok d" and i: "job_at d i = Some j" and h: "holds_processing j w g"
    and E: "calm E" and c: "notifyChannel_pg c \<noteq> []"
  shows "\<exists>x n. row_at (table d) i = Some x \<and> j = row_job x \<and> holds_row i w g x \<and>
    Complete_pg c E i w g d = (Inr (), \<lparr>table =
      tbl_promote (db_now E) (chain_id x) (sequence x + 1)
        (update_rows (holds_row i w g) (completed_row (db_now E)) (table d)), sent = sent d @ n\<rparr>)"
proof -
  obtain x where x: "row_at (table d) i = Some x" "j = row_job x" "x \<in> set (table d)" "rid x = i"
    using job_at_Some [OF d i] by blast
  have hx: "holds_row i w g x" using holds_row_iff [OF d x(3,4)] h x(2) by simp
  then have n: "filter (holds_row i w g) (table d) = [x]" using holds_filter [OF d x(1)] by simp
  have T: "table_ok (table d)" using d by (simp add: db_ok_def)
  from acts_calm_Inr [OF _ E] Complete_acts [OF c T, of E i w g] x hx n show ?thesis
    by (fastforce simp: tbl_complete_def)
qed

interpretation pg: lease_store
  "postgres_repository us \<lparr>allowGap_pg = gap, notifyChannel_pg = ch # chs\<rparr> (calm_env lk js)"
  job_at db_ok holds_processing for us gap ch chs lk js
proof unfold_locales
  let ?c = "\<lparr>allowGap_pg = gap, notifyChannel_pg = ch # chs\<rparr>"
  let ?R = "postgres_repository us ?c (calm_env lk js)"
  fix d :: sqldb and i j w g now msg "next"
  assume a: "db_ok d" "job_at d i = Some j" "holds_processing j w g"
  note E = calm_env_sel(1) [of lk js now]
  show "\<exists>d' j'. Complete_r ?R now i w g d = (None, d') \<and> db_ok d' \<and> job_at d' i = Some j' \<and>
      same_identity j j' \<and> Status j' = StateCompleted"
  proof -
    obtain x n where x: "row_at (table d) i = Some x" "j = row_job x" "holds_row i w g x"
      "Complete_pg ?c (calm_env lk js now) i w g d = (Inr (), \<lparr>table =
        tbl_promote now (chain_id x) (sequence x + 1)
          (update_rows (holds_row i w g) (completed_row now) (table d)), sent = sent d @ n\<rparr>)"
      using pg_complete_held [OF a E, of ?c] by auto
    have "table_ok (update_rows (holds_row i w g) (completed_row now) (table d))"
      using a(1) by (intro table_ok_update) (simp_all add: db_ok_def)
    with x show ?thesis
      by (auto simp: db_ok_def table_ok_promote job_at_def row_at_promote)
  qed
  show "\<exists>d' j'. Fail_r ?R now i w g msg True d = (None, d') \<and> db_ok d' \<and> job_at d' i = Some j' \<and>
      same_identity j j' \<and> LastError j' = msg \<and>
      (Status j' = StateFailed \<or> Status j' = StateDeadLettered) \<and>
      (\<forall>k. k \<noteq> i \<longrightarrow> job_at d' k = job_at d k)"
  proof -
    obtain st where st: "st = StateFailed \<or> st = StateDeadLettered"
      "tbl_fail now i w g msg True (table d) =
        tbl_need ErrLeaseConflict (holds_row i w g) (failed_row now st msg) (table d)"
      using tbl_fail_need [of now i w g msg True "table d"] by auto
    note ac = Fail_acts [of "calm_env lk js now" d i w g msg True, unfolded calm_env_sel(2) st(2)]
    have "LastError (row_job (failed_row now st msg x)) = msg" for x by (simp add: failed_row_def)
    then show ?thesis using pg_need_held [OF a E ac] st(1) by fastforce
  qed
  show "\<exists>d' j'. Retry_r ?R now i w g msg next d = (None, d') \<and> db_ok d' \<and> job_at d' i = Some j' \<and>
      same_identity j j' \<and> Status j' = StateRetrying \<and> AvailableAt j' = next"
  proof -
    have "AvailableAt (row_job (retrying_row now msg next x)) = next" for x
      by (simp add: retrying_row_def)
    then show ?thesis
      using pg_need_held [OF a E Retry_acts [of "calm_env lk js now" d i w g msg "next"]]
      by fastforce
  qed
next
  fix d :: sqldb and i j w g now msg "next"
  assume "db_ok d" "job_at d i = Some j" "\<not> holds_processing j w g"
  note f = pg_fenced [OF this calm_env_sel(1)]
  show "Complete_r (postgres_repository us \<lparr>allowGap_pg = gap, notifyChannel_pg = ch # chs\<rparr>
        (calm_env lk js)) now i w g d = (Some ErrLeaseConflict, d) \<and>
      Fail_r (postgres_repository us \<lparr>allowGap_pg = gap, notifyChannel_pg = ch # chs\<rparr>
        (calm_env lk js)) now i w g msg True d = (Some ErrLeaseConflict, d) \<and>
      Retry_r (postgres_repository us \<lparr>allowGap_pg = gap, notifyChannel_pg = ch # chs\<rparr>
        (calm_env lk js)) now i w g msg next d = (Some ErrLeaseConflict, d)"
    by (simp add: f)
next
  fix d :: sqldb and i j now c q
  assume d: "db_ok d" and i: "job_at d i = Some j"
  obtain x where x: "row_at (table d) i = Some x" "j = row_job x" using job_at_Some [OF d i] by blast
  obtain n where "PromoteNext_pg (calm_env lk js now) c q d =
      (Inr (), \<lparr>table = tbl_promote now c (q + 1) (table d), sent = sent d @ n\<rparr>)"
    using acts_calm_Inr [OF PromoteNext_acts [of "calm_env lk js now" d c q]] by auto
  then show "\<exists>d' j'. PromoteNext_r (postgres_repository us
        \<lparr>allowGap_pg = gap, notifyChannel_pg = ch # chs\<rparr> (calm_env lk js)) now c q d = (None, d') \<and>
      db_ok d' \<and> job_at d' i = Some j' \<and> same_identity j j' \<and>
      (Status j \<noteq> StateBlocked \<longrightarrow> j' = j) \<and>
      Status j' = (if ChainID j = c \<and> Sequence j = q + 1 \<and> Status j = StateBlocked
                   then StatePending else Status j)"
    using d x by (auto simp: db_ok_def table_ok_promote job_at_def row_at_promote at_seq_def)
qed (use pg_claim_some pg_claim_none in \<open>simp_all\<close>)

end
