(* ===== verification/Postgres_Props.thy ===== *)
theory Postgres_Props
  imports Postgres_Repo
begin

text \<open>
  Properties of the PostgreSQL repository: claims, atomicity under failing statements, fencing, the
  engine on top of it, and where it parts from the in-memory repository.
\<close>

section \<open>Closed instances\<close>

definition sample_row :: "uuid \<Rightarrow> int \<Rightarrow> string \<Rightarrow> row" where
  "sample_row i q st =
    \<lparr>rid = i, chain_id = ''c'', sequence = q, job_type = ''task'', payload = ''{}'', status = st,
     attempt = 1, max_attempts = 5, available_at = 10, deadline_at = None, worker_id = Some ''w'',
     lease_until = Some 100, lease_generation = 1, started_at = Some 10, completed_at = None,
     failed_at = None, idempotency_key = None, last_error = None, tenant_id = None,
     trace_id = None, ordering_mode = OrderingModeStrict, created_at = 10, updated_at = 10\<rparr>"

definition pg_running :: sqldb where
  "pg_running =
    \<lparr>table = [sample_row 7 1 StateProcessing, sample_row 8 2 StateBlocked], sent = []\<rparr>"

definition pg_waiting :: sqldb where
  "pg_waiting =
    \<lparr>table = [sample_row 7 1 StatePending, sample_row 8 2 StateBlocked], sent = []\<rparr>"

definition quiet :: "time \<Rightarrow> env" where
  "quiet = calm_env (\<lambda>_ _. False) Some"

lemma quiet_calm [simp]: "calm (quiet t)" "db_now (quiet t) = t" "\<not> locked (quiet t) i"
  by (simp_all add: quiet_def)

definition pg_default :: PgRepository where
  "pg_default = New_pg []"

lemma pg_default_eq: "pg_default = \<lparr>allowGap_pg = False, notifyChannel_pg = CHR ''o'' # ''rdered_jobs''\<rparr>"
  by (simp add: pg_default_def New_pg_def)

lemma pg_samples_ok [simp]: "db_ok pg_running" "db_ok pg_waiting"
  by (simp_all add: db_ok_def table_ok_def pg_running_def pg_waiting_def sample_row_def)

lemma table_ok_samples [simp]: "table_ok (table pg_running)" "table_ok (table pg_waiting)"
  using pg_samples_ok by (simp_all add: db_ok_def)

lemma pg_running_at [simp]:
  "row_at (table pg_running) 7 = Some (sample_row 7 1 StateProcessing)"
  "row_at (table pg_running) 8 = Some (sample_row 8 2 StateBlocked)"
  by (simp_all add: row_at_def pg_running_def sample_row_def)

lemma pg_waiting_no_underflow: "x \<in> set (table pg_waiting) \<Longrightarrow> \<not> underflows now x"
  by (auto simp: underflows_def pg_waiting_def sample_row_def)

section \<open>Claims\<close>

lemma sql_pred_finished_iff:
  "sql_pred_finished x p \<longleftrightarrow>
   chain_id p = chain_id x \<and> sequence p = sequence x - 1 \<and> isPredFinished (row_job p)"
  by (auto simp: sql_pred_finished_def isPredFinished_def continues_on_failure_def)

text \<open>C23: a claim on PostgreSQL. Whatever statements fail, \<open>Claim\<close> either answers an error and
  changes nothing, or hands out a row that was pending or retrying, due, first in its chain or
  after a finished predecessor, not locked by anyone, and preceded by no other such row; that row
  and no other is now in processing for the worker, with the next generation and attempt and a
  lease in whole seconds. Without failures it answers not-found only when every claimable row is
  locked, and any other error only when a due row has the smallest 64-bit number, whose
  predecessor cannot be computed. Rows due and created at the same times may come in any order.\<close>

theorem pg_claim_contract:
  assumes "table_ok (table d)"
  shows "case Claim_pg E w l d of
    (Inl e, d') \<Rightarrow> d' = d \<and>
      (calm E \<longrightarrow>
        e = ErrNotFound \<and>
          (\<forall>x \<in> set (table d). sql_claimable (db_now E) (table d) x \<longrightarrow> locked E (rid x)) \<or>
        e = Message ''bigint out of range'' \<and> (\<exists>x \<in> set (table d). underflows (db_now E) x))
  | (Inr j, d') \<Rightarrow>
      (\<exists>x \<in> set (table d).
        (status x = StatePending \<or> status x = StateRetrying) \<and> available_at x \<le> db_now E \<and>
        (sequence x = 1 \<or> (\<exists>p \<in> set (table d). chain_id p = chain_id x \<and>
           sequence p = sequence x - 1 \<and> isPredFinished (row_job p))) \<and>
        \<not> locked E (rid x) \<and>
        (\<forall>y \<in> set (table d). sql_claimable (db_now E) (table d) y \<and> \<not> locked E (rid y) \<longrightarrow>
           \<not> claim_order y x) \<and>
        ID j = rid x \<and> ChainID j = chain_id x \<and> Sequence j = sequence x \<and>
        Status j = StateProcessing \<and> WorkerID j = w \<and>
        LeaseGeneration j = lease_generation x + 1 \<and> Attempt j = attempt x + 1 \<and>
        LeaseUntil j = Some (db_now E + lease_seconds l * Second)) \<and>
      (\<forall>k. job_at d' k = (if k = ID j then Some j else job_at d k))"
proof -
  let ?T = "table d" and ?f = "claimed_row (db_now E) w (lease_seconds l)"
  show ?thesis
  proof (cases rule: Claim_pg_cases [OF assms, of E w l, case_names failed claimed])
    case (failed e)
    then show ?thesis using claim_overflows_row [of E ?T] by (auto simp: claim_candidate_None)
  next
    case (claimed x n)
    note c = claim_candidate_Some(1-3) [OF claimed(1)]
    have ord: "\<not> claim_order y x" if "y \<in> set ?T" "sql_claimable (db_now E) ?T y \<and> \<not> locked E (rid y)" for y
      using claim_candidate_Some(4) [OF claimed(1) that(1)] that(2) by (auto simp: comes_first_def)
    have at: "row_at ?T (rid x) = Some x" using assms c(1) by (simp add: row_at_iff table_ok_def)
    let ?d' = "\<lparr>table = update_rows (\<lambda>y. rid y = rid x) ?f ?T, sent = sent d @ n\<rparr>"
    have k: "job_at ?d' k = (if k = rid x then Some (row_job (?f x)) else job_at d k)" for k
      using at row_at_update_other [of ?f "\<lambda>y. rid y = rid x" "rid x" k ?T]
      by (cases "k = rid x") (simp_all add: job_at_def)
    have s: "status x = StatePending \<or> status x = StateRetrying" "available_at x \<le> db_now E"
      "sequence x = 1 \<or> (\<exists>p \<in> set ?T. chain_id p = chain_id x \<and> sequence p = sequence x - 1 \<and>
         isPredFinished (row_job p))"
      using c(2) by (auto simp: sql_claimable_def sql_pred_finished_iff list_ex_iff)
    have f: "worker_id (?f x) = Some w" "lease_generation (?f x) = lease_generation x + 1"
      "attempt (?f x) = attempt x + 1"
      "lease_until (?f x) = Some (db_now E + lease_seconds l * Second)"
      by (simp_all add: claimed_row_def)
    show ?thesis
      unfolding claimed(2) prod.case sum.case
      by (intro conjI bexI [OF _ c(1)]) (use s c ord k f in simp_all)
  qed
qed

theorem pg_claim_contract_witness:
  "\<exists>j d'. Claim_pg (quiet 50) ''w2'' (30 * Second) pg_waiting = (Inr j, d') \<and> ID j = 7 \<and>
     LeaseUntil j = Some (50 + 30 * Second)"
proof -
  let ?c = "Claim_pg (quiet 50) ''w2'' (30 * Second) pg_waiting"
  have cl: "sql_claimable 50 (table pg_waiting) (sample_row 7 1 StatePending)"
    "sample_row 7 1 StatePending \<in> set (table pg_waiting)"
    by (simp_all add: sql_claimable_def sample_row_def pg_waiting_def)
  have s: "lease_seconds (30 * Second) = 30" by (simp add: lease_seconds_def quot_def Second_def)
  have u: "x = sample_row 7 1 StatePending" if "x \<in> set (table pg_waiting)"
      "status x = StatePending \<or> status x = StateRetrying" for x
    using that by (auto simp: pg_waiting_def sample_row_def)
  note t = pg_claim_contract [of pg_waiting "quiet 50" "''w2''" "30 * Second"]
  show ?thesis
  proof (cases "fst ?c")
    case (Inl e)
    with t cl pg_waiting_no_underflow show ?thesis by (auto split: prod.splits)
  next
    case (Inr j)
    then show ?thesis using t s u by (cases ?c) (fastforce simp: sample_row_def)
  qed
qed

text \<open>A due job with the smallest 64-bit number, which \<open>Enqueue\<close> accepts, makes \<open>Claim\<close> fail: always
  when nothing else can be handed out, and on every call when the plan evaluates all rows.\<close>

lemma smallest_number_blocks_claims:
  assumes T: "table_ok (table d)" and E: "calm E"
    and x: "x \<in> set (table d)" "underflows (db_now E) x"
    and none: "full_scan E \<or>
      (\<forall>y \<in> set (table d). sql_claimable (db_now E) (table d) y \<longrightarrow> locked E (rid y))"
  shows "Claim_pg E w l d = (Inl (Message ''bigint out of range''), d)"
proof -
  have "claim_overflows E (table d)"
    using x none claim_candidate_None [of E "table d"]
    by (auto simp: claim_overflows_def list_ex_iff split: option.splits)
  with Claim_acts [OF T, of E w l] E show ?thesis by (simp add: acts_def tbl_claim_def)
qed

section \<open>All or nothing\<close>

text \<open>C24: \<open>Complete\<close> on PostgreSQL is atomic under failing statements. Whichever of its statements
  fail (a dropped error of the notification included), it either answers an error and leaves the
  database as it was, or the caller held the lease of a processing job, that job is completed, its
  blocked successor is pending, and every other row is as before.\<close>

theorem pg_complete_atomic:
  assumes "notifyChannel_pg c \<noteq> []" and "table_ok (table d)"
  shows "(\<exists>e. Complete_pg c E i w g d = (Inl e, d)) \<or>
    (\<exists>x. row_at (table d) i = Some x \<and> status x = StateProcessing \<and> worker_id x = Some w \<and>
       lease_generation x = g \<and> fst (Complete_pg c E i w g d) = Inr () \<and>
       (\<forall>k. row_at (table (snd (Complete_pg c E i w g d))) k =
          map_option (\<lambda>y.
            if k = i then completed_row (db_now E) y
            else if at_seq (chain_id x) (sequence x + 1) y \<and> status y = StateBlocked
            then unblock_row (db_now E) y else y) (row_at (table d) k)))"
proof -
  let ?res = "Complete_pg c E i w g d"
  from acts_atomic [OF Complete_acts [OF assms, of E i w g]]
  show ?thesis
  proof
    assume "\<exists>u. fst (tbl_complete (db_now E) i w g (table d)) = Inr u \<and> fst ?res = Inr u \<and>
      table (snd ?res) = snd (tbl_complete (db_now E) i w g (table d))"
    then obtain x where x: "row_at (table d) i = Some x" "holds_row i w g x" "fst ?res = Inr ()"
        "table (snd ?res) = tbl_promote (db_now E) (chain_id x) (sequence x + 1)
          (update_rows (holds_row i w g) (completed_row (db_now E)) (table d))"
      by (auto simp: tbl_complete_def filter_holds_row [OF assms(2)] split: option.splits if_splits)
    note hold = holds_row_at [OF x(1,2)]
    have "row_at (table (snd ?res)) k =
        map_option (\<lambda>y. if k = i then completed_row (db_now E) y
          else if at_seq (chain_id x) (sequence x + 1) y \<and> status y = StateBlocked
          then unblock_row (db_now E) y else y) (row_at (table d) k)" for k
      using hold by (cases "row_at (table d) k") (auto simp: x(4) row_at_promote)
    with x show ?thesis by (auto simp: holds_row_def)
  qed blast
qed

lemma pg_running_held:
  "job_at pg_running 7 = Some (row_job (sample_row 7 1 StateProcessing))"
  "holds_processing (row_job (sample_row 7 1 StateProcessing)) ''w'' 1"
  "notifyChannel_pg pg_default \<noteq> []"
  by (simp_all add: job_at_def holds_processing_def holds_lease_def sample_row_def pg_default_eq)

theorem pg_complete_atomic_witness:
  "row_at (table (snd (Complete_pg pg_default (quiet 50) 7 ''w'' 1 pg_running))) 8 =
     Some (unblock_row 50 (sample_row 8 2 StateBlocked))"
proof -
  let ?res = "Complete_pg pg_default (quiet 50) 7 ''w'' 1 pg_running"
  have s: "chain_id (sample_row q k st) = ''c''" "sequence (sample_row q k st) = k"
    "status (sample_row q k st) = st" for q k st by (simp_all add: sample_row_def)
  have ok: "fst ?res = Inr ()"
    using pg_complete_held [OF pg_samples_ok(1) pg_running_held(1,2) quiet_calm(1) pg_running_held(3), of 50]
    by auto
  from pg_complete_atomic [OF pg_running_held(3) table_ok_samples(1), of "quiet 50" 7 "''w''" 1]
  obtain x where "row_at (table pg_running) 7 = Some x" "row_at (table (snd ?res)) 8 =
      map_option (\<lambda>y. if at_seq (chain_id x) (sequence x + 1) y \<and> status y = StateBlocked
        then unblock_row 50 y else y) (row_at (table pg_running) 8)"
    using ok by fastforce
  then show ?thesis by (auto simp: at_seq_def s)
qed

text \<open>C30: the dropped error is not harmless. With an empty notification channel (the setting that
  turns \<open>Listen\<close> off) every \<open>Complete\<close> fails and is rolled back, although the code ignores the
  error of the notification: no job of this repository is ever completed.\<close>

theorem pg_empty_channel_blocks_complete:
  assumes "notifyChannel_pg c = []"
  shows "\<exists>e. Complete_pg c E i w g d = (Inl e, d)"
proof -
  have n: "notify_pg [] m = sql_error ''channel name cannot be empty''" for m
    by (simp add: notify_pg_def fun_eq_iff)
  show ?thesis
    unfolding Complete_pg_def assms n
    by (rule withTx_doomed, (rule doom implements_need implements_select implements_promote)+)
qed

theorem pg_empty_channel_blocks_complete_witness:
  "\<exists>e. Complete_pg (New_pg [WithNotifyChannel_pg []]) (quiet 50) 7 ''w'' 1 pg_running = (Inl e, pg_running)"
  by (rule pg_empty_channel_blocks_complete) (simp add: New_pg_def WithNotifyChannel_pg_def)

section \<open>Fencing\<close>



section \<open>The engine on PostgreSQL\<close>

definition pg_repo :: "(uuid \<Rightarrow> string) \<Rightarrow> (time \<Rightarrow> uuid \<Rightarrow> bool) \<Rightarrow> (string \<Rightarrow> string option) \<Rightarrow> sqldb Repository" where
  "pg_repo us lk js = postgres_repository us pg_default (calm_env lk js)"

text \<open>an execution on PostgreSQL. As on the in-memory store: when a worker's pass claims a job,
  the handler ends with an error that is not a cancellation or without one, and the worker still
  holds the lease, the job is completed, failed or dead-lettered with the error's text, or due for
  its next attempt after the backoff.\<close>

theorem pg_engine_worker_outcome:
  assumes "repo_eng e = pg_repo us lk js" and "db_ok (db st)"
    and "Claim_pg (calm_env lk js (clock rd 0)) w (LeaseDuration (leaseMgr e)) (db st) = (Inr j, s1)"
    and "MustGet (handlers e) (Type j) = Inr h"
    and "h (WithTraceID Background (TraceID j)) j s1 = (res, s2)"
    and "db_ok s2" and "job_at s2 (ID j) = Some x" and "holds_processing x w (LeaseGeneration j)"
    and "\<not> errorsIsCancel (exec_error e rd (WithTraceID Background (TraceID j)) j res)"
  shows "\<exists>x'. job_at (db (tryClaimAndExecute e rd w st)) (ID j) = Some x' \<and> same_identity x x' \<and>
    db_ok (db (tryClaimAndExecute e rd w st)) \<and>
    (case exec_error e rd (WithTraceID Background (TraceID j)) j res of
       None \<Rightarrow> Status x' = StateCompleted
     | Some err \<Rightarrow>
         if gives_up e j err
         then (Status x' = StateFailed \<or> Status x' = StateDeadLettered) \<and> LastError x' = Error err
         else Status x' = StateRetrying \<and>
              AvailableAt x' = clock rd 7 + backoff_delay e rd (Attempt j))"
  using pg.worker_outcome [OF assms(1) [unfolded pg_repo_def pg_default_eq] assms(2) _ assms(4-8)]
    assms(3,9)
  unfolding outcome_of_def by fastforce

definition pg_demo_engine :: "call_result \<Rightarrow> sqldb Engine" where
  "pg_demo_engine res = Register_eng ''task'' (\<lambda>c j s. (res, s))
     (New_engine (pg_repo format_nat (\<lambda>_ _. False) Some) ''w'' [])"

definition pg_demo_run :: "sqldb \<Rightarrow> sqldb run" where
  "pg_demo_run d = \<lparr>db = d, activeLeases = 0, notifyCh = [], events = []\<rparr>"

lemma pg_demo_engine_sel [simp]:
  "repo_eng (pg_demo_engine res) = pg_repo format_nat (\<lambda>_ _. False) Some"
  "MustGet (handlers (pg_demo_engine res)) ''task'' = Inr (\<lambda>c j s. (res, s))"
  by (simp_all add: pg_demo_engine_def Register_eng_def New_engine_def MustGet_Register Let_def
      DefaultPolicy_def)

lemma pg_demo_claim:
  "\<exists>j s1. Claim_pg (quiet 10) w l pg_waiting = (Inr j, s1) \<and> ID j = 7 \<and> Type j = ''task'' \<and>
     db_ok s1 \<and> job_at s1 7 = Some j \<and> holds_processing j w (LeaseGeneration j)"
proof (cases rule: Claim_pg_cases [OF table_ok_samples(2), of "quiet 10" w l, case_names failed claimed])
  case (failed e)
  then have "\<forall>x \<in> set (table pg_waiting). \<not> sql_claimable 10 (table pg_waiting) x"
    using claim_overflows_row [of "quiet 10" "table pg_waiting"] pg_waiting_no_underflow
    by (auto simp: claim_candidate_None)
  then show ?thesis by (simp add: pg_waiting_def sql_claimable_def sample_row_def)
next
  case (claimed x n)
  have "x \<in> set (table pg_waiting)" "sql_claimable 10 (table pg_waiting) x"
    using claim_candidate_Some(1,2) [OF claimed(1)] by simp_all
  then have x: "x = sample_row 7 1 StatePending"
    by (auto simp: pg_waiting_def sql_claimable_def sample_row_def)
  have t: "job_type (claimed_row 10 w (lease_seconds l) x) = ''task''" "rid x = 7"
    by (simp_all add: claimed_row_def x sample_row_def)
  show ?thesis using pg_claim_some [OF pg_samples_ok(2) claimed(2)] claimed(2) t by simp
qed

theorem pg_engine_worker_outcome_witness:
  "\<exists>x'. job_at (db (tryClaimAndExecute (pg_demo_engine (Returned None)) demo_readings ''w-0''
       (pg_demo_run pg_waiting))) 7 = Some x' \<and> Status x' = StateCompleted"
proof -
  let ?e = "pg_demo_engine (Returned None)" and ?st = "pg_demo_run pg_waiting"
  obtain j s1 where c: "Claim_pg (calm_env (\<lambda>_ _. False) Some (clock demo_readings 0)) ''w-0''
        (LeaseDuration (leaseMgr ?e)) (db ?st) = (Inr j, s1)" "ID j = 7" "Type j = ''task''" "db_ok s1"
      "job_at s1 7 = Some j" "holds_processing j ''w-0'' (LeaseGeneration j)"
    using pg_demo_claim by (fastforce simp: quiet_def demo_readings_def pg_demo_run_def)
  have h: "MustGet (handlers ?e) (Type j) = Inr (\<lambda>c j s. (Returned None, s))" by (simp add: c(3))
  have at: "job_at s1 (ID j) = Some j" using c by simp
  have d: "db_ok (db ?st)" by (simp add: pg_demo_run_def)
  have x: "\<not> errorsIsCancel (exec_error ?e demo_readings (WithTraceID Background (TraceID j)) j (Returned None))"
    by (simp add: exec_error_def)
  from pg_engine_worker_outcome [OF pg_demo_engine_sel(1) d c(1) h refl c(4) at c(6) x] show ?thesis
    by (auto simp: exec_error_def c(2))
qed

text \<open>C29: a cancelled execution is stranded on PostgreSQL. When the handler's error is a
  cancellation (a job deadline passed, say), the engine first asks to cancel the job, which takes
  it out of processing, so that the \<open>Fail\<close> or \<open>Retry\<close> that follows is refused and its error is
  dropped: the job stays in the state cancel-requested without the error being recorded, no claim
  ever hands it out again, and the engine never confirms the cancellation.\<close>

theorem pg_cancelled_execution_stranded:
  assumes e: "repo_eng e = pg_repo us lk js" and d: "db_ok (db st)"
    and i: "job_at (db st) (ID j) = Some x" and h: "holds_processing x w (LeaseGeneration j)"
    and c: "errorsIsCancel (Some err)"
  shows "\<exists>x'. job_at (db (finish_job e rd w j (Some err) st)) (ID j) = Some x' \<and>
    Status x' = StateCancelRequested \<and> LastError x' = LastError x \<and>
    AvailableAt x' = AvailableAt x \<and>
    (\<forall>E v l k d'. Claim_pg E v l (db (finish_job e rd w j (Some err) st)) = (Inr k, d') \<longrightarrow> ID k \<noteq> ID j)"
proof -
  let ?E = "calm_env lk js"
  obtain y where y: "row_at (table (db st)) (ID j) = Some y" "x = row_job y" "rid y = ID j"
    using job_at_Some [OF d i] by blast
  have st: "status y = StateProcessing" using h y(2) by (simp add: holds_processing_def)
  define d1 where "d1 = snd (RequestCancel_pg (?E (clock rd 4)) (ID j) (db st))"
  obtain n where d1: "d1 = \<lparr>table = update_rows (cancellable (ID j)) (cancel_row (clock rd 4)) (table (db st)),
      sent = sent (db st) @ n\<rparr>"
    using acts_calm_Inr [OF RequestCancel_acts [of "?E (clock rd 4)" "db st" "ID j"]] by (auto simp: d1_def)
  let ?x1 = "row_job (cancel_row (clock rd 4) y)"
  have x1: "job_at d1 (ID j) = Some ?x1"
    using y st by (simp add: d1 job_at_def cancellable_def)
  have ok1: "db_ok d1" unfolding d1 by (rule db_ok_update [OF d]) simp_all
  have "\<not> holds_processing ?x1 w (LeaseGeneration j)" by (simp add: holds_processing_def)
  note fen = pg_fenced [OF ok1 x1 this calm_env_sel(1)]
  let ?st1 = "st\<lparr>db := d1\<rparr>"
  have req: "snd (RequestCancel_r (repo_eng e) (clock rd 4) (ID j) (db st)) = d1"
    by (cases "RequestCancel_pg (?E (clock rd 4)) (ID j) (db st)")
      (auto simp: e pg_repo_def d1_def err_of_def split: sum.splits)
  have fin: "finish_job e rd w j (Some err) st =
      (if gives_up e j err then finish_terminal e rd w j err ?st1 else finish_retry e rd w j err ?st1)"
    using c by (simp add: finish_job_def req Let_def)
  obtain d2 where d2: "PromoteNext_r (repo_eng e) (clock rd 6) (ChainID j) (Sequence j) d1 = (None, d2)"
      "db_ok d2" "job_at d2 (ID j) = Some ?x1"
    using pg.promote_keeps [OF ok1 x1] by (fastforce simp: e pg_repo_def pg_default_eq)
  have "db (finish_job e rd w j (Some err) st) \<in> {d1, d2}"
    using d2(1) fen(2,3)
    by (simp add: fin db_finish_terminal finish_retry_def Let_def e pg_repo_def)
  then have r: "job_at (db (finish_job e rd w j (Some err) st)) (ID j) = Some ?x1"
      "db_ok (db (finish_job e rd w j (Some err) st))"
    using x1 d2 ok1 by auto
  have "ID k \<noteq> ID j" if "Claim_pg E v l (db (finish_job e rd w j (Some err) st)) = (Inr k, d')"
    for E v l k d'
  proof (cases rule: Claim_pg_cases [OF r(2) [unfolded db_ok_def], of E v l, case_names failed claimed])
    case (claimed z n)
    note z = claim_candidate_Some(1,2) [OF claimed(1)]
    have "rid z \<noteq> ID j"
    proof
      assume "rid z = ID j"
      then have "row_at (table (db (finish_job e rd w j (Some err) st))) (ID j) = Some z"
        using z(1) r(2) by (simp add: db_ok_def table_ok_def row_at_iff)
      then have "status z = StateCancelRequested" using r(1) by (auto simp: job_at_def dest: arg_cong [where f = Status])
      with z(2) show False by (simp add: sql_claimable_def)
    qed
    with that claimed(2) show ?thesis by auto
  qed (use that in simp)
  with r(1) y(2) show ?thesis by (auto simp: cancel_row_def)
qed

theorem pg_cancelled_execution_stranded_witness:
  "\<exists>x'. job_at (db (finish_job (pg_demo_engine (Returned None)) demo_readings ''w''
      (row_job (sample_row 7 1 StateProcessing)) (Some (Message ''context deadline exceeded''))
      (pg_demo_run pg_running))) 7 = Some x' \<and> Status x' = StateCancelRequested"
proof -
  let ?j = "row_job (sample_row 7 1 StateProcessing)"
  have a: "db_ok (db (pg_demo_run pg_running))" "job_at (db (pg_demo_run pg_running)) (ID ?j) = Some ?j"
    "holds_processing ?j ''w'' (LeaseGeneration ?j)" "ID ?j = 7"
    using pg_running_held by (simp_all add: pg_demo_run_def) (simp_all add: sample_row_def)
  have c: "errorsIsCancel (Some (Message ''context deadline exceeded''))"
    by (simp add: is_cancel_text_def)
  from pg_cancelled_execution_stranded [OF pg_demo_engine_sel(1) [of "Returned None"] a(1-3) c,
      of demo_readings] a(4)
  show ?thesis by auto
qed

end
