(* ===== verification/Postgres_Sim.thy ===== *)
theory Postgres_Sim
  imports Postgres_Props
begin

text \<open>
  The PostgreSQL repository against the in-memory one. \<open>represents d r\<close>: the rows of \<open>d\<close> are the jobs
  of \<open>r\<close>. Operations of a lease holder on a job in processing, promotion, and replay and skip of a
  dead job do the same on both; the two report the same statistics. Then the places where they part.
\<close>

section \<open>Representation\<close>

definition represents :: "sqldb \<Rightarrow> repo \<Rightarrow> bool" where
  "represents d r \<longleftrightarrow> db_ok d \<and> repo_wf r \<and> (\<forall>i. jobAt r i = job_at d i)"

text \<open>Two results agree: the same answer, and states that still correspond.\<close>

definition agree :: "gerror option \<times> sqldb \<Rightarrow> gerror option \<times> repo \<Rightarrow> bool" where
  "agree a b \<longleftrightarrow> fst a = fst b \<and> represents (snd a) (snd b)"

lemma represents_row:
  assumes "represents d r" and "jobAt r i = Some j"
  shows "\<exists>x. row_at (table d) i = Some x \<and> j = row_job x \<and> x \<in> set (table d) \<and> rid x = i"
  using assms job_at_Some [of d i j] by (simp add: represents_def)

lemma represents_setJob:
  assumes r: "represents d r" and x: "row_at (table d) i = Some x" and p: "\<And>y. p y \<Longrightarrow> rid y = i" "p x"
    and f: "\<And>y. rid (f y) = rid y" and ok: "db_ok \<lparr>table = update_rows p f (table d), sent = n\<rparr>"
    and j: "j' = row_job (f x)" "same_identity (row_job x) j'"
  shows "represents \<lparr>table = update_rows p f (table d), sent = n\<rparr> (setJob i j' r)"
proof -
  have i: "jobAt r i = Some (row_job x)" using r x by (simp add: represents_def job_at_def)
  have "repo_wf (setJob i j' r)" using r i j(2) by (auto simp: represents_def intro: repo_wf_setJob)
  moreover have "jobAt (setJob i j' r) k = job_at \<lparr>table = update_rows p f (table d), sent = n\<rparr> k" for k
    using r x p(2) row_at_update_other [of f p i k "table d", OF f p(1)]
    by (cases "k = i") (simp_all add: represents_def job_at_def f j(1))
  ultimately show ?thesis using ok by (simp add: represents_def)
qed

lemma represents_promote:
  assumes r: "represents d r"
  shows "represents \<lparr>table = tbl_promote now c (q + 1) (table d), sent = n\<rparr> (promote now c q r)"
proof -
  have wf: "repo_wf r" using r by (simp add: represents_def)
  have "jobAt (promote now c q r) k =
      job_at \<lparr>table = tbl_promote now c (q + 1) (table d), sent = n\<rparr> k" for k
  proof (cases "row_at (table d) k")
    case None
    then have "jobAt r k = None" using r by (simp add: represents_def job_at_def)
    then show ?thesis by (simp add: jobAt_promote [OF wf] job_at_def row_at_promote None)
  next
    case (Some x)
    then have k: "jobAt r k = Some (row_job x)" using r by (simp add: represents_def job_at_def)
    then have "idAt r c (q + 1) = Some k \<longleftrightarrow> at_seq c (q + 1) x"
      by (simp add: repo_wf_idAt_iff [OF wf] at_seq_def)
    moreover have "status x = StateBlocked \<Longrightarrow> unblocked now (row_job x) = row_job (unblock_row now x)"
      by (simp add: unblocked_def unblock_row_def row_job_def)
    moreover have "status x \<noteq> StateBlocked \<Longrightarrow> unblocked now (row_job x) = row_job x"
      by (simp add: unblocked_def)
    ultimately show ?thesis
      using k Some by (auto simp: jobAt_promote [OF wf] job_at_def row_at_promote)
  qed
  moreover have "repo_wf (promote now c q r)" using evolves_repo_wf [OF evolves_promote [OF wf] wf] .
  ultimately show ?thesis using r by (simp add: represents_def db_ok_def table_ok_promote)
qed

text \<open>The rewritten rows are the rewritten jobs.\<close>

lemma row_job_updates:
  "row_job (completed_row now x) = completed now (row_job x)"
  "row_job (retrying_row now msg at x) = retrying now msg at (row_job x)"
  "row_job (replayed_row now x) = replayed now (row_job x)"
  "row_job (failed_row now (if t \<and> ordering_mode x = OrderingModeDeadLetterAndContinue
     then StateDeadLettered else StateFailed) msg x) = failed now msg t (row_job x)"
  by (simp_all add: completed_row_def completed_def retrying_row_def retrying_def replayed_row_def
      replayed_def failed_row_def failed_def row_job_def)

section \<open>Simulation\<close>

text \<open>The updates a lease protects, when the lease is stale or its job is in processing.\<close>

lemma agree_need:
  assumes r: "represents d r" and i: "jobAt r i = Some j"
    and live: "holds_lease j w g \<longrightarrow> Status j = StateProcessing" and E: "calm E"
    and a: "acts E d (tbl_need ErrLeaseConflict (holds_row i w g) f (table d)) res"
    and f: "\<And>x. rid (f x) = rid x" "\<And>x. chain_id (f x) = chain_id x" "\<And>x. sequence (f x) = sequence x"
      "\<And>x. status (f x) \<noteq> StateProcessing"
    and F: "\<And>x. row_at (table d) i = Some x \<Longrightarrow> row_job (f x) = F (row_job x)"
      "same_identity j (F j)"
  shows "agree (err_of res) (with_lease i w g r (\<lambda>j. setJob i (F j) r))"
proof -
  have d: "db_ok d" "job_at d i = Some j" using r i by (simp_all add: represents_def)
  obtain x where x: "row_at (table d) i = Some x" "j = row_job x" "x \<in> set (table d)" "rid x = i"
    using represents_row [OF r i] by blast
  note hx = holds_row_iff [OF d(1) x(3,4), of w g]
  show ?thesis
  proof (cases "holds_lease j w g")
    case False
    then have "\<not> holds_row i w g x" using hx x(2) by (simp add: holds_processing_def)
    then have "filter (holds_row i w g) (table d) = []" using holds_filter [OF d(1) x(1)] by simp
    then have "res = (Inl ErrLeaseConflict, d)" by (rule need_refused [OF a E])
    with mem_fenced [OF i False] r show ?thesis by (simp add: agree_def)
  next
    case True
    then have h: "holds_processing j w g" using live by (simp add: holds_processing_def)
    obtain n where res: "res = (Inr (), \<lparr>table = update_rows (holds_row i w g) f (table d), sent = n\<rparr>)"
        "db_ok (snd res)"
      using pg_need_held [OF d h E a f] by auto
    have "represents (snd res) (setJob i (F j) r)"
      unfolding res(1) snd_conv
      by (rule represents_setJob [OF r x(1)])
        (use res h hx F x in \<open>auto simp: f holds_row_def\<close>)
    then show ?thesis
      using mem_with_lease_held [OF i True] res(1) by (simp add: agree_def)
  qed
qed

lemma agree_complete:
  assumes r: "represents d r" and i: "jobAt r i = Some j"
    and live: "holds_lease j w g \<longrightarrow> Status j = StateProcessing" and E: "calm E"
    and c: "notifyChannel_pg c \<noteq> []"
  shows "agree (err_of (Complete_pg c E i w g d)) (Complete_mem (db_now E) i w g r)"
proof -
  have d: "db_ok d" "job_at d i = Some j" using r i by (simp_all add: represents_def)
  show ?thesis
  proof (cases "holds_lease j w g")
    case False
    then have "\<not> holds_processing j w g" by (simp add: holds_processing_def)
    from pg_fenced(1) [OF d this E c] mem_fenced [OF i False] r show ?thesis
      by (simp add: agree_def Complete_mem_def)
  next
    case True
    then have h: "holds_processing j w g" using live by (simp add: holds_processing_def)
    obtain x n where x: "row_at (table d) i = Some x" "j = row_job x" "holds_row i w g x"
      "Complete_pg c E i w g d = (Inr (), \<lparr>table = tbl_promote (db_now E) (chain_id x) (sequence x + 1)
        (update_rows (holds_row i w g) (completed_row (db_now E)) (table d)), sent = sent d @ n\<rparr>)"
      using pg_complete_held [OF d h E c] by blast
    let ?d1 = "\<lparr>table = update_rows (holds_row i w g) (completed_row (db_now E)) (table d), sent = []\<rparr>"
    have ok: "db_ok ?d1" by (rule db_ok_update [OF d(1)]) simp_all
    have "represents ?d1 (setJob i (completed (db_now E) j) r)"
      by (rule represents_setJob [OF r x(1)])
        (use x ok in \<open>auto simp: holds_row_def row_job_updates\<close>)
    from represents_promote [OF this] show ?thesis
      using mem_with_lease_held [OF i True] x by (simp add: agree_def Complete_mem_def)
  qed
qed

lemma need_rid:
  assumes d: "db_ok d" and x: "row_at (table d) i = Some x"
  shows "filter (\<lambda>y. rid y = i \<and> Q y) (table d) = (if Q x then [x] else [])"
  using assms by (simp add: filter_rid db_ok_def table_ok_def)

text \<open>Replay and skip of a job that failed, was cancelled or is dead-lettered.\<close>

lemma agree_replay:
  assumes r: "represents d r" and i: "jobAt r i = Some j" and j: "replayable j" and E: "calm E"
    and c: "notifyChannel_pg c \<noteq> []"
  shows "agree (err_of (ReplayJob_pg c E i d)) (ReplayJob_mem (db_now E) i r)"
proof -
  have d: "db_ok d" using r by (simp add: represents_def)
  obtain x where x: "row_at (table d) i = Some x" "j = row_job x" "rid x = i"
    using represents_row [OF r i] by blast
  have rx: "replayable_row x" using j x(2) by (simp add: replayable_def replayable_row_def)
  let ?p = "\<lambda>x. rid x = i \<and> replayable_row x" and ?f = "replayed_row (db_now E)"
  obtain n where res: "ReplayJob_pg c E i d = (Inr (), \<lparr>table = update_rows ?p ?f (table d), sent = sent d @ n\<rparr>)"
    using need_done [OF Replay_acts [OF c, of E d i] E] need_rid [OF d x(1)] rx by auto
  have "represents \<lparr>table = update_rows ?p ?f (table d), sent = sent d @ n\<rparr>
      (setJob i (replayed (db_now E) j) r)"
    by (rule represents_setJob [OF r x(1)])
      (use db_ok_update [OF d, of ?f ?p] rx x(2,3) in \<open>auto simp: row_job_updates\<close>)
  then show ?thesis using i j by (simp add: agree_def res ReplayJob_mem_def)
qed

lemma agree_skip:
  assumes r: "represents d r" and i: "jobAt r i = Some j" and j: "replayable j" and E: "calm E"
    and c: "notifyChannel_pg c \<noteq> []"
  shows "agree (err_of (SkipJob_pg c E i d)) (SkipJob_mem (db_now E) i r)"
proof -
  have d: "db_ok d" using r by (simp add: represents_def)
  then have T: "table_ok (table d)" by (simp add: db_ok_def)
  obtain x where x: "row_at (table d) i = Some x" "j = row_job x" "rid x = i"
    using represents_row [OF r i] by blast
  have rx: "replayable_row x" using j x(2) by (simp add: replayable_def replayable_row_def)
  let ?p = "\<lambda>x. rid x = i \<and> replayable_row x" and ?f = "completed_row (db_now E)"
  let ?d1 = "\<lparr>table = update_rows ?p ?f (table d), sent = []\<rparr>"
  have "tbl_skip (db_now E) i (table d) = (Inr (), tbl_promote (db_now E) (chain_id x) (sequence x + 1)
      (update_rows ?p ?f (table d)))"
    using need_rid [OF d x(1)] rx by (simp add: tbl_skip_def)
  from acts_calm_Inr [OF Skip_acts [OF c T, of E i, unfolded this] E]
  obtain n where res: "SkipJob_pg c E i d = (Inr (), \<lparr>table = tbl_promote (db_now E) (chain_id x)
      (sequence x + 1) (update_rows ?p ?f (table d)), sent = sent d @ n\<rparr>)"
    by blast
  have ok: "db_ok ?d1" by (rule db_ok_update [OF d]) simp_all
  have "represents ?d1 (setJob i (completed (db_now E) j) r)"
    by (rule represents_setJob [OF r x(1)])
      (use rx x(2,3) ok in \<open>auto simp: row_job_updates\<close>)
  from represents_promote [OF this] show ?thesis
    using i j x(2) by (simp add: agree_def res SkipJob_mem_def)
qed

lemma agree_fail:
  assumes r: "represents d r" and i: "jobAt r i = Some j"
    and live: "holds_lease j w g \<longrightarrow> Status j = StateProcessing" and E: "calm E"
  shows "agree (err_of (Fail_pg E i w g msg t d)) (Fail_mem (db_now E) i w g msg t r)"
proof -
  obtain x where x: "row_at (table d) i = Some x" "j = row_job x" "rid x = i"
    using represents_row [OF r i] by blast
  define st where "st = (if t \<and> ordering_mode x = OrderingModeDeadLetterAndContinue
    then StateDeadLettered else StateFailed)"
  have "tbl_fail (db_now E) i w g msg t (table d) =
      tbl_need ErrLeaseConflict (holds_row i w g) (failed_row (db_now E) st msg) (table d)"
    by (simp add: tbl_fail_def x(1) st_def)
  note a = Fail_acts [of E d i w g msg t, unfolded this]
  have F: "row_job (failed_row (db_now E) st msg x) = failed (db_now E) msg t (row_job x)"
    by (simp add: st_def row_job_updates)
  have id: "same_identity j (failed (db_now E) msg t j)"
    using same_identity_row_job(2) [of x "db_now E" st msg] F x(2) by simp
  show ?thesis unfolding Fail_mem_def
    by (rule agree_need [where F = "failed (db_now E) msg t", OF r i live E a])
      (use x F id in \<open>auto simp: st_def\<close>)
qed

lemma agree_retry:
  assumes r: "represents d r" and i: "jobAt r i = Some j"
    and live: "holds_lease j w g \<longrightarrow> Status j = StateProcessing" and E: "calm E"
  shows "agree (err_of (Retry_pg E i w g msg at d)) (Retry_mem (db_now E) i w g msg at r)"
proof -
  have id: "same_identity j (retrying (db_now E) msg at j)"
    by (simp add: same_identity_def retrying_def)
  show ?thesis unfolding Retry_mem_def
    by (rule agree_need [where F = "retrying (db_now E) msg at", OF r i live E Retry_acts])
      (simp_all add: row_job_updates id)
qed

lemma agree_promote:
  assumes r: "represents d r" and E: "calm E"
  shows "agree (err_of (PromoteNext_pg E ch q d)) (PromoteNext_mem (db_now E) ch q r)"
proof -
  obtain n where "PromoteNext_pg E ch q d =
      (Inr (), \<lparr>table = tbl_promote (db_now E) ch (q + 1) (table d), sent = sent d @ n\<rparr>)"
    using acts_calm_Inr [OF PromoteNext_acts E] by blast
  then show ?thesis using represents_promote [OF r] by (simp add: agree_def PromoteNext_mem_def)
qed


definition mem_running :: repo where
  "mem_running = insertJob (row_job (sample_row 8 2 StateBlocked))
     (insertJob (row_job (sample_row 7 1 StateProcessing)) New_mem)"

lemma represents_running: "represents pg_running mem_running"
proof -
  have "repo_wf mem_running"
    unfolding mem_running_def
    by (intro repo_wf_insertJob repo_wf_New)
      (simp_all add: insertJob_def setJob_def New_mem_def idAt_def sample_row_def)
  moreover have "jobAt mem_running i = job_at pg_running i" for i
    by (simp add: mem_running_def insertJob_def setJob_def New_mem_def job_at_def pg_running_def
        row_at_def sample_row_def)
  ultimately show ?thesis by (simp add: represents_def)
qed


end
