(* ===== verification/Postgres_Enqueue.thy ===== *)
theory Postgres_Enqueue
  imports Postgres_Sim
begin

text \<open>
  \<open>Enqueue\<close> on PostgreSQL: its effect on the table as one function, what a successful call does,
  and what it does not take over from the request.
\<close>

section \<open>The effect on the table\<close>

definition max_seq :: "string \<Rightarrow> row list \<Rightarrow> int option" where
  "max_seq c T = (case filter (\<lambda>x. chain_id x = c) T of
     [] \<Rightarrow> None | y # ys \<Rightarrow> Some (fold max (map sequence ys) (sequence y)))"

definition row_with_key :: "string \<Rightarrow> row list \<Rightarrow> row option" where
  "row_with_key k T =
    (if k = [] then None else first_row (filter (\<lambda>x. idempotency_key x = Some k) T))"

definition gap_error :: "string \<Rightarrow> int \<Rightarrow> row list \<Rightarrow> gerror option" where
  "gap_error ch seq T =
    (case max_seq ch T of
       Some m \<Rightarrow>
         if seq > wrap64 (m + 1) then Some (Errorf1 [] ErrSequenceGap
           ('': chain '' @ ch @ '' missing seq '' @ format_int (seq - 1))) else None
     | None \<Rightarrow> Some (Errorf1 [] ErrSequenceGap '': first sequence must be 1''))"

definition seq_of :: "PgRepository \<Rightarrow> string \<Rightarrow> int \<Rightarrow> row list \<Rightarrow> gerror + int" where
  "seq_of c ch seq T =
    (if seq = 0 then Inr (next_seq (max_seq ch T))
     else if list_ex (at_seq ch seq) T then Inl ErrDuplicateChainSeq
     else if seq > 1 \<and> \<not> allowGap_pg c \<and> \<not> list_ex (at_seq ch (seq - 1)) T then
       (case gap_error ch seq T of Some e \<Rightarrow> Inl e | None \<Rightarrow> Inr seq)
     else Inr seq)"

definition status_of :: "string \<Rightarrow> int \<Rightarrow> row list \<Rightarrow> string" where
  "status_of ch seq T =
    (if seq > 1 then
       (case first_row (filter (at_seq ch (seq - 1)) T) of
          None \<Rightarrow> StateBlocked
        | Some p \<Rightarrow> if status p \<noteq> StateCompleted then StateBlocked else StatePending)
     else StatePending)"

definition tbl_insert :: "row \<Rightarrow> row list \<Rightarrow> (gerror + row) \<times> row list" where
  "tbl_insert x T =
    (if list_ex (\<lambda>y. rid y = rid x \<or> chain_id y = chain_id x \<and> sequence y = sequence x) T
     then (Inl (Message ''duplicate key value violates unique constraint''), T)
     else (Inr x, T @ [x]))"

section \<open>Enqueue implements it\<close>

lemma implements_find [impl]:
  "implements (findExistingByIdempotencyKey_pg k)
    (\<lambda>T. (Inr (map_option scan_existing (row_with_key k T)), T))"
proof (cases "k = []")
  case True
  then show ?thesis by (simp add: findExistingByIdempotencyKey_pg_def row_with_key_def implements_returnq)
next
  case False
  show ?thesis
    unfolding findExistingByIdempotencyKey_pg_def if_not_P [OF False]
    by (rule implements_cong, (rule impl)+) (simp add: bind_table_def row_with_key_def False)
qed

lemma implements_max [impl]: "implements (sql_max_sequence c) (\<lambda>T. (Inr (max_seq c T), T))"
  unfolding sql_max_sequence_def max_seq_def by (rule implements_stmt)

lemma implements_exists [impl]: "implements (sql_exists p) (\<lambda>T. (Inr (list_ex p T), T))"
  unfolding sql_exists_def by (rule implements_stmt)

lemma implements_lock [impl]: "implements (lock_chain_pg c) (\<lambda>T. (Inr (), T))"
  unfolding lock_chain_pg_def by (rule implements_stmt)

lemma implements_insert [impl]: "implements (sql_insert x) (tbl_insert x)"
  unfolding sql_insert_def tbl_insert_def [abs_def] by (rule implements_stmt)

lemma implements_sequence [impl]: "implements (sequence_pg c ch seq) (\<lambda>T. (seq_of c ch seq T, T))"
proof (cases "seq = 0")
  case True
  show ?thesis
    unfolding sequence_pg_def if_P [OF True]
    by (rule implements_cong, (rule impl)+) (simp add: bind_table_def seq_of_def True)
next
  case False
  show ?thesis
    unfolding sequence_pg_def if_not_P [OF False]
    by (rule implements_cong, (rule impl | simp)+)
      (auto simp: bind_table_def seq_of_def gap_error_def False split: option.splits)
qed

lemma implements_status [impl]: "implements (status_pg ch seq) (\<lambda>T. (Inr (status_of ch seq T), T))"
proof (cases "seq > 1")
  case True
  show ?thesis
    unfolding status_pg_def if_P [OF True]
    by (rule implements_cong, (rule impl)+) (simp add: bind_table_def status_of_def True)
next
  case False
  then show ?thesis by (simp add: status_pg_def status_of_def implements_returnq)
qed

lemma next_seq_simps:
  "next_seq None = 1"
  "- (2 ^ 63) \<le> m \<Longrightarrow> m < 2 ^ 63 - 1 \<Longrightarrow> next_seq (Some m) = m + 1"
  by (simp_all add: next_seq_def wrap64_in_range)

lemma next_seq_last: "next_seq (Some 9223372036854775807) = - 9223372036854775808"
  by (simp add: next_seq_def wrap64_def)

definition tbl_enqueue ::
  "PgRepository \<Rightarrow> env \<Rightarrow> uuid \<Rightarrow> EnqueueRequest \<Rightarrow> row list \<Rightarrow> (gerror + job) \<times> row list" where
  "tbl_enqueue c E jid req T =
    (case row_with_key (IdempotencyKey_req req) T of
       Some x \<Rightarrow> (Inr (scan_existing x), T)
     | None \<Rightarrow>
         (case seq_of c (ChainID_req req) (Sequence_req req) T of
            Inl e \<Rightarrow> (Inl e, T)
          | Inr seq \<Rightarrow>
              (case marshal_payload (Payload_req req) of
                 Inl e \<Rightarrow> (Inl e, T)
               | Inr bytes \<Rightarrow>
                   (case jsonb E bytes of
                      None \<Rightarrow> (Inl (Message ''invalid input syntax for type json''), T)
                    | Some body \<Rightarrow>
                        (case tbl_insert (new_row (db_now E) (go_now E) jid req seq
                            (status_of (ChainID_req req) seq T) OrderingModeStrict body) T of
                           (Inl e, T') \<Rightarrow> (Inl e, T')
                         | (Inr x, T') \<Rightarrow> (Inr ((row_job x)\<lparr>OrderingMode := []\<rparr>), T'))))))"

lemma implements_sql_error [impl]: "implements (sql_error m) (\<lambda>T. (Inl (Message m), T))"
  unfolding sql_error_def by (rule implements_stmt)

lemma implements_insert_pg [impl]:
  "implements (insert_pg E now jid req seq st mode)
    (\<lambda>T. case marshal_payload (Payload_req req) of
       Inl e \<Rightarrow> (Inl e, T)
     | Inr bytes \<Rightarrow>
         (case jsonb E bytes of
            None \<Rightarrow> (Inl (Message ''invalid input syntax for type json''), T)
          | Some body \<Rightarrow> tbl_insert (new_row (db_now E) now jid req seq st mode body) T))"
proof (cases "marshal_payload (Payload_req req)")
  case (Inl e)
  then show ?thesis by (simp add: insert_pg_def implements_failq)
next
  case (Inr bytes)
  show ?thesis
  proof (cases "jsonb E bytes")
    case None
    then show ?thesis by (simp add: insert_pg_def Inr implements_sql_error)
  next
    case (Some body)
    have "implements (insert_pg E now jid req seq st mode)
        (bind_table (tbl_insert (new_row (db_now E) now jid req seq st mode body))
          (\<lambda>x. bind_table (\<lambda>T. (Inr [x], T)) (\<lambda>_ T. (Inr x, T))))"
      unfolding insert_pg_def Inr Some sum.case option.case by (intro impl)
    then show ?thesis
      by (rule implements_cong) (simp add: Inr Some bind_table_def tbl_insert_def)
  qed
qed

lemma implements_enqueue: "implements (enqueue_body_pg c E jid req) (tbl_enqueue c E jid req)"
  unfolding enqueue_body_pg_def
  by (rule implements_cong, (rule impl)+)
    (auto simp: bind_table_def tbl_enqueue_def split: option.splits sum.splits prod.splits)

lemma tbl_insert_Inr:
  "tbl_insert x T = (Inr y, T') \<Longrightarrow> y = x \<and> T' = T @ [x] \<and>
    (\<forall>z \<in> set T. rid z \<noteq> rid x \<and> \<not> at_seq (chain_id x) (sequence x) z)"
  by (auto simp: tbl_insert_def list_ex_iff at_seq_def split: if_splits)

lemma tbl_enqueue_new:
  assumes "row_with_key (IdempotencyKey_req req) T = None" and "tbl_enqueue c E jid req T = (Inr j, T')"
  shows "\<exists>seq body x. x = new_row (db_now E) (go_now E) jid req seq (status_of (ChainID_req req) seq T)
      OrderingModeStrict body \<and> j = (row_job x)\<lparr>OrderingMode := []\<rparr> \<and>
    seq_of c (ChainID_req req) (Sequence_req req) T = Inr seq \<and> tbl_insert x T = (Inr x, T')"
  using assms by (auto simp: tbl_enqueue_def split: sum.splits option.splits prod.splits
      dest: tbl_insert_Inr)

text \<open>The notification after the commit leaves the table alone.\<close>

lemma autocommit_notify_table [simp]: "table (snd (autocommit E k (notify_pg ch m) d)) = table d"
  by (auto simp: autocommit_def notify_pg_def sql_error_def bindq_def stmt_def begin_tx_def
      add_notice_def Let_def split: option.splits)

lemma Enqueue_pg_cases:
  obtains (failed) e where "Enqueue_pg c E jid req d = (Inl e, d)"
      "calm E \<Longrightarrow> fst (tbl_enqueue c E jid req (table d)) = Inl e"
    | (stored) j T where "tbl_enqueue c E jid req (table d) = (Inr j, T)"
      "fst (Enqueue_pg c E jid req d) = Inr j" "table (snd (Enqueue_pg c E jid req d)) = T"
proof -
  note a = acts_withTx [OF implements_enqueue, of E d c E jid req]
  show ?thesis
  proof (cases "withTx True E (enqueue_body_pg c E jid req) d")
    case (Pair r d')
    show ?thesis
    proof (cases r)
      case (Inl e)
      with a Pair show ?thesis
        by (cases "tbl_enqueue c E jid req (table d)"; cases "fst (tbl_enqueue c E jid req (table d))")
          (auto simp: acts_def Enqueue_pg_def intro!: that(1) [of e])
    next
      case (Inr j)
      with a Pair show ?thesis
        by (intro that(2) [of j "table d'"]) (auto simp: acts_def Enqueue_pg_def)
    qed
  qed
qed

section \<open>What a successful call does\<close>

text \<open>C26: \<open>Enqueue\<close> on PostgreSQL, whatever statements fail: a call that returns an error has changed
  nothing; a call that returns a job either found the row with the request's key and changed
  nothing, or appended one row with the id it chose and a number that was free in its chain, pending
  only for number one and below or after a completed predecessor, else blocked. When the request
  names no number it is one for an empty chain and one above the largest number otherwise, in 64
  bits: after 2 ^ 63 - 1 the chain goes on with - 2 ^ 63, pending at once. The row's ordering mode is strict whatever the request says, and the
  returned job has none.\<close>

theorem pg_enqueue_contract:
  shows "case Enqueue_pg c E jid req d of
    (Inl e, d') \<Rightarrow> d' = d
  | (Inr j, d') \<Rightarrow>
      (IdempotencyKey_req req \<noteq> [] \<and> table d' = table d \<and>
        (\<exists>x \<in> set (table d). idempotency_key x = Some (IdempotencyKey_req req) \<and> j = scan_existing x)) \<or>
      (\<exists>x. table d' = table d @ [x] \<and> rid x = jid \<and> chain_id x = ChainID_req req \<and>
        (\<forall>y \<in> set (table d). rid y \<noteq> jid \<and> \<not> at_seq (ChainID_req req) (sequence x) y) \<and>
        (if Sequence_req req = 0
         then sequence x = next_seq (max_seq (ChainID_req req) (table d))
         else sequence x = Sequence_req req) \<and>
        (Sequence_req req = 0 \<and> max_seq (ChainID_req req) (table d) = None \<longrightarrow> sequence x = 1) \<and>
        (\<forall>m. Sequence_req req = 0 \<and> max_seq (ChainID_req req) (table d) = Some m \<and>
           - (2 ^ 63) \<le> m \<and> m < 2 ^ 63 - 1 \<longrightarrow> sequence x = m + 1) \<and>
        (Sequence_req req = 0 \<and> max_seq (ChainID_req req) (table d) = Some (2 ^ 63 - 1) \<longrightarrow>
           sequence x = - (2 ^ 63) \<and> status x = StatePending) \<and>
        status x = (if sequence x \<le> 1 \<or> (\<exists>p. first_row (filter (at_seq (ChainID_req req)
              (sequence x - 1)) (table d)) = Some p \<and> status p = StateCompleted)
          then StatePending else StateBlocked) \<and>
        ordering_mode x = OrderingModeStrict \<and> j = (row_job x)\<lparr>OrderingMode := []\<rparr>)"
proof (cases rule: Enqueue_pg_cases [of c E jid req d, case_names failed stored])
  case (failed e)
  then show ?thesis by simp
next
  case (stored j T)
  obtain d' where d': "Enqueue_pg c E jid req d = (Inr j, d')" "table d' = T"
    using stored(2,3) by (cases "Enqueue_pg c E jid req d") simp
  show ?thesis
  proof (cases "row_with_key (IdempotencyKey_req req) (table d)")
    case (Some x)
    then have "T = table d" "j = scan_existing x" "IdempotencyKey_req req \<noteq> []"
        "x \<in> set (table d)" "idempotency_key x = Some (IdempotencyKey_req req)"
      using stored(1) by (auto simp: tbl_enqueue_def row_with_key_def first_row_filter
          dest: find_Some_mem split: if_splits)
    with d' show ?thesis by auto
  next
    case None
    from tbl_enqueue_new [OF this stored(1)] obtain seq body x where
      x: "x = new_row (db_now E) (go_now E) jid req seq (status_of (ChainID_req req) seq (table d))
          OrderingModeStrict body" "j = (row_job x)\<lparr>OrderingMode := []\<rparr>"
      and s: "seq_of c (ChainID_req req) (Sequence_req req) (table d) = Inr seq"
      and i: "tbl_insert x (table d) = (Inr x, T)"
      by blast
    have r: "rid x = jid" "chain_id x = ChainID_req req" "sequence x = seq"
      "status x = status_of (ChainID_req req) seq (table d)" "ordering_mode x = OrderingModeStrict"
      by (simp_all add: new_row_def x(1))
    have T: "T = table d @ [x]" "\<forall>y \<in> set (table d). rid y \<noteq> jid \<and> \<not> at_seq (ChainID_req req) seq y"
      using tbl_insert_Inr [OF i] by (simp_all add: r at_seq_def)
    have q: "if Sequence_req req = 0 then seq = next_seq (max_seq (ChainID_req req) (table d))
        else seq = Sequence_req req"
      using s by (auto simp: seq_of_def split: if_splits option.splits)
    have st: "status_of (ChainID_req req) seq (table d) =
        (if seq \<le> 1 \<or> (\<exists>p. first_row (filter (at_seq (ChainID_req req) (seq - 1)) (table d)) = Some p \<and>
            status p = StateCompleted) then StatePending else StateBlocked)"
      by (auto simp: status_of_def split: option.splits)
    have n: "Sequence_req req = 0 \<and> max_seq (ChainID_req req) (table d) = None \<longrightarrow> seq = 1"
      "\<forall>m. Sequence_req req = 0 \<and> max_seq (ChainID_req req) (table d) = Some m \<and>
         - (2 ^ 63) \<le> m \<and> m < 2 ^ 63 - 1 \<longrightarrow> seq = m + 1"
      "Sequence_req req = 0 \<and> max_seq (ChainID_req req) (table d) = Some (2 ^ 63 - 1) \<longrightarrow>
         seq = - (2 ^ 63) \<and> status x = StatePending"
      using q next_seq_last by (auto simp: next_seq_simps r status_of_def split: if_splits)
    show ?thesis
      unfolding d'(1) prod.case sum.case
      by (intro disjI2 exI [of _ x] conjI) (use T q n st d' r x(2) in simp_all)
  qed
qed

lemma marshal_sample: "marshal_payload (Payload_req (sample_req c q k)) = Inr ''null''"
  by (simp add: marshal_payload_def sample_req_def json_Marshal_def zero_EnqueueRequest_def)

lemma quiet_jsonb [simp]: "jsonb (quiet t) b = Some b"
  by (simp add: quiet_def calm_env_def)

theorem pg_enqueue_contract_witness:
  "\<exists>x. table (snd (Enqueue_pg pg_default (quiet 10) 9 (sample_req ''c'' 0 []) pg_running)) =
     table pg_running @ [x] \<and> sequence x = 3 \<and> status x = StateBlocked"
proof -
  let ?req = "sample_req ''c'' 0 []" and ?T = "table pg_running"
  have r: "ChainID_req ?req = ''c''" "Sequence_req ?req = 0" "IdempotencyKey_req ?req = []"
    by (simp_all add: sample_req_def zero_EnqueueRequest_def)
  have m: "max_seq ''c'' ?T = Some 2"
    by (simp add: max_seq_def pg_running_def sample_row_def)
  have f: "first_row (filter (at_seq ''c'' 2) ?T) = Some (sample_row 8 2 StateBlocked)"
    by (simp add: pg_running_def sample_row_def at_seq_def)
  have ok: "\<not> isl (fst (tbl_enqueue pg_default (quiet 10) 9 ?req ?T))"
    by (simp add: tbl_enqueue_def row_with_key_def seq_of_def next_seq_simps r m marshal_sample tbl_insert_def)
      (simp add: pg_running_def sample_row_def new_row_def r)
  have "\<not> isl (fst (Enqueue_pg pg_default (quiet 10) 9 ?req pg_running))"
    by (cases rule: Enqueue_pg_cases [of pg_default "quiet 10" 9 ?req pg_running]) (use ok in auto)
  then obtain j d' where d': "Enqueue_pg pg_default (quiet 10) 9 ?req pg_running = (Inr j, d')"
    by (metis prod.collapse sum.collapse(2))
  from pg_enqueue_contract [where c = pg_default and E = "quiet 10" and jid = 9 and req = ?req and d = pg_running] show ?thesis
    unfolding d' by (auto simp: r m next_seq_simps f) (simp add: sample_row_def)
qed

end
