(* ===== verification/Postgres_Batch.thy ===== *)
theory Postgres_Batch
  imports Postgres_Enqueue
begin

text \<open>
  \<open>EnqueueBatch\<close> on PostgreSQL: all requests are stored in one transaction or none is, and what the
  batch does differently from single enqueues.
\<close>

section \<open>The effect on the table\<close>

definition batch_status :: "string \<Rightarrow> int \<Rightarrow> job list \<Rightarrow> row list \<Rightarrow> string" where
  "batch_status ch seq prev T =
    (if seq \<le> 1 then StatePending
     else case (case first_row (filter (at_seq ch (seq - 1)) T) of
            Some p \<Rightarrow> Some (status p, ordering_mode p)
          | None \<Rightarrow> map_option (\<lambda>j. (Status j, OrderingMode j))
              (List.find (\<lambda>j. ChainID j = ch \<and> Sequence j = seq - 1) prev)) of
       None \<Rightarrow> StateBlocked
     | Some (st, mode) \<Rightarrow> if \<not> pred_finished st mode then StateBlocked else StatePending)"

definition batch_seq :: "string \<Rightarrow> int \<Rightarrow> row list \<Rightarrow> gerror + int" where
  "batch_seq ch seq T =
    (if seq = 0 then Inr (next_seq (max_seq ch T))
     else if list_ex (at_seq ch seq) T then Inl ErrDuplicateChainSeq else Inr seq)"

definition batch_mode :: "EnqueueRequest \<Rightarrow> string" where
  "batch_mode req =
    (if OrderingMode_req req = [] then OrderingModeStrict else OrderingMode_req req)"

definition tbl_single ::
  "env \<Rightarrow> time \<Rightarrow> uuid \<Rightarrow> EnqueueRequest \<Rightarrow> job list \<Rightarrow> row list \<Rightarrow> (gerror + job) \<times> row list" where
  "tbl_single E now jid req prev T =
    (case row_with_key (IdempotencyKey_req req) T of
       Some x \<Rightarrow> (Inr (scan_existing x), T)
     | None \<Rightarrow>
         (case (if IdempotencyKey_req req \<noteq> []
                then List.find (\<lambda>o'. IdempotencyKey o' = IdempotencyKey_req req) prev else None) of
            Some j \<Rightarrow> (Inr j, T)
          | None \<Rightarrow>
              (case batch_seq (ChainID_req req) (Sequence_req req) T of
                 Inl e \<Rightarrow> (Inl e, T)
               | Inr seq \<Rightarrow>
                   (case marshal_payload (Payload_req req) of
                      Inl e \<Rightarrow> (Inl e, T)
                    | Inr bytes \<Rightarrow>
                        (case jsonb E bytes of
                           None \<Rightarrow> (Inl (Message ''invalid input syntax for type json''), T)
                         | Some body \<Rightarrow>
                             (case tbl_insert (new_row (db_now E) now jid req seq
                                 (batch_status (ChainID_req req) seq prev T) (batch_mode req) body) T of
                                (Inl e, T') \<Rightarrow> (Inl e, T')
                              | (Inr x, T') \<Rightarrow> (Inr (row_job x), T')))))))"

fun tbl_all ::
  "env \<Rightarrow> ((time \<times> uuid) \<times> EnqueueRequest) list \<Rightarrow> job list \<Rightarrow> row list \<Rightarrow> (gerror + job list) \<times> row list" where
  "tbl_all E [] out T = (Inr out, T)"
| "tbl_all E (((now, jid), req) # reqs) out T =
    (case tbl_single E now jid req out T of
       (Inl e, T') \<Rightarrow> (Inl e, T')
     | (Inr j, T') \<Rightarrow> tbl_all E reqs (out @ [j]) T')"

section \<open>EnqueueBatch implements it\<close>

lemma implements_batch_seq [impl]:
  "implements (resolveSequenceInTx_pg ch seq) (\<lambda>T. (batch_seq ch seq T, T))"
proof (cases "seq = 0")
  case True
  show ?thesis
    unfolding resolveSequenceInTx_pg_def if_P [OF True]
    by (rule implements_cong, (rule impl)+) (simp add: bind_table_def batch_seq_def True)
next
  case False
  show ?thesis
    unfolding resolveSequenceInTx_pg_def if_not_P [OF False]
    by (rule implements_cong, (rule impl)+) (simp add: bind_table_def batch_seq_def False)
qed

lemma implements_batch_status [impl]:
  "implements (determineStatusInTx_pg ch seq prev) (\<lambda>T. (Inr (batch_status ch seq prev T), T))"
proof (cases "seq \<le> 1")
  case True
  then show ?thesis by (simp add: determineStatusInTx_pg_def batch_status_def implements_returnq)
next
  case False
  show ?thesis
    unfolding determineStatusInTx_pg_def if_not_P [OF False]
    by (rule implements_cong, (rule impl)+) (simp add: bind_table_def batch_status_def False)
qed

lemma implements_single [impl]:
  "implements (enqueueSingleInTx_pg E now jid req prev) (tbl_single E now jid req prev)"
  unfolding enqueueSingleInTx_pg_def
  by (rule implements_cong, (rule impl)+)
    (auto simp: bind_table_def tbl_single_def batch_mode_def split: option.splits sum.splits prod.splits)

lemma implements_all [impl]: "implements (enqueue_all_pg E reqs out) (tbl_all E reqs out)"
proof (induction reqs arbitrary: out)
  case Nil
  then show ?case by (simp add: implements_returnq)
next
  case (Cons r reqs)
  obtain now jid req where r: "r = ((now, jid), req)" by (metis prod.collapse)
  have "implements (enqueue_all_pg E (r # reqs) out)
      (bind_table (tbl_single E now jid req out) (\<lambda>j. tbl_all E reqs (out @ [j])))"
    unfolding r enqueue_all_pg.simps by (intro implements_bindq implements_single Cons.IH)
  then show ?case by (rule implements_cong) (simp add: r bind_table_def)
qed

lemma implements_locks [impl]: "implements (lock_chains_pg cs) (\<lambda>T. (Inr (), T))"
proof (induction cs)
  case Nil
  then show ?case by (simp add: implements_returnq)
next
  case (Cons c cs)
  have "implements (lock_chains_pg (c # cs)) (bind_table (\<lambda>T. (Inr (), T)) (\<lambda>_ T. (Inr (), T)))"
    unfolding lock_chains_pg.simps by (intro implements_bindq implements_lock Cons.IH)
  then show ?case by (rule implements_cong) (simp add: bind_table_def)
qed

lemma notify_all_table [simp]: "table (notify_all_pg c E k js d) = table d"
  by (induction c E k js d rule: notify_all_pg.induct) simp_all

lemma EnqueueBatch_pg_cases:
  assumes "reqs \<noteq> []"
  obtains (failed) e where "EnqueueBatch_pg c E reqs d = (Inl e, d)"
      "calm E \<Longrightarrow> fst (tbl_all E reqs [] (table d)) = Inl e"
    | (stored) out T where "tbl_all E reqs [] (table d) = (Inr out, T)"
      "fst (EnqueueBatch_pg c E reqs d) = Inr out" "table (snd (EnqueueBatch_pg c E reqs d)) = T"
proof -
  let ?q = "bindq (lock_chains_pg (distinctChains (map snd reqs))) (\<lambda>_. enqueue_all_pg E reqs [])"
  have "implements ?q (tbl_all E reqs [])"
    by (rule implements_cong, (rule impl)+) (simp add: bind_table_def)
  note a = acts_withTx [OF this, of E d]
  have l: "length reqs \<noteq> 0" using assms by simp
  show ?thesis
  proof (cases "withTx True E ?q d")
    case (Pair r d')
    show ?thesis
    proof (cases r)
      case (Inl e)
      with a Pair show ?thesis
        by (cases "tbl_all E reqs [] (table d)"; cases "fst (tbl_all E reqs [] (table d))")
          (auto simp: acts_def EnqueueBatch_pg_def assms intro!: that(1) [of e])
    next
      case (Inr out)
      with a Pair show ?thesis
        by (intro that(2) [of out "table d'"]) (auto simp: acts_def EnqueueBatch_pg_def assms)
    qed
  qed
qed

section \<open>What a batch does\<close>

definition stored_for :: "EnqueueRequest \<Rightarrow> row list \<Rightarrow> job \<Rightarrow> bool" where
  "stored_for req T j \<longleftrightarrow>
     (\<exists>x \<in> set T. chain_id x = ChainID_req req \<and> job_type x = Type_req req \<and>
        ordering_mode x = batch_mode req \<and>
        (Sequence_req req \<noteq> 0 \<longrightarrow> sequence x = Sequence_req req) \<and> j = row_job x) \<or>
     IdempotencyKey_req req \<noteq> [] \<and> IdempotencyKey j = IdempotencyKey_req req"

lemma stored_for_mono: "stored_for req T j \<Longrightarrow> stored_for req (T @ T') j"
  by (auto simp: stored_for_def)

lemma tbl_single_stored:
  assumes "tbl_single E now jid req prev T = (Inr j, T')"
  shows "\<exists>xs. T' = T @ xs \<and> stored_for req T' j"
proof (cases "row_with_key (IdempotencyKey_req req) T")
  case (Some x)
  then have "IdempotencyKey_req req \<noteq> []" "idempotency_key x = Some (IdempotencyKey_req req)"
    by (auto simp: row_with_key_def first_row_filter dest: find_Some_mem split: if_splits)
  with assms Some show ?thesis by (auto simp: tbl_single_def stored_for_def scan_existing_def)
next
  case None
  show ?thesis
  proof (cases "if IdempotencyKey_req req \<noteq> []
      then List.find (\<lambda>o'. IdempotencyKey o' = IdempotencyKey_req req) prev else None")
    case (Some j0)
    with assms None show ?thesis
      by (auto simp: tbl_single_def stored_for_def dest: find_Some_mem split: if_splits)
  next
    case new: None
    with assms None obtain seq body x where
      x: "x = new_row (db_now E) now jid req seq (batch_status (ChainID_req req) seq prev T)
          (batch_mode req) body" "j = row_job x"
      and s: "batch_seq (ChainID_req req) (Sequence_req req) T = Inr seq"
      and i: "tbl_insert x T = (Inr x, T')"
      by (auto simp: tbl_single_def simp del: not_None_eq split: sum.splits option.splits prod.splits
          dest: tbl_insert_Inr)
    have "Sequence_req req \<noteq> 0 \<longrightarrow> seq = Sequence_req req"
      using s by (auto simp: batch_seq_def split: if_splits)
    moreover have "chain_id x = ChainID_req req" "job_type x = Type_req req" "sequence x = seq"
      "ordering_mode x = batch_mode req" by (simp_all add: x(1) new_row_def)
    ultimately show ?thesis using tbl_insert_Inr [OF i] x(2) by (auto simp: stored_for_def)
  qed
qed

lemma tbl_all_stored:
  "tbl_all E reqs out T = (Inr out', T') \<Longrightarrow>
   \<exists>xs js. T' = T @ xs \<and> out' = out @ js \<and> list_all2 (\<lambda>r j. stored_for (snd r) T' j) reqs js"
proof (induction reqs arbitrary: out T)
  case (Cons r reqs)
  obtain now jid req where r: "r = ((now, jid), req)" by (metis prod.collapse)
  obtain j T1 where j: "tbl_single E now jid req out T = (Inr j, T1)"
      "tbl_all E reqs (out @ [j]) T1 = (Inr out', T')"
    using Cons.prems by (auto simp: r split: prod.splits sum.splits)
  obtain xs where xs: "T1 = T @ xs" "stored_for req T1 j" using tbl_single_stored [OF j(1)] by blast
  obtain ys js where ys: "T' = T1 @ ys" "out' = (out @ [j]) @ js"
      "list_all2 (\<lambda>r j. stored_for (snd r) T' j) reqs js"
    using Cons.IH [OF j(2)] by blast
  then have "stored_for req T' j" using stored_for_mono xs(2) by blast
  with xs(1) ys have "T' = T @ (xs @ ys) \<and> out' = out @ (j # js) \<and>
      list_all2 (\<lambda>r j. stored_for (snd r) T' j) (r # reqs) (j # js)"
    by (simp add: r)
  then show ?case by blast
qed simp

text \<open>C27: \<open>EnqueueBatch\<close> on PostgreSQL, whatever statements fail: an error leaves the database
  unchanged; otherwise rows were only appended, and the answer has one job per request, in order:
  the row stored for it (its chain, type and requested number, its ordering mode or strict), or
  a job that carries the request's idempotency key.\<close>

theorem pg_batch_atomic:
  "case EnqueueBatch_pg c E reqs d of
     (Inl e, d') \<Rightarrow> d' = d
   | (Inr out, d') \<Rightarrow> (\<exists>xs. table d' = table d @ xs) \<and>
       list_all2 (\<lambda>r j. (\<exists>x \<in> set (table d').
           chain_id x = ChainID_req (snd r) \<and> job_type x = Type_req (snd r) \<and>
           ordering_mode x = batch_mode (snd r) \<and>
           (Sequence_req (snd r) \<noteq> 0 \<longrightarrow> sequence x = Sequence_req (snd r)) \<and> j = row_job x) \<or>
         IdempotencyKey_req (snd r) \<noteq> [] \<and> IdempotencyKey j = IdempotencyKey_req (snd r)) reqs out"
proof (cases "reqs = []")
  case True
  then show ?thesis by (simp add: EnqueueBatch_pg_def)
next
  case False
  show ?thesis
  proof (cases rule: EnqueueBatch_pg_cases [OF False, of c E d, case_names failed stored])
    case (failed e)
    then show ?thesis by simp
  next
    case (stored out T)
    obtain d' where d': "EnqueueBatch_pg c E reqs d = (Inr out, d')" "table d' = T"
      using stored(2,3) by (cases "EnqueueBatch_pg c E reqs d") simp
    from tbl_all_stored [OF stored(1)] d' show ?thesis
      unfolding stored_for_def by auto
  qed
qed

lemma sample_batch:
  "tbl_all (quiet 10) [((10, 1), sample_req ''c'' 3 [])] [] [] =
    (Inr [row_job (new_row 10 10 1 (sample_req ''c'' 3 []) 3 StateBlocked OrderingModeStrict ''null'')],
     [new_row 10 10 1 (sample_req ''c'' 3 []) 3 StateBlocked OrderingModeStrict ''null''])"
proof -
  have r: "ChainID_req (sample_req ''c'' 3 []) = ''c''" "Sequence_req (sample_req ''c'' 3 []) = 3"
    "IdempotencyKey_req (sample_req ''c'' 3 []) = []" "OrderingMode_req (sample_req ''c'' 3 []) = []"
    by (simp_all add: sample_req_def zero_EnqueueRequest_def)
  show ?thesis
    by (simp add: tbl_single_def row_with_key_def batch_seq_def batch_status_def r marshal_sample
        tbl_insert_def batch_mode_def)
qed

theorem pg_batch_atomic_witness:
  "\<exists>j x. fst (EnqueueBatch_pg pg_default (quiet 10) [((10, 1), sample_req ''c'' 3 [])] empty_db) = Inr [j] \<and>
     x \<in> set (table (snd (EnqueueBatch_pg pg_default (quiet 10) [((10, 1), sample_req ''c'' 3 [])] empty_db))) \<and>
     j = row_job x \<and> sequence x = 3"
proof -
  let ?reqs = "[((10, 1), sample_req ''c'' 3 [])] :: ((time \<times> uuid) \<times> EnqueueRequest) list"
  let ?B = "EnqueueBatch_pg pg_default (quiet 10) ?reqs empty_db"
  obtain j d' where B: "?B = (Inr [j], d')"
  proof (cases rule: EnqueueBatch_pg_cases [of ?reqs pg_default "quiet 10" empty_db,
      case_names nonempty failed stored])
    case (stored out T)
    then show ?thesis using sample_batch that by (cases ?B) (auto simp: empty_db_def)
  qed (use sample_batch in \<open>auto simp: empty_db_def\<close>)
  from pg_batch_atomic [where c = pg_default and E = "quiet 10" and reqs = ?reqs and d = empty_db] show ?thesis
    unfolding B by (auto simp: sample_req_def zero_EnqueueRequest_def)
qed

text \<open>batches are not checked for gaps. On a chain without rows, a request with a number above
  one is refused by \<open>Enqueue\<close> with a sequence gap, while the same request in a batch is stored,
  blocked behind a predecessor that does not exist.\<close>

theorem pg_batch_accepts_gap:
  assumes "max_seq (ChainID_req req) (table d) = None" and "Sequence_req req > 1"
    and "IdempotencyKey_req req = []" and "\<not> allowGap_pg c" and "calm E"
    and "marshal_payload (Payload_req req) = Inr bytes" and "jsonb E bytes = Some body"
    and "jid \<notin> rid ` set (table d)"
  shows "fst (Enqueue_pg c E jid req d) = Inl (Errorf1 [] ErrSequenceGap '': first sequence must be 1'') \<and>
    (\<exists>j. fst (EnqueueBatch_pg c E [((now, jid), req)] d) = Inr [j] \<and>
       Sequence j = Sequence_req req \<and> Status j = StateBlocked)"
proof -
  let ?ch = "ChainID_req req" and ?q = "Sequence_req req" and ?T = "table d"
  have n: "filter (at_seq ?ch k) ?T = []" for k
    using assms(1) by (auto simp: max_seq_def at_seq_def filter_empty_conv split: list.splits)
  then have x: "\<not> list_ex (at_seq ?ch k) ?T" for k by (auto simp: list_ex_iff filter_empty_conv)
  have gap: "tbl_enqueue c E jid req ?T =
      (Inl (Errorf1 [] ErrSequenceGap '': first sequence must be 1''), ?T)"
    using assms x by (simp add: tbl_enqueue_def row_with_key_def seq_of_def gap_error_def)
  have e: "fst (Enqueue_pg c E jid req d) = Inl (Errorf1 [] ErrSequenceGap '': first sequence must be 1'')"
    by (cases rule: Enqueue_pg_cases [of c E jid req d]) (use gap assms(5) in auto)
  let ?x = "new_row (db_now E) now jid req ?q StateBlocked (batch_mode req) body"
  have s: "tbl_single E now jid req [] ?T = (Inr (row_job ?x), ?T @ [?x])"
    using assms n x
    by (auto simp: tbl_single_def row_with_key_def batch_seq_def batch_status_def tbl_insert_def
        new_row_def list_ex_iff at_seq_def)
  then have all: "tbl_all E [((now, jid), req)] [] ?T = (Inr [row_job ?x], ?T @ [?x])" by simp
  have "fst (EnqueueBatch_pg c E [((now, jid), req)] d) = Inr [row_job ?x]"
    by (rule EnqueueBatch_pg_cases [of "[((now, jid), req)]" c E d]) (use all assms(5) in auto)
  with e show ?thesis by (auto simp: new_row_def)
qed

theorem pg_batch_accepts_gap_witness:
  "fst (Enqueue_pg pg_default (quiet 10) 1 (sample_req ''c'' 3 []) empty_db) =
     Inl (Errorf1 [] ErrSequenceGap '': first sequence must be 1'')"
proof -
  from pg_batch_accepts_gap [OF _ _ _ _ quiet_calm(1) marshal_sample quiet_jsonb,
      where d = empty_db and c = pg_default and jid = 1 and now = 10] show ?thesis
    by (simp add: max_seq_def empty_db_def sample_req_def zero_EnqueueRequest_def pg_default_eq)
qed

end
