(* ===== verification/Postgres_Stats.thy ===== *)
theory Postgres_Stats
  imports Postgres_Sim
begin

text \<open>
  The reports of the two repositories on the same jobs: the grouped counts of the SQL \<open>GetStats\<close>
  are the counters the in-memory \<open>GetStats\<close> accumulates, and the dead-letter counts are the same.
\<close>

section \<open>The jobs of a database\<close>

lemma lookup_mset_jobs:
  assumes r: "represents d r"
  shows "mset (map snd (jobs r)) = mset (map row_job (table d))"
proof -
  have wf: "repo_wf r" and T: "distinct (map rid (table d))"
    using r by (simp_all add: represents_def db_ok_def table_ok_def)
  have ids: "map ID (map snd (jobs r)) = map fst (jobs r)"
    using repo_wf_ID [OF wf] repo_wf_distinct [OF wf]
    by (auto simp: map_of_eq_Some_iff)
  have a: "distinct (map snd (jobs r))"
    using repo_wf_distinct [OF wf] ids distinct_map [of ID] by metis
  have "map ID (map row_job (table d)) = map rid (table d)" by simp
  then have b: "distinct (map row_job (table d))" using T distinct_map [of ID] by metis
  have "j \<in> set (map snd (jobs r)) \<longleftrightarrow> (\<exists>i. jobAt r i = Some j)" for j
    using repo_wf_distinct [OF wf] by (force simp: map_of_eq_Some_iff)
  moreover have "(\<exists>i. job_at d i = Some j) \<longleftrightarrow> j \<in> set (map row_job (table d))" for j
    using T by (auto simp: job_at_def row_at_iff)
  ultimately have "set (map snd (jobs r)) = set (map row_job (table d))"
    using r by (auto simp: represents_def)
  with a b show ?thesis using set_eq_iff_mset_eq_distinct by blast
qed

lemma count_if_rows:
  assumes r: "represents d r" and p: "\<And>x. p x \<longleftrightarrow> P (row_job x)"
  shows "int (count_if P (jobs r)) = count_rows p (table d)"
proof -
  have "count_if P (jobs r) = size (filter_mset P (mset (map snd (jobs r))))"
    by (simp add: count_if_def filter_map comp_def split_def flip: mset_map mset_filter)
  also have "\<dots> = length (filter p (table d))"
    unfolding lookup_mset_jobs [OF r]
    by (simp add: p [abs_def] filter_map comp_def flip: mset_map mset_filter)
  finally show ?thesis by (simp add: count_rows_def)
qed

section \<open>The groups\<close>

lemma stats_groups:
  "fold stats_group (map (\<lambda>st. (st, n st)) S) s =
   s\<lparr>Total_st := Total_st s + sum_list (map n S),
     Pending_st := if StatePending \<in> set S then n StatePending else Pending_st s,
     Blocked_st := if StateBlocked \<in> set S then n StateBlocked else Blocked_st s,
     Processing_st := if StateProcessing \<in> set S then n StateProcessing else Processing_st s,
     Completed_st := if StateCompleted \<in> set S then n StateCompleted else Completed_st s,
     Retrying_st := if StateRetrying \<in> set S then n StateRetrying else Retrying_st s,
     Failed_st := if StateFailed \<in> set S then n StateFailed else Failed_st s,
     DeadLettered_st := if StateDeadLettered \<in> set S then n StateDeadLettered else DeadLettered_st s,
     CancelRequested_st := if StateCancelRequested \<in> set S then n StateCancelRequested else CancelRequested_st s,
     Cancelled_st := if StateCancelled \<in> set S then n StateCancelled else Cancelled_st s\<rparr>"
proof (induction S arbitrary: s)
  case (Cons st S)
  show ?case
    unfolding list.map fold_Cons comp_apply Cons.IH
    by (simp add: stats_group_def Let_def)
qed simp

lemma count_rows_absent: "st \<notin> set (map status T) \<Longrightarrow> count_rows (\<lambda>x. status x = st) T = 0"
  by (auto simp: count_rows_def filter_empty_conv)

lemma count_mset_map: "count (mset (map f xs)) y = length (filter (\<lambda>x. f x = y) xs)"
  by (induction xs) auto

lemma sum_groups:
  "sum_list (map (\<lambda>st. count_rows (\<lambda>x. status x = st) T) (remdups (map status T))) = int (length T)"
proof -
  have "length T = (\<Sum>st \<in> set (map status T). count (mset (map status T)) st)"
    using size_multiset_overloaded_eq [of "mset (map status T)"] by simp
  also have "\<dots> = (\<Sum>st \<in> set (map status T). length (filter (\<lambda>x. status x = st) T))"
    by (rule sum.cong) (simp_all add: count_mset_map del: mset_map)
  finally show ?thesis
    by (simp add: sum_list_distinct_conv_sum_set count_rows_def)
qed

text \<open>Reads outside a transaction, without failures.\<close>

lemma read_value:
  "calm E \<Longrightarrow> \<not> aborted t \<Longrightarrow> failing t = faults E k \<Longrightarrow>
   sql_value f t = (Inr (f (tab t)), t\<lparr>step_no := step_no t + 1\<rparr>)"
  by (simp add: sql_value_def stmt_def calm_def Let_def)

lemma GetStats_sql_calm:
  "calm E \<Longrightarrow> GetStats_sql E d =
    Inr ((fold stats_group (group_status (table d)) zero_Stats)\<lparr>
      ActiveChains_st := int (length (remdups (map chain_id (table d)))),
      Scheduled_st := count_rows (scheduled_row (db_now E)) (table d)\<rparr>)"
  by (simp add: GetStats_sql_def autocommit_def bindq_def begin_tx_def read_value [where k = 0]
      returnq_def Let_def)

lemma CountDLQ_sql_calm: "calm E \<Longrightarrow> CountDLQ_sql E d = Inr (count_rows dlq_row (table d))"
  by (simp add: CountDLQ_sql_def autocommit_def begin_tx_def read_value [where k = 0])

text \<open>C28: the statistics are the same. On a database and an in-memory repository that hold the same
  jobs, the grouped query of the SQL repositories and the loop over the in-memory jobs give the same
  record of counters, and the same size of the dead-letter queue.\<close>

theorem stats_sql_is_stats_mem:
  assumes r: "represents d r" and E: "calm E"
  shows "GetStats_sql E d = Inr (GetStats_mem (db_now E) r) \<and> CountDLQ_sql E d = Inr (CountDLQ_mem r)"
proof -
  have wf: "repo_wf r" using r by (simp add: represents_def)
  have st: "int (count_if (has_status s) (jobs r)) = count_rows (\<lambda>x. status x = s) (table d)" for s
    by (rule count_if_rows [OF r]) (simp add: has_status_def)
  have sch: "int (count_if (scheduled (db_now E)) (jobs r)) = count_rows (scheduled_row (db_now E)) (table d)"
    by (rule count_if_rows [OF r]) (simp add: scheduled_def scheduled_row_def)
  have dlq: "int (count_if in_dlq (jobs r)) = count_rows dlq_row (table d)"
    by (rule count_if_rows [OF r]) (simp add: in_dlq_def dlq_row_def)
  have total: "int (length (jobs r)) = int (length (table d))"
    using arg_cong [OF lookup_mset_jobs [OF r], where f = size] by simp
  have "{ChainID j | i j. jobAt r i = Some j} = ChainID ` set (map snd (jobs r))"
    using repo_wf_distinct [OF wf] by (force simp: map_of_eq_Some_iff)
  also have "\<dots> = ChainID ` set (map row_job (table d))"
    using arg_cong [OF lookup_mset_jobs [OF r], where f = set_mset] by (simp only: set_mset_mset)
  also have "\<dots> = chain_id ` set (table d)" by (auto simp: image_image)
  finally have "set (keys (chain r)) = set (map chain_id (table d))"
    using chains_of_jobs [OF wf] by (simp only: list.set_map)
  moreover have "distinct (keys (chain r))" using wf by (simp add: repo_wf_def)
  ultimately have chains: "int (length (chain r)) = int (length (remdups (map chain_id (table d))))"
    using distinct_card [of "keys (chain r)"] by (simp add: length_remdups_card_conv)
  note g = GetStats_counts [of "db_now E" r, unfolded st sch total chains]
  note a = count_rows_absent [of _ "table d"]
  have "(fold stats_group (group_status (table d)) zero_Stats)\<lparr>
      ActiveChains_st := int (length (remdups (map chain_id (table d)))),
      Scheduled_st := count_rows (scheduled_row (db_now E)) (table d)\<rparr> = GetStats_mem (db_now E) r"
    unfolding group_status_def stats_groups sum_groups
    by (rule Stats.equality) (simp_all add: g zero_Stats_def a)
  then show ?thesis by (simp add: GetStats_sql_calm [OF E] CountDLQ_sql_calm [OF E] CountDLQ_count dlq)
qed

theorem stats_sql_is_stats_mem_witness:
  "GetStats_sql (quiet 50) pg_running = Inr (GetStats_mem 50 mem_running)"
  using stats_sql_is_stats_mem [OF represents_running quiet_calm(1)] by (metis quiet_calm(2))

end
