(* ===== verification/Sqlserver.thy ===== *)
theory Sqlserver
  imports Postgres_Query
begin

text \<open>
  The SQL Server repository (src/repository/sqlserver/repository.go): the repository value, enqueues
  and the operations on stored jobs. The table is the one of theory Sql. Two differences of the
  database matter here: a failed statement does not abort its transaction (\<open>withTx False\<close>), so an
  error the code drops leaves the rest of the transaction in force; and there are no
  notifications. \<open>db_now\<close> is \<open>GETUTCDATE()\<close>, \<open>READPAST\<close> passes over the rows in \<open>locked\<close>. Text is
  compared byte by byte (a binary collation); rows a statement does not order come in the order
  of the table. \<open>NOLOCK\<close> reads of uncommitted rows are not modelled: transactions are whole.
\<close>

section \<open>The repository value\<close>

record MsRepository =
  allowGap_ms :: bool

definition WithAllowGap_ms :: "bool \<Rightarrow> MsRepository \<Rightarrow> MsRepository" where
  "WithAllowGap_ms allow c = c\<lparr>allowGap_ms := allow\<rparr>"

definition New_ms :: "(MsRepository \<Rightarrow> MsRepository) list \<Rightarrow> MsRepository" where
  "New_ms opts = fold (\<lambda>opt c. opt c) opts \<lparr>allowGap_ms = False\<rparr>"

definition NotifyChannel_ms :: "MsRepository \<Rightarrow> string" where
  "NotifyChannel_ms c = []"

text \<open>\<open>nullable\<close>, \<open>scanJob\<close> and \<open>withTx\<close> of this package.\<close>

definition nullable_ms :: "string \<Rightarrow> string option" where
  "nullable_ms s = (if s = [] then None else Some s)"

definition scanJob_ms :: "row option \<Rightarrow> gerror + job" where
  "scanJob_ms r =
    (case r of
       None \<Rightarrow> Inl ErrNotFound
     | Some x \<Rightarrow> Inr
         \<lparr>ID = rid x, ChainID = chain_id x, Sequence = sequence x, Type = job_type x,
          Payload = payload x,
          IdempotencyKey = (case idempotency_key x of Some s \<Rightarrow> s | None \<Rightarrow> []),
          TenantID = (case tenant_id x of Some s \<Rightarrow> s | None \<Rightarrow> []),
          OrderingMode = ordering_mode x, Status = status x, Attempt = attempt x,
          MaxAttempts = max_attempts x, AvailableAt = available_at x, DeadlineAt = deadline_at x,
          WorkerID = (case worker_id x of Some s \<Rightarrow> s | None \<Rightarrow> []), LeaseUntil = lease_until x,
          LeaseGeneration = lease_generation x,
          LastError = (case last_error x of Some s \<Rightarrow> s | None \<Rightarrow> []),
          CreatedAt = created_at x, UpdatedAt = updated_at x, StartedAt = started_at x,
          CompletedAt = completed_at x, FailedAt = failed_at x,
          TraceID = (case trace_id x of Some s \<Rightarrow> s | None \<Rightarrow> [])\<rparr>)"

lemma scanJob_ms_simps [simp]: "scanJob_ms None = Inl ErrNotFound" "scanJob_ms (Some x) = Inr (row_job x)"
  by (simp_all add: scanJob_ms_def row_job_def coalesce_def)

definition withTx_ms :: "env \<Rightarrow> 'a query \<Rightarrow> sqldb \<Rightarrow> (gerror + 'a) \<times> sqldb" where
  "withTx_ms = withTx False"

definition fromq :: "gerror + 'a \<Rightarrow> 'a query" where
  "fromq r = (case r of Inl e \<Rightarrow> failq e | Inr x \<Rightarrow> returnq x)"

lemma fromq_simps [simp]: "fromq (Inl e) = failq e" "fromq (Inr x) = returnq x"
  by (simp_all add: fromq_def)

section \<open>Enqueue\<close>

definition lockAppChain :: "string \<Rightarrow> unit query" where
  "lockAppChain c = stmt (\<lambda>T. (Inr (), T))"

definition findExistingByIdempotencyKey_ms :: "string \<Rightarrow> job option query" where
  "findExistingByIdempotencyKey_ms key =
    (if key = [] then returnq None
     else bindq (sql_select (\<lambda>x. idempotency_key x = Some key)) (\<lambda>xs.
       case scanJob_ms (first_row xs) of
         Inr job \<Rightarrow> returnq (Some job)
       | Inl e \<Rightarrow> if e = ErrNotFound then returnq None else failq e))"

definition distinctChains_ms :: "EnqueueRequest list \<Rightarrow> string list" where
  "distinctChains_ms reqs = sort (remdups (filter (\<lambda>c. c \<noteq> []) (map ChainID_req reqs)))"

text \<open>The two look-ups whose errors are dropped: no answer counts as "no predecessor" and "no rows".\<close>

definition resolveSequence_ms :: "MsRepository \<Rightarrow> EnqueueRequest \<Rightarrow> int query" where
  "resolveSequence_ms c req =
    (let seq = Sequence_req req; ch = ChainID_req req in
     if seq = 0 then bindq (sql_max_sequence ch) (\<lambda>mx. returnq (next_seq mx))
     else bindq (sql_exists (at_seq ch seq)) (\<lambda>exists.
       if exists then failq ErrDuplicateChainSeq
       else if seq > 1 \<and> \<not> allowGap_ms c then
         bindq (observe (sql_exists (at_seq ch (seq - 1)))) (\<lambda>pr.
           if pr \<noteq> Inr True then
             bindq (observe (sql_max_sequence ch)) (\<lambda>mr.
               (case (case mr of Inl _ \<Rightarrow> None | Inr mx \<Rightarrow> mx) of
                  Some m \<Rightarrow>
                    if seq > wrap64 (m + 1)
                    then failq (Errorf1 [] ErrSequenceGap
                      ('': chain '' @ ch @ '' missing seq '' @ format_int (seq - 1)))
                    else returnq seq
                | None \<Rightarrow>
                    if seq \<noteq> 1
                    then failq (Errorf1 [] ErrSequenceGap '': first sequence must be 1'')
                    else returnq seq))
           else returnq seq)
       else returnq seq))"

definition resolveInitialStatus_ms :: "string \<Rightarrow> int \<Rightarrow> job list \<Rightarrow> string query" where
  "resolveInitialStatus_ms ch seq previousInBatch =
    (if seq \<le> 1 then returnq StatePending
     else bindq (sql_select (at_seq ch (seq - 1))) (\<lambda>xs.
       returnq
         (case (case first_row xs of
                  Some p \<Rightarrow> Some (status p, ordering_mode p)
                | None \<Rightarrow>
                    map_option (\<lambda>j. (Status j, OrderingMode j))
                      (List.find (\<lambda>j. ChainID j = ch \<and> Sequence j = seq - 1) previousInBatch)) of
            None \<Rightarrow> StateBlocked
          | Some (st, mode) \<Rightarrow> if \<not> pred_finished st mode then StateBlocked else StatePending)))"

text \<open>The payload is text here; the database does not look at it.\<close>

definition insert_ms ::
  "env \<Rightarrow> time \<Rightarrow> uuid \<Rightarrow> EnqueueRequest \<Rightarrow> int \<Rightarrow> string \<Rightarrow> row query" where
  "insert_ms E gonow jid req seq st =
    (case marshal_payload (Payload_req req) of
       Inl e \<Rightarrow> failq e
     | Inr bytes \<Rightarrow>
         sql_insert
           \<lparr>rid = jid, chain_id = ChainID_req req, sequence = seq, job_type = Type_req req,
            payload = bytes, status = st, attempt = 0,
            max_attempts = (if MaxAttempts_req req = 0 then 5 else MaxAttempts_req req),
            available_at = (case AvailableAt_req req of None \<Rightarrow> gonow | Some t \<Rightarrow> t),
            deadline_at = DeadlineAt_req req, worker_id = None, lease_until = None,
            lease_generation = 0, started_at = None, completed_at = None, failed_at = None,
            idempotency_key = nullable_ms (IdempotencyKey_req req), last_error = None,
            tenant_id = nullable_ms (TenantID_req req), trace_id = nullable_ms (TraceID_req req),
            ordering_mode = (if OrderingMode_req req = [] then OrderingModeStrict
                             else OrderingMode_req req),
            created_at = db_now E, updated_at = db_now E\<rparr>)"

definition enqueueSingleInTx_ms ::
  "MsRepository \<Rightarrow> env \<Rightarrow> time \<Rightarrow> uuid \<Rightarrow> EnqueueRequest \<Rightarrow> job list \<Rightarrow> job query" where
  "enqueueSingleInTx_ms c E gonow jid req previousInBatch =
    bindq (findExistingByIdempotencyKey_ms (IdempotencyKey_req req)) (\<lambda>found.
      case found of
        Some existing \<Rightarrow> returnq existing
      | None \<Rightarrow>
          (case (if IdempotencyKey_req req \<noteq> []
                 then List.find (\<lambda>o'. IdempotencyKey o' = IdempotencyKey_req req) previousInBatch
                 else None) of
             Some existing \<Rightarrow> returnq existing
           | None \<Rightarrow>
               bindq (resolveSequence_ms c req) (\<lambda>seq.
                 bindq (resolveInitialStatus_ms (ChainID_req req) seq previousInBatch) (\<lambda>st.
                   bindq (insert_ms E gonow jid req seq st) (\<lambda>x. returnq (row_job x))))))"

definition Enqueue_ms ::
  "MsRepository \<Rightarrow> env \<Rightarrow> uuid \<Rightarrow> EnqueueRequest \<Rightarrow> sqldb \<Rightarrow> (gerror + job) \<times> sqldb" where
  "Enqueue_ms c E jid req d =
    (if ChainID_req req = [] then (Inl (Message ''chain_id required''), d)
     else if Type_req req = [] then (Inl (Message ''job type required''), d)
     else withTx_ms E
       (bindq (lockAppChain (ChainID_req req)) (\<lambda>_.
         bindq (findExistingByIdempotencyKey_ms (IdempotencyKey_req req)) (\<lambda>found.
           case found of
             Some existing \<Rightarrow> returnq existing
           | None \<Rightarrow> enqueueSingleInTx_ms c E (go_now E) jid req []))) d)"

fun validate_batch_ms :: "int \<Rightarrow> EnqueueRequest list \<Rightarrow> gerror option" where
  "validate_batch_ms i [] = None"
| "validate_batch_ms i (req # reqs) =
    (if ChainID_req req = []
     then Some (Message (''request '' @ format_int i @ '': chain_id required''))
     else if Type_req req = []
     then Some (Message (''request '' @ format_int i @ '': job type required''))
     else validate_batch_ms (i + 1) reqs)"

fun lock_chains_ms :: "string list \<Rightarrow> unit query" where
  "lock_chains_ms [] = returnq ()"
| "lock_chains_ms (c # cs) = bindq (lockAppChain c) (\<lambda>_. lock_chains_ms cs)"

fun enqueue_all_ms ::
  "MsRepository \<Rightarrow> env \<Rightarrow> ((time \<times> uuid) \<times> EnqueueRequest) list \<Rightarrow> job list \<Rightarrow> job list query" where
  "enqueue_all_ms c E [] out = returnq out"
| "enqueue_all_ms c E (((now, jid), req) # reqs) out =
    bindq (enqueueSingleInTx_ms c E now jid req out) (\<lambda>j. enqueue_all_ms c E reqs (out @ [j]))"

definition EnqueueBatch_ms ::
  "MsRepository \<Rightarrow> env \<Rightarrow> ((time \<times> uuid) \<times> EnqueueRequest) list \<Rightarrow> sqldb \<Rightarrow>
   (gerror + job list) \<times> sqldb" where
  "EnqueueBatch_ms c E reqs d =
    (case validate_batch_ms 0 (map snd reqs) of
       Some e \<Rightarrow> (Inl e, d)
     | None \<Rightarrow> withTx_ms E
         (bindq (lock_chains_ms (distinctChains_ms (map snd reqs))) (\<lambda>_.
           enqueue_all_ms c E reqs [])) d)"

section \<open>Get\<close>

definition Get_ms :: "env \<Rightarrow> uuid \<Rightarrow> sqldb \<Rightarrow> gerror + job" where
  "Get_ms E jid d =
    fst (autocommit E 0 (bindq (sql_select (\<lambda>x. rid x = jid)) (\<lambda>xs.
      fromq (scanJob_ms (first_row xs)))) d)"

definition GetByChainSeq_ms :: "env \<Rightarrow> string \<Rightarrow> int \<Rightarrow> sqldb \<Rightarrow> gerror + job" where
  "GetByChainSeq_ms E ch seq d =
    fst (autocommit E 0 (bindq (sql_select (at_seq ch seq)) (\<lambda>xs.
      fromq (scanJob_ms (first_row xs)))) d)"

end
