(* ===== verification/Sqlserver_Ops.thy ===== *)
theory Sqlserver_Ops
  imports Sqlserver
begin

text \<open>
  The SQL Server repository on stored jobs (src/repository/sqlserver/repository.go, \<open>Claim\<close> to
  \<open>ListPendingChains\<close>, then the reports and dead-letter operations). Most operations are one
  conditional update outside a transaction.
\<close>

section \<open>Updates\<close>

text \<open>\<open>ExecContext\<close> with \<open>RowsAffected\<close>: the error \<open>e\<close> when no row was hit.\<close>

definition ms_update :: "(row \<Rightarrow> bool) \<Rightarrow> (row \<Rightarrow> row) \<Rightarrow> row list query" where
  "ms_update p f = sql_update (\<lambda>_. p) f"

definition affecting :: "gerror \<Rightarrow> (row \<Rightarrow> bool) \<Rightarrow> (row \<Rightarrow> row) \<Rightarrow> unit query" where
  "affecting e p f =
    bindq (ms_update p f) (\<lambda>xs. if length xs = 0 then failq e else returnq ())"

definition held_ms :: "uuid \<Rightarrow> string \<Rightarrow> int \<Rightarrow> row \<Rightarrow> bool" where
  "held_ms jid workerID leaseGen x \<longleftrightarrow>
     rid x = jid \<and> worker_id x = Some workerID \<and> lease_generation x = leaseGen \<and>
     status x = StateProcessing"

section \<open>Claim\<close>

definition lease_seconds_ms :: "duration \<Rightarrow> int" where
  "lease_seconds_ms lease =
    (let leaseSec = quot lease Second in if leaseSec \<le> 0 then 60 else leaseSec)"

definition claimable_ms :: "time \<Rightarrow> row list \<Rightarrow> row \<Rightarrow> bool" where
  "claimable_ms now T x \<longleftrightarrow>
     (status x = StatePending \<or> status x = StateRetrying) \<and> available_at x \<le> now \<and>
     (sequence x = 1 \<or>
      list_ex (\<lambda>p. chain_id p = chain_id x \<and> sequence p = sequence x - 1 \<and>
        (status p = StateCompleted \<or>
         (status p = StateFailed \<or> status p = StateDeadLettered) \<and>
         (ordering_mode p = OrderingModeSkipOnFailure \<or>
          ordering_mode p = OrderingModeDeadLetterAndContinue))) T)"

definition target_ms :: "env \<Rightarrow> row list \<Rightarrow> row option" where
  "target_ms E T =
    first_row (filter (\<lambda>x. \<not> locked E (rid x))
      (sort_slice (comes_first E) (filter (claimable_ms (db_now E) T) T)))"

definition claimed_row_ms :: "time \<Rightarrow> string \<Rightarrow> int \<Rightarrow> row \<Rightarrow> row" where
  "claimed_row_ms now workerID leaseSec x =
    x\<lparr>status := StateProcessing, worker_id := Some workerID,
      lease_until := Some (now + leaseSec * Second), lease_generation := lease_generation x + 1,
      attempt := attempt x + 1,
      started_at := Some (case started_at x of None \<Rightarrow> now | Some t \<Rightarrow> t), updated_at := now\<rparr>"

definition is_target :: "env \<Rightarrow> row list \<Rightarrow> row \<Rightarrow> bool" where
  "is_target E T x \<longleftrightarrow> (case target_ms E T of None \<Rightarrow> False | Some y \<Rightarrow> rid y = rid x)"

definition target_overflows :: "env \<Rightarrow> row list \<Rightarrow> bool" where
  "target_overflows E T \<longleftrightarrow>
     list_ex (\<lambda>x. underflows (db_now E) x \<and>
       (case target_ms E T of
          None \<Rightarrow> True
        | Some y \<Rightarrow> full_scan E \<or> \<not> comes_first E y x)) T"

definition Claim_ms :: "env \<Rightarrow> string \<Rightarrow> duration \<Rightarrow> sqldb \<Rightarrow> (gerror + job) \<times> sqldb" where
  "Claim_ms E workerID lease d =
    autocommit E 0
      (bindq (claim_stmt ''Arithmetic overflow error converting expression to data type bigint.''
          (target_overflows E) (is_target E)
          (claimed_row_ms (db_now E) workerID (lease_seconds_ms lease)))
        (\<lambda>xs. fromq (scanJob_ms (first_row xs)))) d"

section \<open>The holder of a lease\<close>

definition promote_ms :: "env \<Rightarrow> string \<Rightarrow> int \<Rightarrow> row list query" where
  "promote_ms E ch seq =
    ms_update (\<lambda>x. at_seq ch seq x \<and> status x = StateBlocked)
      (\<lambda>x. x\<lparr>status := StatePending, updated_at := db_now E\<rparr>)"

definition chain_seq_ms :: "uuid \<Rightarrow> (string \<times> int) query" where
  "chain_seq_ms jid =
    bindq (sql_select (\<lambda>x. rid x = jid)) (\<lambda>xs.
      case first_row xs of
        None \<Rightarrow> failq (Message ''sql: no rows in result set'')
      | Some x \<Rightarrow> returnq (chain_id x, sequence x))"

definition completed_row_ms :: "time \<Rightarrow> row \<Rightarrow> row" where
  "completed_row_ms now x = x\<lparr>status := StateCompleted, completed_at := Some now, updated_at := now\<rparr>"

definition Complete_ms ::
  "env \<Rightarrow> uuid \<Rightarrow> string \<Rightarrow> int \<Rightarrow> sqldb \<Rightarrow> (gerror + unit) \<times> sqldb" where
  "Complete_ms E jid workerID leaseGen d =
    withTx_ms E
      (bindq (affecting ErrLeaseConflict (held_ms jid workerID leaseGen) (completed_row_ms (db_now E))) (\<lambda>_.
        bindq (chain_seq_ms jid) (\<lambda>(ch, seq).
          bindq (promote_ms E ch (seq + 1)) (\<lambda>_. returnq ())))) d"

text \<open>\<open>Fail\<close> reads the mode outside any transaction; an error of that read is dropped.\<close>

definition fail_status_ms :: "uuid \<Rightarrow> bool \<Rightarrow> string query" where
  "fail_status_ms jid terminal =
    (if terminal then
       bindq (observe (sql_select (\<lambda>x. rid x = jid))) (\<lambda>res.
         returnq (case res of
             Inl _ \<Rightarrow> StateFailed
           | Inr xs \<Rightarrow> (case first_row xs of
                None \<Rightarrow> StateFailed
              | Some x \<Rightarrow>
                  if ordering_mode x = OrderingModeDeadLetterAndContinue then StateDeadLettered
                  else StateFailed)))
     else returnq StateFailed)"

definition Fail_ms ::
  "env \<Rightarrow> uuid \<Rightarrow> string \<Rightarrow> int \<Rightarrow> string \<Rightarrow> bool \<Rightarrow> sqldb \<Rightarrow> (gerror + unit) \<times> sqldb" where
  "Fail_ms E jid workerID leaseGen errMsg terminal d =
    autocommit E 0
      (bindq (fail_status_ms jid terminal) (\<lambda>st.
        affecting ErrLeaseConflict (held_ms jid workerID leaseGen)
          (\<lambda>x. x\<lparr>status := st, failed_at := Some (db_now E), last_error := Some errMsg,
            updated_at := db_now E\<rparr>))) d"

definition Retry_ms ::
  "env \<Rightarrow> uuid \<Rightarrow> string \<Rightarrow> int \<Rightarrow> string \<Rightarrow> time \<Rightarrow> sqldb \<Rightarrow> (gerror + unit) \<times> sqldb" where
  "Retry_ms E jid workerID leaseGen errMsg nextAvailable d =
    autocommit E 0
      (affecting ErrLeaseConflict (held_ms jid workerID leaseGen)
        (\<lambda>x. x\<lparr>status := StateRetrying, available_at := nextAvailable, last_error := Some errMsg,
          updated_at := db_now E\<rparr>)) d"

definition Heartbeat_ms ::
  "env \<Rightarrow> uuid \<Rightarrow> string \<Rightarrow> int \<Rightarrow> duration \<Rightarrow> sqldb \<Rightarrow> (gerror + unit) \<times> sqldb" where
  "Heartbeat_ms E jid workerID leaseGen lease d =
    autocommit E 0
      (affecting ErrLeaseConflict (held_ms jid workerID leaseGen)
        (\<lambda>x. x\<lparr>lease_until := Some (db_now E + lease_seconds_ms lease * Second),
          updated_at := db_now E\<rparr>)) d"

definition RequestCancel_ms :: "env \<Rightarrow> uuid \<Rightarrow> sqldb \<Rightarrow> (gerror + unit) \<times> sqldb" where
  "RequestCancel_ms E jid d =
    autocommit E 0
      (affecting ErrNotFound
        (\<lambda>x. rid x = jid \<and> (status x = StatePending \<or> status x = StateBlocked \<or>
           status x = StateProcessing \<or> status x = StateRetrying))
        (\<lambda>x. x\<lparr>status := StateCancelRequested, updated_at := db_now E\<rparr>)) d"

definition ConfirmCancel_ms ::
  "env \<Rightarrow> uuid \<Rightarrow> string \<Rightarrow> int \<Rightarrow> sqldb \<Rightarrow> (gerror + unit) \<times> sqldb" where
  "ConfirmCancel_ms E jid workerID leaseGen d =
    autocommit E 0
      (affecting ErrLeaseConflict
        (\<lambda>x. rid x = jid \<and> worker_id x = Some workerID \<and> lease_generation x = leaseGen \<and>
           status x = StateCancelRequested)
        (\<lambda>x. x\<lparr>status := StateCancelled, updated_at := db_now E\<rparr>)) d"

section \<open>Recovery\<close>

definition stale_row_ms :: "time \<Rightarrow> row \<Rightarrow> bool" where
  "stale_row_ms now x \<longleftrightarrow>
     status x = StateProcessing \<and> (case lease_until x of None \<Rightarrow> False | Some t \<Rightarrow> t < now)"

definition stale_limit_ms :: "int \<Rightarrow> int" where
  "stale_limit_ms limit = (if limit \<le> 0 then 100 else limit)"

definition recovered_row_ms :: "time \<Rightarrow> string \<Rightarrow> time \<Rightarrow> row \<Rightarrow> row" where
  "recovered_row_ms now st at x =
    x\<lparr>status := st, available_at := at, worker_id := None, lease_until := None,
      lease_generation := lease_generation x + 1, updated_at := now\<rparr>"

definition recovery_ms :: "time \<Rightarrow> (int \<Rightarrow> duration) option \<Rightarrow> row \<Rightarrow> string \<times> time" where
  "recovery_ms gonow retryPolicy it =
    (case retryPolicy of
       Some f \<Rightarrow>
         if attempt it < max_attempts it then (StateRetrying, gonow + f (attempt it))
         else (StatePending, gonow)
     | None \<Rightarrow> (StatePending, gonow))"

text \<open>An item whose update fails is passed over. One clock reading stands for those of all items.\<close>

fun recover_items_ms ::
  "env \<Rightarrow> (int \<Rightarrow> duration) option \<Rightarrow> row list \<Rightarrow> int \<Rightarrow> int query" where
  "recover_items_ms E retryPolicy [] n = returnq n"
| "recover_items_ms E retryPolicy (it # its) n =
    (case recovery_ms (go_now E) retryPolicy it of (st, at) \<Rightarrow>
      bindq (observe (ms_update (\<lambda>x. rid x = rid it \<and> stale_row_ms (db_now E) x)
          (recovered_row_ms (db_now E) st at))) (\<lambda>res.
        recover_items_ms E retryPolicy its
          (case res of Inl _ \<Rightarrow> n | Inr xs \<Rightarrow> if length xs > 0 then n + 1 else n)))"

definition RecoverStale_ms ::
  "env \<Rightarrow> int \<Rightarrow> (int \<Rightarrow> duration) option \<Rightarrow> sqldb \<Rightarrow> (gerror + int) \<times> sqldb" where
  "RecoverStale_ms E limit retryPolicy d =
    autocommit E 0
      (bindq (stmt (\<lambda>T. (Inr (take (nat (stale_limit_ms limit))
          (filter (\<lambda>x. stale_row_ms (db_now E) x \<and> \<not> locked E (rid x)) T)), T)))
        (\<lambda>items. recover_items_ms E retryPolicy items 0)) d"

section \<open>Replay, skip, reschedule, promote\<close>

definition replayable_ms :: "row \<Rightarrow> bool" where
  "replayable_ms x \<longleftrightarrow>
     status x = StateFailed \<or> status x = StateDeadLettered \<or> status x = StateCancelled"

definition replayed_row_ms :: "time \<Rightarrow> row \<Rightarrow> row" where
  "replayed_row_ms now x =
    x\<lparr>status := StatePending, attempt := 0, available_at := now, updated_at := now\<rparr>"

definition ReplayJob_ms :: "env \<Rightarrow> uuid \<Rightarrow> sqldb \<Rightarrow> (gerror + unit) \<times> sqldb" where
  "ReplayJob_ms E jid d =
    autocommit E 0
      (affecting ErrNotFound (\<lambda>x. rid x = jid \<and> replayable_ms x) (replayed_row_ms (db_now E))) d"

definition ReplayJobWithPayload_ms :: "env \<Rightarrow> uuid \<Rightarrow> string \<Rightarrow> sqldb \<Rightarrow> (gerror + unit) \<times> sqldb" where
  "ReplayJobWithPayload_ms E jid newPayload d =
    autocommit E 0
      (if length newPayload > 0
       then affecting ErrNotFound (\<lambda>x. rid x = jid \<and> replayable_ms x)
         (\<lambda>x. replayed_row_ms (db_now E) (x\<lparr>payload := newPayload\<rparr>))
       else affecting ErrNotFound (\<lambda>x. rid x = jid \<and> replayable_ms x)
         (replayed_row_ms (db_now E))) d"

definition skippable_ms :: "row \<Rightarrow> bool" where
  "skippable_ms x \<longleftrightarrow>
     status x = StateFailed \<or> status x = StateDeadLettered \<or> status x = StateCancelled \<or>
     status x = StateBlocked"

definition SkipJob_ms :: "env \<Rightarrow> uuid \<Rightarrow> sqldb \<Rightarrow> (gerror + unit) \<times> sqldb" where
  "SkipJob_ms E jid d =
    withTx_ms E
      (bindq (affecting ErrNotFound (\<lambda>x. rid x = jid \<and> skippable_ms x)
          (\<lambda>x. x\<lparr>status := StateCompleted, updated_at := db_now E\<rparr>)) (\<lambda>_.
        bindq (chain_seq_ms jid) (\<lambda>(ch, seq).
          bindq (promote_ms E ch (seq + 1)) (\<lambda>_. returnq ())))) d"

definition RescheduleJob_ms :: "env \<Rightarrow> uuid \<Rightarrow> time \<Rightarrow> sqldb \<Rightarrow> (gerror + job) \<times> sqldb" where
  "RescheduleJob_ms E jid availableAt d =
    withTx_ms E
      (bindq (ms_update (\<lambda>x. rid x = jid \<and> (status x = StatePending \<or> status x = StateRetrying))
          (\<lambda>x. x\<lparr>available_at := availableAt, updated_at := db_now E\<rparr>)) (\<lambda>xs.
        case scanJob_ms (first_row xs) of
          Inr job \<Rightarrow> returnq job
        | Inl e \<Rightarrow>
            if e = ErrNotFound then
              bindq (observe (sql_select (\<lambda>x. rid x = jid))) (\<lambda>res.
                case res of
                  Inr ys \<Rightarrow> if length ys > 0 then failq ErrJobNotEligible else failq ErrNotFound
                | Inl _ \<Rightarrow> failq ErrNotFound)
            else failq e)) d"

definition PromoteNext_ms :: "env \<Rightarrow> string \<Rightarrow> int \<Rightarrow> sqldb \<Rightarrow> (gerror + unit) \<times> sqldb" where
  "PromoteNext_ms E ch completedSeq d =
    autocommit E 0 (bindq (promote_ms E ch (completedSeq + 1)) (\<lambda>_. returnq ())) d"

definition ListPendingChains_ms :: "env \<Rightarrow> sqldb \<Rightarrow> gerror + string list" where
  "ListPendingChains_ms E d =
    fst (autocommit E 0
      (bindq (sql_select (\<lambda>x. status x = StatePending \<or> status x = StateRetrying)) (\<lambda>xs.
        returnq (remdups (map chain_id xs)))) d)"

end
