(* ===== verification/Sqlserver_Query.thy ===== *)
theory Sqlserver_Query
  imports Sqlserver_Ops
begin

text \<open>
  Reports and dead-letter operations of the SQL Server repository
  (src/repository/sqlserver/repository.go, \<open>GetStats\<close> to \<open>CountDLQ\<close>). \<open>LIKE\<close> is a parameter: what
  it matches depends on the collation of the database. The statistics and the grouping of chains
  run the statements of the PostgreSQL repository and share their definitions.
\<close>

definition GetStats_ms :: "env \<Rightarrow> sqldb \<Rightarrow> gerror + Stats" where
  "GetStats_ms = GetStats_sql"

definition col_like :: "(string \<Rightarrow> string \<Rightarrow> bool) \<Rightarrow> string option \<Rightarrow> string \<Rightarrow> bool" where
  "col_like like v pat = (case v of None \<Rightarrow> False | Some s \<Rightarrow> like s pat)"

definition where_jobs_ms ::
  "(string \<Rightarrow> string \<Rightarrow> bool) \<Rightarrow> (uuid \<Rightarrow> string) \<Rightarrow> time \<Rightarrow> JobFilter \<Rightarrow> row \<Rightarrow> bool" where
  "where_jobs_ms like uuidString now flt x \<longleftrightarrow>
     (ScheduledOnly_flt flt \<longrightarrow>
        (status x = StatePending \<or> status x = StateRetrying) \<and> available_at x > now) \<and>
     (ChainID_flt flt \<noteq> [] \<longrightarrow> chain_id x = ChainID_flt flt) \<and>
     (Status_flt flt \<noteq> [] \<longrightarrow> status x = Status_flt flt) \<and>
     (JobType_flt flt \<noteq> [] \<longrightarrow> job_type x = JobType_flt flt) \<and>
     (TenantID_flt flt \<noteq> [] \<longrightarrow> is_col (tenant_id x) (TenantID_flt flt)) \<and>
     (TraceID_flt flt \<noteq> [] \<longrightarrow> is_col (trace_id x) (TraceID_flt flt)) \<and>
     (Search_flt flt \<noteq> [] \<longrightarrow>
        (let pat = ''%'' @ Search_flt flt @ ''%''
         in like (uuidString (rid x)) pat \<or> col_like like (idempotency_key x) pat \<or>
            col_like like (trace_id x) pat))"

definition ListJobs_ms ::
  "(string \<Rightarrow> string \<Rightarrow> bool) \<Rightarrow> (uuid \<Rightarrow> string) \<Rightarrow> env \<Rightarrow> JobFilter \<Rightarrow> sqldb \<Rightarrow>
   gerror + job list \<times> int" where
  "ListJobs_ms like uuidString E flt d =
    (let p = where_jobs_ms like uuidString (db_now E) flt;
         asc = EqualFold (OrderDir_flt flt) ''asc''
     in fst (autocommit E 0
       (bindq (sql_value (count_rows p)) (\<lambda>total.
         bindq (sql_value (\<lambda>T. sql_page (Offset_flt flt) (Limit_flt flt)
             (sort_slice (sql_dir asc (row_less (OrderBy_flt flt))) (filter p T)))) (\<lambda>xs.
           returnq (map row_job xs, total)))) d))"

definition ListChains_ms ::
  "(string \<Rightarrow> string \<Rightarrow> bool) \<Rightarrow> env \<Rightarrow> ChainFilter \<Rightarrow> sqldb \<Rightarrow> gerror + ChainSummary list \<times> int" where
  "ListChains_ms like = ListChains_sql like"

section \<open>The dead-letter queue\<close>

definition buildDLQWhere_ms ::
  "(string \<Rightarrow> string \<Rightarrow> bool) \<Rightarrow> (uuid \<Rightarrow> string) \<Rightarrow> JobFilter \<Rightarrow> row \<Rightarrow> bool" where
  "buildDLQWhere_ms like uuidString flt x \<longleftrightarrow>
     (status x = StateFailed \<or> status x = StateDeadLettered) \<and>
     (ChainID_flt flt \<noteq> [] \<longrightarrow> chain_id x = ChainID_flt flt) \<and>
     (JobType_flt flt \<noteq> [] \<longrightarrow> job_type x = JobType_flt flt) \<and>
     (TenantID_flt flt \<noteq> [] \<longrightarrow> is_col (tenant_id x) (TenantID_flt flt)) \<and>
     (TraceID_flt flt \<noteq> [] \<longrightarrow> is_col (trace_id x) (TraceID_flt flt)) \<and>
     (Search_flt flt \<noteq> [] \<longrightarrow>
        (let pat = ''%'' @ Search_flt flt @ ''%''
         in like (uuidString (rid x)) pat \<or> col_like like (idempotency_key x) pat \<or>
            col_like like (trace_id x) pat \<or> col_like like (last_error x) pat))"

definition BulkReplayDLQ_ms ::
  "(string \<Rightarrow> string \<Rightarrow> bool) \<Rightarrow> (uuid \<Rightarrow> string) \<Rightarrow> env \<Rightarrow> JobFilter \<Rightarrow> sqldb \<Rightarrow> (gerror + int) \<times> sqldb" where
  "BulkReplayDLQ_ms like uuidString E flt d =
    autocommit E 0
      (bindq (ms_update (buildDLQWhere_ms like uuidString flt)
          (\<lambda>x. x\<lparr>status := StatePending, attempt := 0, last_error := Some [],
             available_at := db_now E, updated_at := db_now E, lease_until := None\<rparr>))
        (\<lambda>xs. returnq (int (length xs)))) d"

text \<open>The errors of the single promotions are dropped, and the transaction goes on.\<close>

fun promote_items_ms :: "env \<Rightarrow> row list \<Rightarrow> unit query" where
  "promote_items_ms E [] = returnq ()"
| "promote_items_ms E (it # its) =
    bindq (observe (promote_ms E (chain_id it) (sequence it + 1))) (\<lambda>_. promote_items_ms E its)"

definition skipped_row_ms :: "time \<Rightarrow> row \<Rightarrow> row" where
  "skipped_row_ms now x =
    x\<lparr>status := StateCompleted, completed_at := Some now, updated_at := now, lease_until := None\<rparr>"

text \<open>Without matching rows the transaction is rolled back instead of committed.\<close>

definition bulk_skip_body_ms ::
  "(string \<Rightarrow> string \<Rightarrow> bool) \<Rightarrow> (uuid \<Rightarrow> string) \<Rightarrow> env \<Rightarrow> JobFilter \<Rightarrow> int option query" where
  "bulk_skip_body_ms like uuidString E flt =
    bindq (sql_select (buildDLQWhere_ms like uuidString flt)) (\<lambda>items.
      if length items = 0 then returnq None
      else
        bindq (ms_update (buildDLQWhere_ms like uuidString flt) (skipped_row_ms (db_now E))) (\<lambda>xs.
          bindq (promote_items_ms E items) (\<lambda>_. returnq (Some (int (length xs))))))"

definition BulkSkipDLQ_ms ::
  "(string \<Rightarrow> string \<Rightarrow> bool) \<Rightarrow> (uuid \<Rightarrow> string) \<Rightarrow> env \<Rightarrow> JobFilter \<Rightarrow> sqldb \<Rightarrow> (gerror + int) \<times> sqldb" where
  "BulkSkipDLQ_ms like uuidString E flt d =
    (case faults E 0 0 of
       Some e \<Rightarrow> (Inl e, d)
     | None \<Rightarrow>
         (case bulk_skip_body_ms like uuidString E flt (begin_tx False E 0 1 d) of
            (Inl e, _) \<Rightarrow> (Inl e, d)
          | (Inr None, _) \<Rightarrow> (Inr 0, d)
          | (Inr (Some affected), t) \<Rightarrow>
              (case failing t (step_no t) of
                 Some e \<Rightarrow> (Inl e, d)
               | None \<Rightarrow> (Inr affected, d\<lparr>table := tab t\<rparr>))))"

definition BulkPurgeDLQ_ms ::
  "(string \<Rightarrow> string \<Rightarrow> bool) \<Rightarrow> (uuid \<Rightarrow> string) \<Rightarrow> env \<Rightarrow> JobFilter \<Rightarrow> sqldb \<Rightarrow> (gerror + int) \<times> sqldb" where
  "BulkPurgeDLQ_ms like uuidString E flt d =
    autocommit E 0 (sql_delete (buildDLQWhere_ms like uuidString flt)) d"

definition CountDLQ_ms :: "env \<Rightarrow> sqldb \<Rightarrow> gerror + int" where
  "CountDLQ_ms E d =
    fst (autocommit E 0
      (sql_value (count_rows (\<lambda>x. status x = StateFailed \<or> status x = StateDeadLettered))) d)"

end
