(* ===== verification/Sqlserver_Repo.thy ===== *)
theory Sqlserver_Repo
  imports Sqlserver_Query Postgres_Props
begin

text \<open>
  The SQL Server repository behind the \<open>Repository\<close> interface. \<open>exact q g\<close>: a run of the query
  \<open>q\<close> that does not report an error has done to the table what \<open>g\<close> says, even though here a failed
  statement leaves the transaction usable; it holds for queries that pass every error on. With it
  the operations get the same kind of effect (\<open>acts\<close>) as those of the PostgreSQL repository, and the
  engine's contract is interpreted on this repository too.
\<close>

section \<open>Queries that pass every error on\<close>

definition exact :: "'a query \<Rightarrow> (row list \<Rightarrow> (gerror + 'a) \<times> row list) \<Rightarrow> bool" where
  "exact q g \<longleftrightarrow>
     (\<forall>t. \<not> aborts t \<and> \<not> aborted t \<longrightarrow>
        \<not> aborts (snd (q t)) \<and> \<not> aborted (snd (q t)) \<and> failing (snd (q t)) = failing t \<and>
        notices (snd (q t)) = notices t \<and>
        ((fst (q t), tab (snd (q t))) = g (tab t) \<or>
         isl (fst (q t)) \<and> (failing t = (\<lambda>_. None) \<longrightarrow> fst (q t) = fst (g (tab t)))))"

named_theorems ex

lemma exact_stmt [ex]: "exact (stmt f) f"
  by (auto simp: exact_def stmt_def Let_def split: option.splits prod.splits sum.splits)

lemma exact_returnq [ex]: "exact (returnq x) (\<lambda>T. (Inr x, T))"
  by (simp add: exact_def returnq_def)

lemma exact_failq [ex]: "exact (failq e) (\<lambda>T. (Inl e, T))"
  by (simp add: exact_def failq_def)

lemma exact_fromq [ex]: "exact (fromq r) (\<lambda>T. (r, T))"
  by (cases r) (simp_all add: exact_returnq exact_failq)

lemma exactD:
  assumes "exact q g" and "q t = (r, t')" and "\<not> aborts t" and "\<not> aborted t"
  shows "\<not> aborts t'" and "\<not> aborted t'" and "failing t' = failing t" and "notices t' = notices t"
    and "(r, tab t') = g (tab t) \<or> isl r \<and> (failing t = (\<lambda>_. None) \<longrightarrow> r = fst (g (tab t)))"
  using assms unfolding exact_def by (metis fst_conv snd_conv)+

lemma exact_bindq [ex]:
  assumes m: "exact m g" and f: "\<And>x. exact (f x) (h x)"
  shows "exact (bindq m f) (bind_table g h)"
  unfolding exact_def
proof (intro allI impI)
  fix t :: txn assume t: "\<not> aborts t \<and> \<not> aborted t"
  obtain r t1 where mt: "m t = (r, t1)" by fastforce
  note d = exactD [OF m mt, OF conjunct1 [OF t] conjunct2 [OF t]]
  show "\<not> aborts (snd (bindq m f t)) \<and> \<not> aborted (snd (bindq m f t)) \<and>
      failing (snd (bindq m f t)) = failing t \<and> notices (snd (bindq m f t)) = notices t \<and>
      ((fst (bindq m f t), tab (snd (bindq m f t))) = bind_table g h (tab t) \<or>
       isl (fst (bindq m f t)) \<and>
       (failing t = (\<lambda>_. None) \<longrightarrow> fst (bindq m f t) = fst (bind_table g h (tab t))))"
  proof (cases r)
    case (Inl e)
    then have b: "bindq m f t = (Inl e, t1)" using mt by (simp add: bindq_def)
    have "(Inl e, tab t1) = bind_table g h (tab t)" if "(Inl e, tab t1) = g (tab t)"
      unfolding bind_table_def that [symmetric] by simp
    moreover have "fst (bind_table g h (tab t)) = Inl e" if "fst (g (tab t)) = Inl e"
      using that by (cases "g (tab t)") (simp add: bind_table_def)
    moreover note d(5)
    ultimately show ?thesis using d(1-4) Inl unfolding b by auto
  next
    case (Inr x)
    obtain r' t2 where ft: "f x t1 = (r', t2)" by fastforce
    then have b: "bindq m f t = (r', t2)" using mt Inr by (simp add: bindq_def)
    have "g (tab t) = (Inr x, tab t1)" using d(5) Inr by simp
    then have "bind_table g h (tab t) = h x (tab t1)" by (simp add: bind_table_def)
    with b exactD [OF f ft d(1,2)] d(3,4) show ?thesis by auto
  qed
qed

lemma exact_cong: "exact q g \<Longrightarrow> (\<And>T. g T = g' T) \<Longrightarrow> exact q g'"
  by (simp add: ext [of g g'])

lemma exact_if [ex]: "exact p g \<Longrightarrow> exact q h \<Longrightarrow> exact (if b then p else q) (if b then g else h)"
  by simp

lemma exact_case_option [ex]:
  "exact q g \<Longrightarrow> (\<And>x. exact (f x) (h x)) \<Longrightarrow>
   exact (case v of None \<Rightarrow> q | Some x \<Rightarrow> f x) (case v of None \<Rightarrow> g | Some x \<Rightarrow> h x)"
  by (cases v) simp_all

lemma exact_case_prod [ex]:
  "(\<And>x y. exact (f x y) (h x y)) \<Longrightarrow> exact (case p of (x, y) \<Rightarrow> f x y) (case p of (x, y) \<Rightarrow> h x y)"
  by (cases p) simp

lemma exact_select [ex]: "exact (sql_select p) (\<lambda>T. (Inr (filter p T), T))"
  unfolding sql_select_def by (rule exact_stmt)

lemma exact_update [ex]: "exact (ms_update p f) (tbl_update p f)"
  unfolding ms_update_def sql_update_def tbl_update_def [abs_def] by (rule exact_stmt)

text \<open>A transaction of such a query has the effect or none.\<close>

lemma acts_withTx_ms:
  assumes q: "exact q g"
  shows "acts E d (g (table d)) (withTx_ms E q d)"
proof -
  let ?t = "begin_tx False E 0 1 d"
  have t: "\<not> aborts ?t" "\<not> aborted ?t" "tab ?t = table d" "failing ?t = faults E 0" "notices ?t = []"
    by (simp_all add: begin_tx_def)
  obtain r t' where qt: "q ?t = (r, t')" by fastforce
  note d = exactD [OF q qt t(1,2)]
  show ?thesis
  proof (cases r)
    case (Inl e)
    then show ?thesis using d(5) qt t(3,4)
      by (cases "g (table d)") (auto simp: acts_def withTx_ms_def withTx_def calm_def split: option.splits)
  next
    case (Inr x)
    then have g: "g (table d) = (Inr x, tab t')" using d(5) t(3) by simp
    show ?thesis using Inr d(2,3,4) t(4,5) qt
      by (auto simp: g acts_def withTx_ms_def withTx_def calm_def split: option.splits)
  qed
qed

lemma acts_withTx_ms_exists:
  "\<exists>g. exact q g \<and> g (table d) = r \<Longrightarrow> acts E d r (withTx_ms E q d)"
  using acts_withTx_ms by metis

text \<open>A single conditional update.\<close>

lemma exact_affecting [ex]: "exact (affecting e p f) (tbl_need e p f)"
  unfolding affecting_def
  by (rule exact_cong, (rule ex)+) (auto simp: bind_table_def tbl_update_def tbl_need_def update_rows_none)

lemma acts_autocommit_affecting: "acts E d (tbl_need e p f (table d)) (autocommit E 0 (affecting e p f) d)"
  by (cases "filter p (table d) = []")
    (auto simp: acts_def autocommit_def affecting_def ms_update_def sql_update_def bindq_def stmt_def
      begin_tx_def failq_def returnq_def tbl_need_def calm_def update_rows_none Let_def split: option.splits)

section \<open>The effects of the operations\<close>

text \<open>Conditions and rows that are written like those of the PostgreSQL repository.\<close>

lemma same_as_pg:
  "held_ms i w g = holds_row i w g" "lease_seconds_ms l = lease_seconds l"
  "claimable_ms now T x = sql_claimable now T x" "claimed_row_ms now w s = claimed_row now w s"
  "target_ms E T = claim_candidate E T" "is_target E T = is_candidate E T"
  "target_overflows E = claim_overflows E"
  "stale_row_ms now = stale_row now" "replayable_ms = replayable_row"
  "(\<lambda>x. x\<lparr>status := StatePending, updated_at := now\<rparr>) = unblock_row now"
proof -
  show c: "claimable_ms now T x = sql_claimable now T x" for now T x
    by (simp add: claimable_ms_def sql_claimable_def sql_pred_finished_def [abs_def])
  then show t: "target_ms E T = claim_candidate E T" for E T
    by (simp add: target_ms_def claim_candidate_def c [abs_def])
  show "target_overflows E = claim_overflows E"
    by (simp add: fun_eq_iff target_overflows_def claim_overflows_def t)
  show "is_target E T = is_candidate E T"
    by (auto simp: is_target_def is_candidate_def t fun_eq_iff split: option.splits)
qed (auto simp: fun_eq_iff held_ms_def holds_row_def lease_seconds_ms_def lease_seconds_def
    claimed_row_ms_def claimed_row_def stale_row_ms_def stale_row_def replayable_ms_def
    replayable_row_def unblock_row_def split: option.splits)

lemma exact_promote [ex]:
  "exact (promote_ms E c q)
    (\<lambda>T. (Inr (map (unblock_row (db_now E)) (filter (\<lambda>x. at_seq c q x \<and> status x = StateBlocked) T)),
      tbl_promote (db_now E) c q T))"
  unfolding promote_ms_def same_as_pg
  by (rule exact_cong, rule ex) (simp add: tbl_update_def tbl_promote_def)

definition tbl_complete_ms ::
  "time \<Rightarrow> uuid \<Rightarrow> string \<Rightarrow> int \<Rightarrow> row list \<Rightarrow> (gerror + unit) \<times> row list" where
  "tbl_complete_ms now i w g T =
    (case filter (holds_row i w g) T of
       [] \<Rightarrow> (Inl ErrLeaseConflict, T)
     | x # _ \<Rightarrow> (Inr (), tbl_promote now (chain_id x) (sequence x + 1)
         (update_rows (holds_row i w g) (completed_row_ms now) T)))"

lemma row_updates_ms [simp]:
  "rid (completed_row_ms now x) = rid x" "chain_id (completed_row_ms now x) = chain_id x"
  "sequence (completed_row_ms now x) = sequence x" "status (completed_row_ms now x) = StateCompleted"
  "rid (recovered_row_ms now st at x) = rid x" "status (recovered_row_ms now st at x) = st"
  "chain_id (recovered_row_ms now st at x) = chain_id x"
  "sequence (recovered_row_ms now st at x) = sequence x"
  "lease_generation (recovered_row_ms now st at x) = lease_generation x + 1"
  "worker_id (recovered_row_ms now st at x) = None"
  by (simp_all add: completed_row_ms_def recovered_row_ms_def)

lemma Complete_ms_acts:
  assumes T: "table_ok (table d)"
  shows "acts E d (tbl_complete_ms (db_now E) i w g (table d)) (Complete_ms E i w g d)"
  unfolding Complete_ms_def chain_seq_ms_def same_as_pg
  by (rule acts_withTx_ms_exists, rule exI, rule conjI, (rule ex)+)
    (auto simp: bind_table_def tbl_need_def tbl_complete_ms_def filter_holds_row [OF T]
      split: option.splits)

lemma Retry_ms_acts:
  "acts E d (tbl_need ErrLeaseConflict (holds_row i w g)
      (\<lambda>x. x\<lparr>status := StateRetrying, available_at := at, last_error := Some msg,
        updated_at := db_now E\<rparr>) (table d))
    (Retry_ms E i w g msg at d)"
  unfolding Retry_ms_def same_as_pg by (rule acts_autocommit_affecting)

lemma Heartbeat_ms_acts:
  "acts E d (tbl_need ErrLeaseConflict (holds_row i w g)
      (\<lambda>x. x\<lparr>lease_until := Some (db_now E + lease_seconds l * Second), updated_at := db_now E\<rparr>) (table d))
    (Heartbeat_ms E i w g l d)"
  unfolding Heartbeat_ms_def same_as_pg by (rule acts_autocommit_affecting)

lemma affecting_calm:
  "\<not> aborted t \<Longrightarrow> failing t = (\<lambda>_. None) \<Longrightarrow>
   affecting e p f t =
     (if filter p (tab t) = [] then Inl e else Inr (),
      t\<lparr>step_no := step_no t + 1, tab := update_rows p f (tab t)\<rparr>)"
  by (simp add: affecting_def ms_update_def sql_update_def bindq_def stmt_def failq_def returnq_def Let_def)

definition failed_row_ms :: "time \<Rightarrow> string \<Rightarrow> string \<Rightarrow> row \<Rightarrow> row" where
  "failed_row_ms now st msg x =
    x\<lparr>status := st, failed_at := Some now, last_error := Some msg, updated_at := now\<rparr>"

lemma fail_status_ms_calm:
  assumes "\<not> aborted t" and "failing t = (\<lambda>_. None)"
  shows "\<exists>st n. fail_status_ms i terminal t = (Inr st, t\<lparr>step_no := n\<rparr>) \<and>
    st = (if terminal \<and> (\<exists>x. row_at (tab t) i = Some x \<and> ordering_mode x = OrderingModeDeadLetterAndContinue)
          then StateDeadLettered else StateFailed)"
proof (cases terminal)
  case True
  show ?thesis
    using assms True
    by (auto simp: fail_status_ms_def bindq_def observe_def sql_select_def stmt_def returnq_def Let_def
        split: option.splits)
next
  case False
  then show ?thesis by (auto simp: fail_status_ms_def returnq_def intro: exI [of _ "step_no t"])
qed

lemma Fail_ms_acts:
  assumes E: "calm E"
  shows "\<exists>st. st = (if terminal \<and> (\<exists>x. row_at (table d) i = Some x \<and>
        ordering_mode x = OrderingModeDeadLetterAndContinue) then StateDeadLettered else StateFailed) \<and>
    acts E d (tbl_need ErrLeaseConflict (holds_row i w g) (failed_row_ms (db_now E) st msg) (table d))
      (Fail_ms E i w g msg terminal d)"
proof -
  let ?t = "begin_tx False E 0 0 d"
  have t: "\<not> aborted ?t" "failing ?t = (\<lambda>_. None)" "tab ?t = table d" "notices ?t = []"
    using E by (simp_all add: begin_tx_def calm_def)
  obtain st n where s: "fail_status_ms i terminal ?t = (Inr st, ?t\<lparr>step_no := n\<rparr>)"
    "st = (if terminal \<and> (\<exists>x. row_at (table d) i = Some x \<and>
        ordering_mode x = OrderingModeDeadLetterAndContinue) then StateDeadLettered else StateFailed)"
    using fail_status_ms_calm [OF t(1,2), of i terminal] t(3) by auto
  have f: "(\<lambda>x. x\<lparr>status := st, failed_at := Some (db_now E), last_error := Some msg,
      updated_at := db_now E\<rparr>) = failed_row_ms (db_now E) st msg"
    by (simp add: fun_eq_iff failed_row_ms_def)
  have r: "Fail_ms E i w g msg terminal d =
      (if filter (holds_row i w g) (table d) = [] then Inl ErrLeaseConflict else Inr (),
       \<lparr>table = update_rows (holds_row i w g) (failed_row_ms (db_now E) st msg) (table d), sent = sent d\<rparr>)"
    using t by (simp add: Fail_ms_def autocommit_def bindq_def s(1) affecting_calm same_as_pg f)
  have "acts E d (tbl_need ErrLeaseConflict (holds_row i w g) (failed_row_ms (db_now E) st msg) (table d))
      (Fail_ms E i w g msg terminal d)"
    by (auto simp: r acts_def tbl_need_def update_rows_none)
  with s(2) show ?thesis by blast
qed

lemma autocommit_one:
  assumes "\<And>xs. h xs = fromq (r xs)" and "\<And>xs. isl (r xs) \<Longrightarrow> xs = []"
  shows "acts E d (r (map f (filter (p (table d)) (table d))), update_rows (p (table d)) f (table d))
    (autocommit E 0 (bindq (sql_update p f) h) d)"
proof (cases "r (map f (filter (p (table d)) (table d)))")
  case (Inl e)
  then have n: "filter (p (table d)) (table d) = []"
    using assms(2) [of "map f (filter (p (table d)) (table d))"] by auto
  with Inl show ?thesis
    by (auto simp: acts_def autocommit_def bindq_def sql_update_def stmt_def begin_tx_def assms(1)
        failq_def calm_def update_rows_none Let_def split: option.splits)
next
  case (Inr x)
  then show ?thesis
    by (auto simp: acts_def autocommit_def bindq_def sql_update_def stmt_def begin_tx_def assms(1)
        returnq_def calm_def Let_def split: option.splits)
qed

lemma PromoteNext_ms_acts:
  "acts E d (Inr (), tbl_promote (db_now E) c (q + 1) (table d)) (PromoteNext_ms E c q d)"
  using autocommit_one [of "\<lambda>_. returnq ()" "\<lambda>_. Inr ()" E d "unblock_row (db_now E)"
      "\<lambda>_ x. at_seq c (q + 1) x \<and> status x = StateBlocked"]
  by (simp add: PromoteNext_ms_def promote_ms_def ms_update_def same_as_pg tbl_promote_def)

definition ms_overflow :: string where
  "ms_overflow = ''Arithmetic overflow error converting expression to data type bigint.''"

lemma autocommit_claim:
  "ov (table d) \<Longrightarrow> acts E d (Inl (Message m), table d) (autocommit E 0 (bindq (claim_stmt m ov p f) h) d)"
  "\<not> ov (table d) \<Longrightarrow> autocommit E 0 (bindq (claim_stmt m ov p f) h) d =
     autocommit E 0 (bindq (sql_update p f) h) d"
  by (auto simp: acts_def autocommit_def bindq_def claim_stmt_def sql_update_def stmt_def begin_tx_def
      calm_def Let_def split: option.splits)

lemma Claim_ms_acts:
  assumes T: "table_ok (table d)"
  shows "acts E d (tbl_claim ms_overflow E w (lease_seconds l) (table d)) (Claim_ms E w l d)"
proof (cases "claim_overflows E (table d)")
  case True
  then show ?thesis
    unfolding Claim_ms_def same_as_pg
    by (simp add: tbl_claim_def ms_overflow_def) (rule autocommit_claim(1))
next
  case False
  let ?f = "claimed_row (db_now E) w (lease_seconds l)"
  have "acts E d (scanJob_ms (first_row (map ?f (filter (is_candidate E (table d)) (table d)))),
      update_rows (is_candidate E (table d)) ?f (table d)) (Claim_ms E w l d)"
    unfolding Claim_ms_def same_as_pg autocommit_claim(2) [of "claim_overflows E", OF False]
    by (rule autocommit_one) (auto simp: first_row_def split: list.splits)
  moreover have "(scanJob_ms (first_row (map ?f (filter (is_candidate E (table d)) (table d)))),
      update_rows (is_candidate E (table d)) ?f (table d)) =
      tbl_claim ms_overflow E w (lease_seconds l) (table d)"
  proof (cases "claim_candidate E (table d)")
    case None
    then have "filter (is_candidate E (table d)) (table d) = []" by (simp add: is_candidate_def)
    with None False show ?thesis by (simp add: tbl_claim_def update_rows_none)
  next
    case (Some x)
    have "update_rows (is_candidate E (table d)) ?f (table d) =
        update_rows (\<lambda>y. rid y = rid x) ?f (table d)"
      by (simp add: update_rows_def is_candidate_def Some)
    with Some False filter_candidate [OF T Some] show ?thesis by (simp add: tbl_claim_def)
  qed
  ultimately show ?thesis by simp
qed

section \<open>The interface\<close>

definition sqlserver_repository ::
  "(string \<Rightarrow> string \<Rightarrow> bool) \<Rightarrow> (uuid \<Rightarrow> string) \<Rightarrow> MsRepository \<Rightarrow> (time \<Rightarrow> env) \<Rightarrow> sqldb Repository" where
  "sqlserver_repository like uuidString c E =
    \<lparr>Enqueue_r = (\<lambda>now. Enqueue_ms c (E now)),
     EnqueueBatch_r = (\<lambda>reqs. EnqueueBatch_ms c (E (batch_start reqs)) reqs),
     Get_r = Get_ms (E 0), GetByChainSeq_r = GetByChainSeq_ms (E 0),
     Claim_r = (\<lambda>now. Claim_ms (E now)),
     Complete_r = (\<lambda>now i w g d. err_of (Complete_ms (E now) i w g d)),
     Fail_r = (\<lambda>now i w g msg t d. err_of (Fail_ms (E now) i w g msg t d)),
     Retry_r = (\<lambda>now i w g msg at d. err_of (Retry_ms (E now) i w g msg at d)),
     Heartbeat_r = (\<lambda>now i w g l d. err_of (Heartbeat_ms (E now) i w g l d)),
     RequestCancel_r = (\<lambda>now i d. err_of (RequestCancel_ms (E now) i d)),
     ConfirmCancel_r = (\<lambda>now i w g d. err_of (ConfirmCancel_ms (E now) i w g d)),
     RecoverStale_r = (\<lambda>now. RecoverStale_ms (E now)),
     ReplayJob_r = (\<lambda>now i d. err_of (ReplayJob_ms (E now) i d)),
     ReplayJobWithPayload_r = (\<lambda>now i p d. err_of (ReplayJobWithPayload_ms (E now) i p d)),
     SkipJob_r = (\<lambda>now i d. err_of (SkipJob_ms (E now) i d)),
     RescheduleJob_r = (\<lambda>now. RescheduleJob_ms (E now)),
     BulkReplayDLQ_r = (\<lambda>now. BulkReplayDLQ_ms like uuidString (E now)),
     BulkSkipDLQ_r = (\<lambda>now. BulkSkipDLQ_ms like uuidString (E now)),
     BulkPurgeDLQ_r = BulkPurgeDLQ_ms like uuidString (E 0),
     CountDLQ_r = CountDLQ_ms (E 0),
     PromoteNext_r = (\<lambda>now ch q d. err_of (PromoteNext_ms (E now) ch q d)),
     ListPendingChains_r = ListPendingChains_ms (E 0),
     GetStats_r = (\<lambda>now. GetStats_ms (E now)),
     ListJobs_r = (\<lambda>now f d. Returns (ListJobs_ms like uuidString (E now) f d)),
     ListChains_r = (\<lambda>f d. Returns (ListChains_ms like (E 0) f d)),
     NotifyChannel_r = (\<lambda>d. NotifyChannel_ms c)\<rparr>"

lemma sqlserver_repository_sel [simp]:
  "Claim_r (sqlserver_repository lk us c E) = (\<lambda>now. Claim_ms (E now))"
  "Complete_r (sqlserver_repository lk us c E) = (\<lambda>now i w g d. err_of (Complete_ms (E now) i w g d))"
  "Fail_r (sqlserver_repository lk us c E) = (\<lambda>now i w g msg t d. err_of (Fail_ms (E now) i w g msg t d))"
  "Retry_r (sqlserver_repository lk us c E) = (\<lambda>now i w g msg at d. err_of (Retry_ms (E now) i w g msg at d))"
  "PromoteNext_r (sqlserver_repository lk us c E) = (\<lambda>now ch q d. err_of (PromoteNext_ms (E now) ch q d))"
  "RequestCancel_r (sqlserver_repository lk us c E) = (\<lambda>now i d. err_of (RequestCancel_ms (E now) i d))"
  "NotifyChannel_r (sqlserver_repository lk us c E) = (\<lambda>d. NotifyChannel_ms c)"
  by (simp_all add: sqlserver_repository_def)

lemma ms_fenced:
  assumes d: "db_ok d" and i: "job_at d i = Some j" and h: "\<not> holds_processing j w g"
    and E: "calm E"
  shows "Complete_ms E i w g d = (Inl ErrLeaseConflict, d)"
    and "Fail_ms E i w g msg t d = (Inl ErrLeaseConflict, d)"
    and "Retry_ms E i w g msg at d = (Inl ErrLeaseConflict, d)"
    and "Heartbeat_ms E i w g l d = (Inl ErrLeaseConflict, d)"
proof -
  obtain x where x: "row_at (table d) i = Some x" "j = row_job x" "x \<in> set (table d)" "rid x = i"
    using job_at_Some [OF d i] by blast
  have n: "filter (holds_row i w g) (table d) = []"
    using holds_filter [OF d x(1)] holds_row_iff [OF d x(3,4)] h x(2) by simp
  have T: "table_ok (table d)" using d by (simp add: db_ok_def)
  have "tbl_complete_ms (db_now E) i w g (table d) = (Inl ErrLeaseConflict, table d)"
    by (simp add: tbl_complete_ms_def n)
  then show "Complete_ms E i w g d = (Inl ErrLeaseConflict, d)"
    using Complete_ms_acts [OF T, of E i w g] acts_calm_Inl [OF _ E] by metis
  show "Fail_ms E i w g msg t d = (Inl ErrLeaseConflict, d)"
    using Fail_ms_acts [OF E, of t d i w g msg] need_refused [OF _ E n] by blast
  show "Retry_ms E i w g msg at d = (Inl ErrLeaseConflict, d)"
    by (rule need_refused [OF Retry_ms_acts E n])
  show "Heartbeat_ms E i w g l d = (Inl ErrLeaseConflict, d)"
    by (rule need_refused [OF Heartbeat_ms_acts E n])
qed

text \<open>A claim leaves the table as a claim of the PostgreSQL repository does.\<close>

lemma ms_claim_some:
  assumes d: "db_ok d" and c: "Claim_ms E w l d = (Inr j, d')"
  shows "db_ok d' \<and> job_at d' (ID j) = Some j \<and> WorkerID j = w \<and> Status j = StateProcessing \<and>
    holds_processing j w (LeaseGeneration j)"
proof -
  have T: "table_ok (table d)" using d by (simp add: db_ok_def)
  obtain x n where x: "tbl_claim ms_overflow E w (lease_seconds l) (table d) = (Inr j, table d')"
    using Claim_ms_acts [OF T, of E w l] c by (auto simp: acts_def)
  then obtain y where y: "claim_candidate E (table d) = Some y"
    "j = row_job (claimed_row (db_now E) w (lease_seconds l) y)"
    "table d' = update_rows (\<lambda>z. rid z = rid y) (claimed_row (db_now E) w (lease_seconds l)) (table d)"
    by (auto simp: tbl_claim_def split: option.splits if_splits)
  have "row_at (table d) (rid y) = Some y"
    using claim_candidate_Some(1) [OF y(1)] T by (simp add: row_at_iff table_ok_def)
  then have "row_at (table d') (rid y) = Some (claimed_row (db_now E) w (lease_seconds l) y)"
    by (simp add: y(3))
  moreover have "table_ok (table d')"
    unfolding y(3) by (rule table_ok_update [OF T]) (simp_all add: claimed_row_def)
  ultimately show ?thesis
    by (simp add: y(2) db_ok_def job_at_def holds_processing_def holds_lease_def)
      (simp add: claimed_row_def)
qed

lemma same_identity_ms [simp]:
  "same_identity (row_job x) (row_job (completed_row_ms now x))"
  "same_identity (row_job x) (row_job (failed_row_ms now st msg x))"
  "same_identity (row_job x) (row_job (x\<lparr>status := st, available_at := at, last_error := e, updated_at := now\<rparr>))"
  by (simp_all add: same_identity_def completed_row_ms_def failed_row_ms_def)

lemma ms_complete_held:
  assumes d: "db_ok d" and i: "job_at d i = Some j" and h: "holds_processing j w g" and E: "calm E"
  shows "\<exists>x n. row_at (table d) i = Some x \<and> j = row_job x \<and> holds_row i w g x \<and>
    Complete_ms E i w g d = (Inr (), \<lparr>table =
      tbl_promote (db_now E) (chain_id x) (sequence x + 1)
        (update_rows (holds_row i w g) (completed_row_ms (db_now E)) (table d)), sent = sent d @ n\<rparr>)"
proof -
  obtain x where x: "row_at (table d) i = Some x" "j = row_job x" "x \<in> set (table d)" "rid x = i"
    using job_at_Some [OF d i] by blast
  have hx: "holds_row i w g x" using holds_row_iff [OF d x(3,4)] h x(2) by simp
  then have n: "filter (holds_row i w g) (table d) = [x]" using holds_filter [OF d x(1)] by simp
  have T: "table_ok (table d)" using d by (simp add: db_ok_def)
  have "tbl_complete_ms (db_now E) i w g (table d) = (Inr (), tbl_promote (db_now E) (chain_id x)
      (sequence x + 1) (update_rows (holds_row i w g) (completed_row_ms (db_now E)) (table d)))"
    by (simp add: tbl_complete_ms_def n)
  from acts_calm_Inr [OF Complete_ms_acts [OF T, of E i w g, unfolded this] E] x hx show ?thesis
    by blast
qed

interpretation ms: lease_store "sqlserver_repository like us c (calm_env lk js)"
  job_at db_ok holds_processing for like us c lk js
proof unfold_locales
  let ?R = "sqlserver_repository like us c (calm_env lk js)"
  fix d :: sqldb and i j w g now msg "next"
  assume a: "db_ok d" "job_at d i = Some j" "holds_processing j w g"
  note E = calm_env_sel(1) [of lk js now]
  show "\<exists>d' j'. Complete_r ?R now i w g d = (None, d') \<and> db_ok d' \<and> job_at d' i = Some j' \<and>
      same_identity j j' \<and> Status j' = StateCompleted"
  proof -
    obtain x n where x: "row_at (table d) i = Some x" "j = row_job x" "holds_row i w g x"
      "Complete_ms (calm_env lk js now) i w g d = (Inr (), \<lparr>table =
        tbl_promote now (chain_id x) (sequence x + 1)
          (update_rows (holds_row i w g) (completed_row_ms now) (table d)), sent = sent d @ n\<rparr>)"
      using ms_complete_held [OF a E] by auto
    have "table_ok (update_rows (holds_row i w g) (completed_row_ms now) (table d))"
      using a(1) by (intro table_ok_update) (simp_all add: db_ok_def)
    with x show ?thesis
      by (auto simp: db_ok_def table_ok_promote job_at_def row_at_promote)
  qed
  show "\<exists>d' j'. Fail_r ?R now i w g msg True d = (None, d') \<and> db_ok d' \<and> job_at d' i = Some j' \<and>
      same_identity j j' \<and> LastError j' = msg \<and>
      (Status j' = StateFailed \<or> Status j' = StateDeadLettered) \<and>
      (\<forall>k. k \<noteq> i \<longrightarrow> job_at d' k = job_at d k)"
  proof -
    obtain st where st: "st = StateFailed \<or> st = StateDeadLettered"
      "acts (calm_env lk js now) d (tbl_need ErrLeaseConflict (holds_row i w g)
        (failed_row_ms (db_now (calm_env lk js now)) st msg) (table d)) (Fail_ms (calm_env lk js now) i w g msg True d)"
      using Fail_ms_acts [OF E, of True d i w g msg] by metis
    have "LastError (row_job (failed_row_ms now st msg x)) = msg"
      "Status (row_job (failed_row_ms now st msg x)) = st" "rid (failed_row_ms now st msg x) = rid x"
      "chain_id (failed_row_ms now st msg x) = chain_id x"
      "sequence (failed_row_ms now st msg x) = sequence x"
      "status (failed_row_ms now st msg x) = st" for x
      by (simp_all add: failed_row_ms_def)
    then show ?thesis using pg_need_held [OF a E st(2)] st(1) by fastforce
  qed
  show "\<exists>d' j'. Retry_r ?R now i w g msg next d = (None, d') \<and> db_ok d' \<and> job_at d' i = Some j' \<and>
      same_identity j j' \<and> Status j' = StateRetrying \<and> AvailableAt j' = next"
    using pg_need_held [OF a E Retry_ms_acts [of "calm_env lk js now" d i w g msg "next"]]
    by fastforce
next
  fix d :: sqldb and i j w g now msg "next"
  assume "db_ok d" "job_at d i = Some j" "\<not> holds_processing j w g"
  note f = ms_fenced [OF this calm_env_sel(1)]
  show "Complete_r (sqlserver_repository like us c (calm_env lk js)) now i w g d =
        (Some ErrLeaseConflict, d) \<and>
      Fail_r (sqlserver_repository like us c (calm_env lk js)) now i w g msg True d =
        (Some ErrLeaseConflict, d) \<and>
      Retry_r (sqlserver_repository like us c (calm_env lk js)) now i w g msg next d =
        (Some ErrLeaseConflict, d)"
    by (simp add: f)
next
  fix d :: sqldb and i j now c q
  assume d: "db_ok d" and i: "job_at d i = Some j"
  obtain x where x: "row_at (table d) i = Some x" "j = row_job x" using job_at_Some [OF d i] by blast
  obtain n where "PromoteNext_ms (calm_env lk js now) c q d =
      (Inr (), \<lparr>table = tbl_promote now c (q + 1) (table d), sent = sent d @ n\<rparr>)"
    using acts_calm_Inr [OF PromoteNext_ms_acts [of "calm_env lk js now" d c q]] by auto
  then show "\<exists>d' j'. PromoteNext_r (sqlserver_repository like us ca (calm_env lk js)) now c q d =
        (None, d') \<and> db_ok d' \<and> job_at d' i = Some j' \<and> same_identity j j' \<and>
      (Status j \<noteq> StateBlocked \<longrightarrow> j' = j) \<and>
      Status j' = (if ChainID j = c \<and> Sequence j = q + 1 \<and> Status j = StateBlocked
                   then StatePending else Status j)" for ca
    using d x by (auto simp: db_ok_def table_ok_promote job_at_def row_at_promote at_seq_def)
next
  fix d :: sqldb and now w l e d'
  assume "db_ok d" "Claim_r (sqlserver_repository like us c (calm_env lk js)) now w l d = (Inl e, d')"
  then show "d' = d"
    using Claim_ms_acts [of d "calm_env lk js now" w l] by (auto simp: acts_def db_ok_def)
qed (use ms_claim_some in \<open>simp_all\<close>)

end
