(* ===== verification/Sqlserver_Props.thy ===== *)
theory Sqlserver_Props
  imports Sqlserver_Repo
begin

text \<open>
  Properties of the SQL Server repository: it claims as the PostgreSQL repository does, the engine
  behaves on it as on the other stores, \<open>Complete\<close> is atomic under failing statements; and where it
  parts from the others: skipping a blocked job, promotions lost by a bulk skip, recovery.
\<close>

section \<open>Claims\<close>

text \<open>Rows a claim may hand out that its \<open>ORDER BY\<close> tells apart.\<close>

definition no_claim_ties :: "env \<Rightarrow> row list \<Rightarrow> bool" where
  "no_claim_ties E T \<longleftrightarrow>
     (\<forall>x \<in> set T. \<forall>y \<in> set T. sql_claimable (db_now E) T x \<and> sql_claimable (db_now E) T y \<and>
        \<not> locked E (rid x) \<and> \<not> locked E (rid y) \<and>
        available_at x = available_at y \<and> created_at x = created_at y \<longrightarrow> x = y)"

lemma claim_candidate_unique:
  assumes t: "no_claim_ties E T" and E: "db_now E' = db_now E" "locked E' = locked E"
  shows "claim_candidate E' T = claim_candidate E T"
proof (cases "claim_candidate E T")
  case None
  then have "claim_candidate E' T = None" using E by (simp add: claim_candidate_None)
  with None show ?thesis by simp
next
  case (Some x)
  note cx = claim_candidate_Some [OF Some]
  obtain y where y: "claim_candidate E' T = Some y"
    using cx(1-3) E claim_candidate_None [of E' T] by (cases "claim_candidate E' T") auto
  note cy = claim_candidate_Some [OF y, unfolded E]
  have "\<not> claim_order y x" "\<not> claim_order x y"
    using cx(4) [OF cy(1-3)] cy(4) [OF cx(1-3)] by (auto simp: comes_first_def)
  then have "available_at x = available_at y" "created_at x = created_at y"
    unfolding claim_order_def by linarith+
  then have "x = y" using t cx(1-3) cy(1-3) by (auto simp: no_claim_ties_def)
  then show ?thesis using Some y by simp
qed

lemma tbl_claim_without_overflow:
  "\<forall>x \<in> set T. \<not> underflows (db_now E) x \<Longrightarrow> tbl_claim m E w secs T =
    (case claim_candidate E T of
       None \<Rightarrow> (Inl ErrNotFound, T)
     | Some x \<Rightarrow> (Inr (row_job (claimed_row (db_now E) w secs x)),
         update_rows (\<lambda>y. rid y = rid x) (claimed_row (db_now E) w secs) T))"
  using claim_overflows_row [of E T] by (auto simp: tbl_claim_def)

text \<open>C31: the two SQL repositories claim alike. On the same well-formed table, at the same time and
  with the same rows locked, without failures, both answer the same job (or both not-found) and
  leave the same table, provided that no two rows they may hand out agree in both columns of the
  \<open>ORDER BY\<close> and that no due row has the smallest 64-bit number. How each database orders ties and
  how much of the table it evaluates (the rest of the two environments) makes no difference.\<close>

theorem ms_claim_is_pg_claim:
  assumes T: "table_ok (table d)" and c: "calm E" "calm E'"
    and same: "db_now E' = db_now E" "locked E' = locked E"
    and ties: "no_claim_ties E (table d)"
    and low: "\<forall>x \<in> set (table d). \<not> underflows (db_now E) x"
  shows "fst (Claim_ms E w l d) = fst (Claim_pg E' w l d) \<and>
    table (snd (Claim_ms E w l d)) = table (snd (Claim_pg E' w l d))"
proof -
  let ?g = "case claim_candidate E (table d) of
      None \<Rightarrow> (Inl ErrNotFound, table d)
    | Some x \<Rightarrow> (Inr (row_job (claimed_row (db_now E) w (lease_seconds l) x)),
        update_rows (\<lambda>y. rid y = rid x) (claimed_row (db_now E) w (lease_seconds l)) (table d))"
  have "acts E d ?g (Claim_ms E w l d)"
    using Claim_ms_acts [OF T, of E w l] tbl_claim_without_overflow [OF low] by simp
  moreover have "\<forall>x \<in> set (table d). \<not> underflows (db_now E') x" using low by (simp add: same)
  from Claim_acts [OF T, of E' w l,
    unfolded tbl_claim_without_overflow [OF this] claim_candidate_unique [OF ties same] same]
  have "acts E' d ?g (Claim_pg E' w l d)" .
  ultimately show ?thesis using c by (cases ?g; cases "fst ?g") (auto simp: acts_def)
qed

theorem ms_claim_is_pg_claim_witness:
  "fst (Claim_ms (quiet 20) ''v'' (60 * Second) pg_waiting) =
   fst (Claim_pg ((quiet 20)\<lparr>tie := \<lambda>i. 9 - i, full_scan := False\<rparr>) ''v'' (60 * Second) pg_waiting)"
proof -
  let ?E = "(quiet 20)\<lparr>tie := \<lambda>i. 9 - i, full_scan := False\<rparr>"
  have c: "calm ?E" "db_now ?E = db_now (quiet 20)" "locked ?E = locked (quiet 20)"
    using quiet_calm(1) by (simp_all add: calm_def)
  have t: "no_claim_ties (quiet 20) (table pg_waiting)"
    by (simp add: no_claim_ties_def pg_waiting_def sql_claimable_def sample_row_def)
  have u: "\<forall>x \<in> set (table pg_waiting). \<not> underflows (db_now (quiet 20)) x"
    using pg_waiting_no_underflow by blast
  from ms_claim_is_pg_claim [OF table_ok_samples(2) quiet_calm(1) c(1-3) t u] show ?thesis by blast
qed

section \<open>Completion and the engine\<close>

text \<open>\<open>Complete\<close> on SQL Server, whatever statements fail: either it reports an error and nothing
  has changed, or the row of the caller's lease, which was in processing, is completed, its
  successor unblocked if it was blocked, and every other row is as it was.\<close>

theorem ms_complete_atomic:
  assumes T: "table_ok (table d)"
  shows "(\<exists>e. Complete_ms E i w g d = (Inl e, d)) \<or>
    (\<exists>x. row_at (table d) i = Some x \<and> status x = StateProcessing \<and> worker_id x = Some w \<and>
       lease_generation x = g \<and> fst (Complete_ms E i w g d) = Inr () \<and>
       (\<forall>k. row_at (table (snd (Complete_ms E i w g d))) k =
          map_option (\<lambda>y. if k = i then completed_row_ms (db_now E) y
            else if at_seq (chain_id x) (sequence x + 1) y \<and> status y = StateBlocked
            then unblock_row (db_now E) y else y) (row_at (table d) k)))"
proof -
  let ?res = "Complete_ms E i w g d"
  from acts_atomic [OF Complete_ms_acts [OF T, of E i w g]] show ?thesis
  proof (elim disjE exE conjE)
    fix u assume a: "fst (tbl_complete_ms (db_now E) i w g (table d)) = Inr u" "fst ?res = Inr u"
      "table (snd ?res) = snd (tbl_complete_ms (db_now E) i w g (table d))"
    then obtain x where x: "row_at (table d) i = Some x" "holds_row i w g x" "fst ?res = Inr ()"
        "table (snd ?res) = tbl_promote (db_now E) (chain_id x) (sequence x + 1)
          (update_rows (holds_row i w g) (completed_row_ms (db_now E)) (table d))"
      by (auto simp: tbl_complete_ms_def filter_holds_row [OF T] split: option.splits if_splits)
    note hold = holds_row_at [OF x(1,2)]
    have "row_at (table (snd ?res)) k =
        map_option (\<lambda>y. if k = i then completed_row_ms (db_now E) y
          else if at_seq (chain_id x) (sequence x + 1) y \<and> status y = StateBlocked
          then unblock_row (db_now E) y else y) (row_at (table d) k)" for k
      using hold by (cases "row_at (table d) k") (auto simp: x(4) row_at_promote)
    with x show ?thesis by (auto simp: holds_row_def)
  qed blast
qed

theorem ms_complete_atomic_witness:
  "row_at (table (snd (Complete_ms (quiet 50) 7 ''w'' 1 pg_running))) 8 =
     Some (unblock_row 50 (sample_row 8 2 StateBlocked))"
proof -
  let ?res = "Complete_ms (quiet 50) 7 ''w'' 1 pg_running"
  have s: "chain_id (sample_row q k st) = ''c''" "sequence (sample_row q k st) = k"
    "status (sample_row q k st) = st" for q k st by (simp_all add: sample_row_def)
  have ok: "fst ?res = Inr ()"
    using ms_complete_held [OF pg_samples_ok(1) pg_running_held(1,2) quiet_calm(1), of 50] by auto
  from ms_complete_atomic [OF table_ok_samples(1), of "quiet 50" 7 "''w''" 1]
  obtain x where "row_at (table pg_running) 7 = Some x" "row_at (table (snd ?res)) 8 =
      map_option (\<lambda>y. if at_seq (chain_id x) (sequence x + 1) y \<and> status y = StateBlocked
        then unblock_row 50 y else y) (row_at (table pg_running) 8)"
    using ok by fastforce
  then show ?thesis by (auto simp: at_seq_def s)
qed

definition ms_repo :: "(string \<Rightarrow> string \<Rightarrow> bool) \<Rightarrow> (uuid \<Rightarrow> string) \<Rightarrow> (time \<Rightarrow> uuid \<Rightarrow> bool) \<Rightarrow>
    (string \<Rightarrow> string option) \<Rightarrow> sqldb Repository" where
  "ms_repo like us lk js = sqlserver_repository like us (New_ms []) (calm_env lk js)"

text \<open>an execution on SQL Server has the same outcomes as on the other stores: with the lease still
  held and no cancellation, the job ends completed, failed or dead-lettered with the error's text,
  or due for its next attempt after the backoff.\<close>

theorem ms_engine_worker_outcome:
  assumes "repo_eng e = ms_repo like us lk js" and "db_ok (db st)"
    and "Claim_ms (calm_env lk js (clock rd 0)) w (LeaseDuration (leaseMgr e)) (db st) = (Inr j, s1)"
    and "MustGet (handlers e) (Type j) = Inr h"
    and "h (WithTraceID Background (TraceID j)) j s1 = (res, s2)"
    and "db_ok s2" and "job_at s2 (ID j) = Some x" and "holds_processing x w (LeaseGeneration j)"
    and "\<not> errorsIsCancel (exec_error e rd (WithTraceID Background (TraceID j)) j res)"
  shows "\<exists>x'. job_at (db (tryClaimAndExecute e rd w st)) (ID j) = Some x' \<and> same_identity x x' \<and>
    db_ok (db (tryClaimAndExecute e rd w st)) \<and>
    (case exec_error e rd (WithTraceID Background (TraceID j)) j res of
       None \<Rightarrow> Status x' = StateCompleted
     | Some err \<Rightarrow>
         if gives_up e j err
         then (Status x' = StateFailed \<or> Status x' = StateDeadLettered) \<and> LastError x' = Error err
         else Status x' = StateRetrying \<and>
              AvailableAt x' = clock rd 7 + backoff_delay e rd (Attempt j))"
  using ms.worker_outcome [OF assms(1) [unfolded ms_repo_def] assms(2) _ assms(4-8)] assms(3,9)
  unfolding outcome_of_def by fastforce

definition ms_demo_engine :: "call_result \<Rightarrow> sqldb Engine" where
  "ms_demo_engine res = Register_eng ''task'' (\<lambda>c j s. (res, s))
     (New_engine (ms_repo (=) format_nat (\<lambda>_ _. False) Some) ''w'' [])"

lemma ms_demo_engine_sel [simp]:
  "repo_eng (ms_demo_engine res) = ms_repo (=) format_nat (\<lambda>_ _. False) Some"
  "MustGet (handlers (ms_demo_engine res)) ''task'' = Inr (\<lambda>c j s. (res, s))"
  by (simp_all add: ms_demo_engine_def Register_eng_def New_engine_def MustGet_Register Let_def
      DefaultPolicy_def)

lemma ms_demo_claim:
  "\<exists>j s1. Claim_ms (quiet 10) w l pg_waiting = (Inr j, s1) \<and> ID j = 7 \<and> Type j = ''task'' \<and>
     db_ok s1 \<and> job_at s1 7 = Some j \<and> holds_processing j w (LeaseGeneration j)"
proof -
  obtain j s1 where c: "Claim_pg (quiet 10) w l pg_waiting = (Inr j, s1)" "ID j = 7" "Type j = ''task''"
    using pg_demo_claim by blast
  let ?r = "tbl_claim ms_overflow (quiet 10) w (lease_seconds l) (table pg_waiting)"
  have "\<forall>x \<in> set (table pg_waiting). \<not> underflows (db_now (quiet 10)) x"
    using pg_waiting_no_underflow by blast
  note n = tbl_claim_without_overflow [OF this]
  have "fst ?r = Inr j"
    using Claim_acts [OF table_ok_samples(2), of "quiet 10" w l] c(1) n
    by (cases ?r; cases "fst ?r") (auto simp: acts_def)
  then have "fst (Claim_ms (quiet 10) w l pg_waiting) = Inr j"
    using Claim_ms_acts [OF table_ok_samples(2), of "quiet 10" w l]
    by (cases ?r) (auto simp: acts_def)
  then obtain s where s: "Claim_ms (quiet 10) w l pg_waiting = (Inr j, s)"
    by (cases "Claim_ms (quiet 10) w l pg_waiting") simp
  show ?thesis using s c(2,3) ms_claim_some [OF pg_samples_ok(2) s] by auto
qed

theorem ms_engine_worker_outcome_witness:
  "\<exists>x'. job_at (db (tryClaimAndExecute (ms_demo_engine (Returned None)) demo_readings ''w-0''
       (pg_demo_run pg_waiting))) 7 = Some x' \<and> Status x' = StateCompleted"
proof -
  let ?e = "ms_demo_engine (Returned None)" and ?st = "pg_demo_run pg_waiting"
  obtain j s1 where c: "Claim_ms (calm_env (\<lambda>_ _. False) Some (clock demo_readings 0)) ''w-0''
        (LeaseDuration (leaseMgr ?e)) (db ?st) = (Inr j, s1)" "ID j = 7" "Type j = ''task''" "db_ok s1"
      "job_at s1 7 = Some j" "holds_processing j ''w-0'' (LeaseGeneration j)"
    using ms_demo_claim by (fastforce simp: quiet_def demo_readings_def pg_demo_run_def)
  have h: "MustGet (handlers ?e) (Type j) = Inr (\<lambda>c j s. (Returned None, s))" by (simp add: c(3))
  have at: "job_at s1 (ID j) = Some j" using c by simp
  have d: "db_ok (db ?st)" by (simp add: pg_demo_run_def)
  have x: "\<not> errorsIsCancel (exec_error ?e demo_readings (WithTraceID Background (TraceID j)) j (Returned None))"
    by (simp add: exec_error_def)
  from ms_engine_worker_outcome [OF ms_demo_engine_sel(1) d c(1) h refl c(4) at c(6) x] show ?thesis
    by (auto simp: exec_error_def c(2))
qed

end
