(* ===== verification/Sqlserver_Diff.thy ===== *)
theory Sqlserver_Diff
  imports Sqlserver_Props
begin

text \<open>
  Where the SQL Server repository parts from the other two: a blocked job can be skipped, a bulk
  skip can lose promotions, and stale recovery invalidates the lease.
\<close>

section \<open>Skipping a blocked job\<close>

definition skipped_ms :: "time \<Rightarrow> row \<Rightarrow> row" where
  "skipped_ms now x = x\<lparr>status := StateCompleted, updated_at := now\<rparr>"

lemma skipped_ms_sel [simp]:
  "rid (skipped_ms now x) = rid x" "chain_id (skipped_ms now x) = chain_id x"
  "sequence (skipped_ms now x) = sequence x" "status (skipped_ms now x) = StateCompleted"
  by (simp_all add: skipped_ms_def)

definition tbl_skip_ms :: "time \<Rightarrow> uuid \<Rightarrow> row list \<Rightarrow> (gerror + unit) \<times> row list" where
  "tbl_skip_ms now i T =
    (case row_at T i of
       None \<Rightarrow> (Inl ErrNotFound, T)
     | Some x \<Rightarrow>
         if skippable_ms x
         then (Inr (), tbl_promote now (chain_id x) (sequence x + 1)
           (update_rows (\<lambda>y. rid y = i \<and> skippable_ms y) (skipped_ms now) T))
         else (Inl ErrNotFound, T))"

lemma Skip_ms_acts:
  assumes T: "table_ok (table d)"
  shows "acts E d (tbl_skip_ms (db_now E) i (table d)) (SkipJob_ms E i d)"
proof -
  have f: "(\<lambda>x. x\<lparr>status := StateCompleted, updated_at := db_now E\<rparr>) = skipped_ms (db_now E)"
    by (simp add: fun_eq_iff skipped_ms_def)
  have n: "filter (\<lambda>y. rid y = i \<and> skippable_ms y) (table d) =
      (case row_at (table d) i of None \<Rightarrow> [] | Some x \<Rightarrow> if skippable_ms x then [x] else [])"
    using T by (simp add: filter_rid table_ok_def)
  show ?thesis
    unfolding SkipJob_ms_def chain_seq_ms_def f
    by (rule acts_withTx_ms_exists, rule exI, rule conjI, (rule ex)+)
      (auto simp: bind_table_def tbl_need_def tbl_skip_ms_def n split: option.splits)
qed

text \<open>C33: skipping a blocked job breaks the order of its chain on SQL Server. \<open>SkipJob\<close> accepts a
  blocked job, completes it and unblocks its successor, which is then startable although the
  job before the skipped one has not finished; no other row changes. (The in-memory and the
  PostgreSQL repository answer not-found.)\<close>

theorem ms_skip_breaks_order:
  assumes T: "table_ok (table d)" and E: "calm E"
    and x: "row_at (table d) i = Some x" "status x = StateBlocked"
    and y: "y \<in> set (table d)" "at_seq (chain_id x) (sequence x + 1) y" "status y = StateBlocked"
      "available_at y \<le> now"
    and z: "z \<in> set (table d)" "at_seq (chain_id x) (sequence x - 1) z" "status z = StateProcessing"
  shows "\<exists>d' y'. SkipJob_ms E i d = (Inr (), d') \<and> row_at (table d') (rid y) = Some y' \<and>
    sql_claimable now (table d') y' \<and> row_at (table d') (rid z) = Some z"
proof -
  let ?p = "\<lambda>y. rid y = i \<and> skippable_ms y"
  let ?T = "tbl_promote (db_now E) (chain_id x) (sequence x + 1)
    (update_rows ?p (skipped_ms (db_now E)) (table d))"
  have "skippable_ms x" using x(2) by (simp add: skippable_ms_def)
  then have "tbl_skip_ms (db_now E) i (table d) = (Inr (), ?T)"
    by (simp add: tbl_skip_ms_def x(1))
  from acts_calm_Inr [OF Skip_ms_acts [OF T, of E i, unfolded this] E]
  obtain d' where d': "SkipJob_ms E i d = (Inr (), d')" "table d' = ?T" by fastforce
  have at: "row_at (table d) (rid u) = Some u" if "u \<in> set (table d)" for u
    using that T by (simp add: row_at_iff table_ok_def)
  have i: "rid x = i" "x \<in> set (table d)" using row_at_Some [OF x(1)] by auto
  have ne: "rid u \<noteq> i" if u: "u \<in> set (table d)" "sequence u \<noteq> sequence x" for u
  proof
    assume "rid u = i"
    then have "u = x" using at [OF u(1)] x(1) by simp
    with u(2) show False by simp
  qed
  have ry: "rid y \<noteq> i" using ne [OF y(1)] y(2) by (simp add: at_seq_def)
  have rz: "rid z \<noteq> i" using ne [OF z(1)] z(2) by (simp add: at_seq_def)
  have y': "row_at ?T (rid y) = Some (unblock_row (db_now E) y)"
    using at [OF y(1)] ry y(2,3) by (simp add: row_at_promote)
  have z': "row_at ?T (rid z) = Some z"
    using at [OF z(1)] rz z(3) by (simp add: row_at_promote)
  have "row_at ?T i = Some (skipped_ms (db_now E) x)"
    using x i \<open>skippable_ms x\<close> by (simp add: row_at_promote at_seq_def)
  then have s: "skipped_ms (db_now E) x \<in> set ?T" using row_at_Some by blast
  have u: "available_at (unblock_row (db_now E) y) = available_at y"
    "chain_id (unblock_row (db_now E) y) = chain_id x"
    "sequence (unblock_row (db_now E) y) = sequence x + 1"
    using y(2) by (simp_all add: unblock_row_def at_seq_def)
  have "sql_pred_finished (unblock_row (db_now E) y) (skipped_ms (db_now E) x)"
    using y(2) by (auto simp: sql_pred_finished_def at_seq_def)
  then have "list_ex (sql_pred_finished (unblock_row (db_now E) y)) ?T"
    using s by (auto simp: list_ex_iff)
  then have "sql_claimable now ?T (unblock_row (db_now E) y)"
    using y(4) by (simp add: sql_claimable_def u)
  with d' y' z' show ?thesis by auto
qed

definition three_rows :: sqldb where
  "three_rows = \<lparr>table = [sample_row 7 1 StateProcessing, sample_row 8 2 StateBlocked,
     sample_row 9 3 StateBlocked], sent = []\<rparr>"

theorem ms_skip_breaks_order_witness:
  "\<exists>d' y'. SkipJob_ms (quiet 50) 8 three_rows = (Inr (), d') \<and> row_at (table d') 9 = Some y' \<and>
     sql_claimable 50 (table d') y' \<and>
     row_at (table d') 7 = Some (sample_row 7 1 StateProcessing)"
proof -
  have t: "table_ok (table three_rows)"
    by (simp add: table_ok_def three_rows_def sample_row_def)
  have r: "rid (sample_row k q st) = k" "chain_id (sample_row k q st) = ''c''"
    "sequence (sample_row k q st) = q" "status (sample_row k q st) = st"
    "available_at (sample_row k q st) = 10" for k q st
    by (simp_all add: sample_row_def)
  have x: "row_at (table three_rows) 8 = Some (sample_row 8 2 StateBlocked)"
    by (simp add: row_at_def three_rows_def r)
  have m: "sample_row 9 3 StateBlocked \<in> set (table three_rows)"
    "sample_row 7 1 StateProcessing \<in> set (table three_rows)" by (simp_all add: three_rows_def)
  from ms_skip_breaks_order [OF t quiet_calm(1) x _ m(1) _ _ _ m(2), of 50 50] show ?thesis
    by (simp add: r at_seq_def)
qed

section \<open>Recovery\<close>

definition stale_items :: "env \<Rightarrow> int \<Rightarrow> row list \<Rightarrow> row list" where
  "stale_items E limit T =
    take (nat (stale_limit_ms limit)) (filter (\<lambda>x. stale_row_ms (db_now E) x \<and> \<not> locked E (rid x)) T)"

definition recovered_by :: "env \<Rightarrow> (int \<Rightarrow> duration) option \<Rightarrow> row \<Rightarrow> row" where
  "recovered_by E pol x =
    (case recovery_ms (go_now E) pol x of (st, at) \<Rightarrow> recovered_row_ms (db_now E) st at x)"

lemma observe_update_calm:
  "\<not> aborted t \<Longrightarrow> failing t = (\<lambda>_. None) \<Longrightarrow>
   observe (ms_update p f) t =
     (Inr (Inr (map f (filter p (tab t)))), t\<lparr>step_no := step_no t + 1, tab := update_rows p f (tab t)\<rparr>)"
  by (simp add: observe_def ms_update_def sql_update_def stmt_def Let_def)

text \<open>The items are rewritten one by one; a rewritten row is not stale any more.\<close>

lemma recover_items_calm:
  assumes "\<not> aborted t" and "failing t = (\<lambda>_. None)" and "distinct (map rid (tab t))"
    and "distinct its" and "set its \<subseteq> set (tab t)" and "\<forall>x \<in> set its. stale_row_ms (db_now E) x"
  shows "\<exists>k. recover_items_ms E pol its n t =
    (Inr (n + int (length its)),
     t\<lparr>step_no := k, tab := update_rows (\<lambda>x. x \<in> set its) (recovered_by E pol) (tab t)\<rparr>)"
  using assms
proof (induction its arbitrary: n t)
  case Nil
  then show ?case by (auto simp: returnq_def update_rows_def intro: exI [of _ "step_no t"])
next
  case (Cons it its)
  obtain st at where sa: "recovery_ms (go_now E) pol it = (st, at)" by fastforce
  let ?p = "\<lambda>x. rid x = rid it \<and> stale_row_ms (db_now E) x" and ?f = "recovered_row_ms (db_now E) st at"
  have it: "it \<in> set (tab t)" "stale_row_ms (db_now E) it" using Cons.prems by auto
  have only: "?p x \<longleftrightarrow> x = it" if "x \<in> set (tab t)" for x
    using that it Cons.prems(3) by (auto simp: distinct_map inj_on_def)
  have upd: "update_rows ?p ?f (tab t) = update_rows (\<lambda>x. x = it) (recovered_by E pol) (tab t)"
    using only by (auto simp: update_rows_def recovered_by_def sa)
  have len: "length (filter ?p (tab t)) > 0" using it by (auto simp: length_greater_0_conv filter_empty_conv)
  let ?t = "t\<lparr>step_no := step_no t + 1, tab := update_rows (\<lambda>x. x = it) (recovered_by E pol) (tab t)\<rparr>"
  have step: "recover_items_ms E pol (it # its) n t = recover_items_ms E pol its (n + 1) ?t"
    using len by (simp add: sa bindq_def observe_update_calm [OF Cons.prems(1,2)] upd)
  have r: "rid (recovered_by E pol x) = rid x" for x
    by (simp add: recovered_by_def split: prod.splits)
  have sub: "set its \<subseteq> set (tab ?t)"
  proof
    fix x assume "x \<in> set its"
    then have "x \<in> set (tab t)" "x \<noteq> it" using Cons.prems(4,5) by auto
    then show "x \<in> set (tab ?t)" by (simp add: set_update_rows) metis
  qed
  have "distinct (map rid (tab ?t))" using Cons.prems(3) by (simp add: map_update_rows r)
  from Cons.IH [of ?t "n + 1", OF _ _ this _ sub] Cons.prems obtain k where
    k: "recover_items_ms E pol its (n + 1) ?t = (Inr (n + 1 + int (length its)),
      ?t\<lparr>step_no := k, tab := update_rows (\<lambda>x. x \<in> set its) (recovered_by E pol) (tab ?t)\<rparr>)"
    by auto
  have "update_rows (\<lambda>x. x \<in> set its) (recovered_by E pol) (update_rows (\<lambda>x. x = it) (recovered_by E pol) (tab t)) =
      update_rows (\<lambda>x. x \<in> set (it # its)) (recovered_by E pol) (tab t)"
  proof -
    have "recovered_by E pol it \<notin> set its"
    proof
      assume a: "recovered_by E pol it \<in> set its"
      then have "recovered_by E pol it \<in> set (tab t)" "rid (recovered_by E pol it) = rid it"
        using Cons.prems(5) by (auto simp: r)
      then have "recovered_by E pol it = it"
        using it(1) Cons.prems(3) by (auto simp: distinct_map inj_on_def)
      with a Cons.prems(4) show False by simp
    qed
    then show ?thesis using Cons.prems(4) by (auto simp: update_rows_def)
  qed
  with step k show ?case by auto
qed

text \<open>C32: stale recovery on SQL Server. Without failures it takes at most the limit (100 when that is
  not positive) of the unlocked rows in processing whose lease has passed, and reports their
  number; each goes to retrying after the policy's delay while it has attempts left, else back to
  pending at once, without a worker and under the next lease generation; nothing else changes.
  So the former holder is refused from then on.\<close>

theorem ms_recover_stale:
  assumes T: "table_ok (table d)" and E: "calm E"
  shows "\<exists>d'. RecoverStale_ms E limit pol d = (Inr (int (length (stale_items E limit (table d)))), d') \<and>
    length (stale_items E limit (table d)) \<le> nat (if limit \<le> 0 then 100 else limit) \<and>
    (\<forall>k. row_at (table d') k = map_option (\<lambda>x. if x \<in> set (stale_items E limit (table d))
       then recovered_by E pol x else x) (row_at (table d) k)) \<and>
    (\<forall>x \<in> set (stale_items E limit (table d)).
       let x' = recovered_by E pol x in
       lease_generation x' = lease_generation x + 1 \<and> worker_id x' = None \<and>
       (case pol of
          Some f \<Rightarrow> if attempt x < max_attempts x
            then status x' = StateRetrying \<and> available_at x' = go_now E + f (attempt x)
            else status x' = StatePending \<and> available_at x' = go_now E
        | None \<Rightarrow> status x' = StatePending \<and> available_at x' = go_now E))"
proof -
  let ?its = "stale_items E limit (table d)" and ?t = "(begin_tx False E 0 0 d)\<lparr>step_no := 1\<rparr>"
  have t: "\<not> aborted ?t" "failing ?t = (\<lambda>_. None)" "tab ?t = table d" "notices ?t = []"
    using E by (simp_all add: begin_tx_def calm_def)
  have dist: "distinct (map rid (table d))" using T by (simp add: table_ok_def)
  have its: "distinct ?its" "set ?its \<subseteq> set (table d)" "\<forall>x \<in> set ?its. stale_row_ms (db_now E) x"
    using dist by (auto simp: stale_items_def distinct_map dest: in_set_takeD)
  obtain k where k: "recover_items_ms E pol ?its 0 ?t = (Inr (int (length ?its)),
      ?t\<lparr>step_no := k, tab := update_rows (\<lambda>x. x \<in> set ?its) (recovered_by E pol) (table d)\<rparr>)"
    using recover_items_calm [OF t(1,2), of ?its E pol 0] dist its t(3) by auto
  have st: "stmt (\<lambda>T. (Inr (stale_items E limit T), T)) (begin_tx False E 0 0 d) = (Inr ?its, ?t)"
    using E by (simp add: stmt_def begin_tx_def calm_def Let_def)
  have "RecoverStale_ms E limit pol d = (Inr (int (length ?its)),
      \<lparr>table = update_rows (\<lambda>x. x \<in> set ?its) (recovered_by E pol) (table d), sent = sent d\<rparr>)"
    unfolding RecoverStale_ms_def stale_items_def [symmetric] autocommit_def bindq_def st
    using k t(4) by simp
  moreover have "rid (recovered_by E pol x) = rid x" for x
    by (simp add: recovered_by_def split: prod.splits)
  moreover have "length ?its \<le> nat (if limit \<le> 0 then 100 else limit)"
    by (simp add: stale_items_def stale_limit_ms_def)
  ultimately show ?thesis
    by (auto simp: Let_def recovered_by_def recovery_ms_def recovered_row_ms_def split: option.splits)
qed

theorem ms_recover_stale_witness:
  "\<exists>d'. RecoverStale_ms (quiet 200) 5 (Some (\<lambda>_. 30)) pg_running = (Inr 1, d') \<and>
     row_at (table d') 7 = Some (recovered_row_ms 200 StateRetrying 230 (sample_row 7 1 StateProcessing))"
proof -
  have g: "go_now (quiet t) = t" for t by (simp add: quiet_def)
  have i: "stale_items (quiet 200) 5 (table pg_running) = [sample_row 7 1 StateProcessing]"
    by (simp add: stale_items_def stale_limit_ms_def pg_running_def stale_row_ms_def sample_row_def)
  have r: "recovered_by (quiet 200) (Some (\<lambda>_. 30)) (sample_row 7 1 StateProcessing) =
      recovered_row_ms 200 StateRetrying 230 (sample_row 7 1 StateProcessing)"
    by (simp add: recovered_by_def recovery_ms_def g) (simp add: sample_row_def)
  from ms_recover_stale [OF table_ok_samples(1) quiet_calm(1) [of 200], of 5 "Some (\<lambda>_. 30)"]
  show ?thesis unfolding i by (auto simp: r)
qed

section \<open>A bulk skip that loses a promotion\<close>

text \<open>\<open>BulkSkipDLQ\<close> on SQL Server drops the error of a promotion and commits all the same: when the
  statement that unblocks the successor of a skipped job fails, the call reports success, the
  skipped job is completed and its successor stays blocked behind it.\<close>

theorem ms_bulk_skip_loses_promotion:
  assumes T: "table_ok (table d)" and f: "faults E 0 = (\<lambda>n. if n = 3 then Some e else None)"
    and x: "filter (buildDLQWhere_ms like us flt) (table d) = [x]"
    and y: "y \<in> set (table d)" "at_seq (chain_id x) (sequence x + 1) y" "status y = StateBlocked"
  shows "\<exists>d'. BulkSkipDLQ_ms like us E flt d = (Inr 1, d') \<and>
    row_at (table d') (rid x) = Some (skipped_row_ms (db_now E) x) \<and>
    row_at (table d') (rid y) = Some y"
proof -
  let ?p = "buildDLQWhere_ms like us flt"
  let ?T = "update_rows ?p (skipped_row_ms (db_now E)) (table d)"
  have px: "x \<in> set (table d)" "?p x" using arg_cong [OF x, where f = set] by auto
  have "promote_ms E c q t = (Inl e, t\<lparr>step_no := 4\<rparr>)"
    if "\<not> aborted t" "\<not> aborts t" "failing t = faults E 0" "step_no t = 3" for c q t
    using that by (simp add: promote_ms_def ms_update_def sql_update_def stmt_def f)
  then have b: "bulk_skip_body_ms like us E flt (begin_tx False E 0 1 d) =
      (Inr (Some 1), (begin_tx False E 0 4 d)\<lparr>tab := ?T\<rparr>)"
    by (simp add: bulk_skip_body_ms_def bindq_def sql_select_def ms_update_def sql_update_def stmt_def
        begin_tx_def f x observe_def returnq_def)
  then have r: "BulkSkipDLQ_ms like us E flt d = (Inr 1, d\<lparr>table := ?T\<rparr>)"
    by (simp add: BulkSkipDLQ_ms_def f begin_tx_def)
  have at: "row_at (table d) (rid u) = Some u" if "u \<in> set (table d)" for u
    using that T by (simp add: row_at_iff table_ok_def)
  have "\<not> ?p y" using y(3) by (simp add: buildDLQWhere_ms_def)
  moreover have "rid (skipped_row_ms now u) = rid u" for now u by (simp add: skipped_row_ms_def)
  ultimately show ?thesis using at [OF px(1)] at [OF y(1)] px(2) by (simp add: r)
qed

definition failed_first :: sqldb where
  "failed_first = \<lparr>table = [sample_row 7 1 StateFailed, sample_row 8 2 StateBlocked], sent = []\<rparr>"

theorem ms_bulk_skip_loses_promotion_witness:
  "\<exists>d'. BulkSkipDLQ_ms (=) format_nat ((quiet 50)\<lparr>faults := (\<lambda>_ n. if n = 3 then Some (Message ''timeout'') else None)\<rparr>)
      zero_JobFilter failed_first = (Inr 1, d') \<and>
     row_at (table d') 8 = Some (sample_row 8 2 StateBlocked)"
proof -
  let ?E = "(quiet 50)\<lparr>faults := (\<lambda>_ n. if n = 3 then Some (Message ''timeout'') else None)\<rparr>"
  have t: "table_ok (table failed_first)" by (simp add: table_ok_def failed_first_def sample_row_def)
  have f: "faults ?E 0 = (\<lambda>n. if n = 3 then Some (Message ''timeout'') else None)" by simp
  have r: "rid (sample_row k q st) = k" "chain_id (sample_row k q st) = ''c''"
    "sequence (sample_row k q st) = q" "status (sample_row k q st) = st" for k q st
    by (simp_all add: sample_row_def)
  have x: "filter (buildDLQWhere_ms (=) format_nat zero_JobFilter) (table failed_first) =
      [sample_row 7 1 StateFailed]"
    by (simp add: failed_first_def buildDLQWhere_ms_def zero_JobFilter_def r)
  have m: "sample_row 8 2 StateBlocked \<in> set (table failed_first)" by (simp add: failed_first_def)
  from ms_bulk_skip_loses_promotion [OF t f x m] show ?thesis by (auto simp: r at_seq_def)
qed

end
