(* ===== verification/Go_Encoding.thy ===== *)
theory Go_Encoding
  imports Prelude
begin

text \<open>
  What the dashboard uses of Go's packages \<open>strings\<close> and \<open>encoding/base64\<close>: splitting and trimming
  of byte strings, and the base64 encodings with the two alphabets, with and without padding.
  The lemmas are the laws the token code relies on: splitting at a separator undoes joining with
  it, and the raw decoder undoes the raw encoder.
\<close>

section \<open>Package \<open>strings\<close>\<close>

text \<open>\<open>strings.Split(s, sep)\<close> with a separator of one byte.\<close>

fun Split :: "string \<Rightarrow> char \<Rightarrow> string list" where
  "Split [] sep = [[]]"
| "Split (c # cs) sep = (if c = sep then [] # Split cs sep
     else case Split cs sep of [] \<Rightarrow> [[c]] | p # ps \<Rightarrow> (c # p) # ps)"

text \<open>\<open>strings.Cut(s, sep)\<close> with a separator of one byte: the parts before and after it.\<close>

fun Cut :: "string \<Rightarrow> char \<Rightarrow> (string \<times> string) option" where
  "Cut [] sep = None"
| "Cut (c # cs) sep = (if c = sep then Some ([], cs)
     else map_option (\<lambda>(a, b). (c # a, b)) (Cut cs sep))"

definition is_space :: "char \<Rightarrow> bool" where
  "is_space c \<longleftrightarrow> (let n = of_char c :: nat in n = 32 \<or> 9 \<le> n \<and> n \<le> 13)"

definition TrimSpace :: "string \<Rightarrow> string" where
  "TrimSpace s = rev (dropWhile is_space (rev (dropWhile is_space s)))"

definition TrimRight :: "string \<Rightarrow> char \<Rightarrow> string" where
  "TrimRight s c = rev (dropWhile (\<lambda>d. d = c) (rev s))"

definition TrimPrefix :: "string \<Rightarrow> string \<Rightarrow> string" where
  "TrimPrefix s p = (if HasPrefix s p then drop (length p) s else s)"

text \<open>\<open>strings.ReplaceAll\<close> with a pattern that is not empty.\<close>

function ReplaceAll :: "string \<Rightarrow> string \<Rightarrow> string \<Rightarrow> string" where
  "ReplaceAll s old new =
    (if s = [] \<or> old = [] then s
     else if HasPrefix s old then new @ ReplaceAll (drop (length old) s) old new
     else hd s # ReplaceAll (tl s) old new)"
  by pat_completeness auto
termination
  by (relation "measure (\<lambda>(s, _). length s)") auto

declare ReplaceAll.simps [simp del]

lemma Split_not_Nil [simp]: "Split s sep \<noteq> []"
  by (cases s) (auto split: list.split)

lemma Split_no_sep: "sep \<notin> set s \<Longrightarrow> Split s sep = [s]"
  by (induction s) auto

lemma Split_join: "sep \<notin> set a \<Longrightarrow> Split (a @ sep # s) sep = a # Split s sep"
  by (induction a) auto

text \<open>Joining the parts with the separator gives the string back.\<close>

fun Join :: "string list \<Rightarrow> char \<Rightarrow> string" where
  "Join [] sep = []"
| "Join [a] sep = a"
| "Join (a # b # ps) sep = a @ sep # Join (b # ps) sep"

lemma Join_Cons: "ps \<noteq> [] \<Longrightarrow> Join (a # ps) sep = a @ sep # Join ps sep"
  by (cases ps) auto

lemma Join_Split: "Join (Split s sep) sep = s"
proof (induction s)
  case (Cons c cs)
  show ?case
  proof (cases "Split cs sep")
    case (Cons p ps)
    with Cons.IH show ?thesis by (cases ps) auto
  qed simp
qed simp

lemma Split_sep_free: "p \<in> set (Split s sep) \<Longrightarrow> sep \<notin> set p"
  by (induction s arbitrary: p) (auto split: if_splits list.splits)

lemma Cut_Some: "sep \<notin> set a \<Longrightarrow> Cut (a @ sep # b) sep = Some (a, b)"
  by (induction a) auto

lemma Cut_SomeD: "Cut s sep = Some (a, b) \<Longrightarrow> s = a @ sep # b \<and> sep \<notin> set a"
  by (induction s arbitrary: a) (auto split: if_splits)

lemma TrimPrefix_append [simp]: "TrimPrefix (p @ s) p = s"
  by (simp add: TrimPrefix_def HasPrefix_iff)

lemma dropWhile_last_no: "s \<noteq> [] \<Longrightarrow> \<not> P (last s) \<Longrightarrow> dropWhile P (rev s) = rev s"
  by (cases s rule: rev_cases) auto

lemma dropWhile_hd_no: "\<not> P (hd s) \<Longrightarrow> dropWhile P s = s"
  by (cases s) auto

lemma TrimSpace_id:
  assumes "s \<noteq> []" and "\<not> is_space (hd s)" and "\<not> is_space (last s)"
  shows "TrimSpace s = s"
  unfolding TrimSpace_def
  by (simp only: dropWhile_hd_no [where P = is_space, OF assms(2)] dropWhile_last_no [where P = is_space, OF assms(1,3)]
      rev_rev_ident)

lemma TrimRight_no_last: "TrimRight s c = [] \<or> last (TrimRight s c) \<noteq> c"
  using hd_dropWhile [of "\<lambda>d. d = c" "rev s"] by (auto simp: TrimRight_def last_rev)

lemma TrimRight_id: "s = [] \<or> last s \<noteq> c \<Longrightarrow> TrimRight s c = s"
  by (cases s rule: rev_cases) (auto simp: TrimRight_def)

section \<open>Package \<open>encoding/base64\<close>\<close>

definition alphabet_common :: string where
  "alphabet_common = ''ABCDEFGHIJKLMNOPQRSTUVWXYZ'' @ ''abcdefghijklmnopqrstuvwxyz'' @ ''0123456789''"

definition StdAlphabet :: string where
  "StdAlphabet = alphabet_common @ ''+/''"

definition URLAlphabet :: string where
  "URLAlphabet = alphabet_common @ ''-_''"

record base64_encoding =
  alphabet :: string
  padded :: bool

definition StdEncoding :: base64_encoding where
  "StdEncoding = \<lparr>alphabet = StdAlphabet, padded = True\<rparr>"

definition URLEncoding :: base64_encoding where
  "URLEncoding = \<lparr>alphabet = URLAlphabet, padded = True\<rparr>"

definition RawURLEncoding :: base64_encoding where
  "RawURLEncoding = \<lparr>alphabet = URLAlphabet, padded = False\<rparr>"

definition b64_digit :: "base64_encoding \<Rightarrow> nat \<Rightarrow> char" where
  "b64_digit e n = alphabet e ! n"

fun position :: "'a \<Rightarrow> 'a list \<Rightarrow> nat option" where
  "position x [] = None"
| "position x (y # ys) = (if x = y then Some 0 else map_option Suc (position x ys))"

definition b64_value :: "base64_encoding \<Rightarrow> char \<Rightarrow> nat option" where
  "b64_value e c = position c (alphabet e)"

text \<open>\<open>EncodeToString\<close>: three bytes to four digits; one or two bytes left over give two or three
  digits, followed by padding in a padded encoding.\<close>

fun b64_encode :: "base64_encoding \<Rightarrow> nat list \<Rightarrow> string" where
  "b64_encode e [] = []"
| "b64_encode e [x] =
    [b64_digit e (x div 4), b64_digit e (x mod 4 * 16)] @ (if padded e then ''=='' else [])"
| "b64_encode e [x, y] =
    [b64_digit e (x div 4), b64_digit e (x mod 4 * 16 + y div 16), b64_digit e (y mod 16 * 4)] @
    (if padded e then ''='' else [])"
| "b64_encode e (x # y # z # bs) =
    [b64_digit e (x div 4), b64_digit e (x mod 4 * 16 + y div 16),
     b64_digit e (y mod 16 * 4 + z div 64), b64_digit e (z mod 64)] @ b64_encode e bs"

text \<open>
  \<open>DecodeString\<close>: carriage returns and line feeds are skipped, four digits give three bytes, the
  last group may be short in a raw encoding and must be padded in a padded one. The unused low bits
  of the last digit are not checked (the encodings are not \<open>Strict\<close>).
\<close>

definition b64_group2 :: "nat \<Rightarrow> nat \<Rightarrow> nat list" where
  "b64_group2 a b = [a * 4 + b div 16]"

definition b64_group3 :: "nat \<Rightarrow> nat \<Rightarrow> nat \<Rightarrow> nat list" where
  "b64_group3 a b c = [a * 4 + b div 16, b mod 16 * 16 + c div 4]"

definition b64_group4 :: "nat \<Rightarrow> nat \<Rightarrow> nat \<Rightarrow> nat \<Rightarrow> nat list" where
  "b64_group4 a b c d = [a * 4 + b div 16, b mod 16 * 16 + c div 4, c mod 4 * 64 + d]"

fun b64_decode_digits :: "base64_encoding \<Rightarrow> string \<Rightarrow> nat list option" where
  "b64_decode_digits e [] = Some []"
| "b64_decode_digits e [c1] = None"
| "b64_decode_digits e [c1, c2] =
    (if padded e then None else case (b64_value e c1, b64_value e c2) of
       (Some a, Some b) \<Rightarrow> Some (b64_group2 a b) | _ \<Rightarrow> None)"
| "b64_decode_digits e [c1, c2, c3] =
    (if padded e then None else case (b64_value e c1, b64_value e c2, b64_value e c3) of
       (Some a, Some b, Some c) \<Rightarrow> Some (b64_group3 a b c) | _ \<Rightarrow> None)"
| "b64_decode_digits e (c1 # c2 # c3 # c4 # cs) =
    (case (b64_value e c1, b64_value e c2, b64_value e c3, b64_value e c4) of
       (Some a, Some b, Some c, Some d) \<Rightarrow>
         map_option ((@) (b64_group4 a b c d)) (b64_decode_digits e cs)
     | (Some a, Some b, Some c, None) \<Rightarrow>
         if padded e \<and> c4 = CHR ''='' \<and> cs = [] then Some (b64_group3 a b c) else None
     | (Some a, Some b, None, _) \<Rightarrow>
         if padded e \<and> c3 = CHR ''='' \<and> c4 = CHR ''='' \<and> cs = [] then Some (b64_group2 a b)
         else None
     | _ \<Rightarrow> None)"

definition b64_decode :: "base64_encoding \<Rightarrow> string \<Rightarrow> nat list option" where
  "b64_decode e s = b64_decode_digits e (filter (\<lambda>c. c \<noteq> CHR 0x0A \<and> c \<noteq> CHR 0x0D) s)"

subsection \<open>Round trip\<close>

text \<open>An encoding whose alphabet has 64 distinct digits, none of them padding or a line break.\<close>

definition good_alphabet :: "string \<Rightarrow> bool" where
  "good_alphabet a \<longleftrightarrow> length a = 64 \<and> distinct a \<and>
     CHR ''='' \<notin> set a \<and> CHR 0x0A \<notin> set a \<and> CHR 0x0D \<notin> set a"

lemma good_alphabets [simp]: "good_alphabet StdAlphabet" "good_alphabet URLAlphabet"
  by (simp_all add: good_alphabet_def StdAlphabet_def URLAlphabet_def alphabet_common_def)

lemma position_nth: "distinct xs \<Longrightarrow> n < length xs \<Longrightarrow> position (xs ! n) xs = Some n"
proof (induction xs arbitrary: n)
  case (Cons x xs)
  then show ?case by (cases n) auto
qed simp

lemma position_None: "x \<notin> set xs \<Longrightarrow> position x xs = None"
  by (induction xs) auto

lemma b64_value_digit:
  "good_alphabet (alphabet e) \<Longrightarrow> n < 64 \<Longrightarrow> b64_value e (b64_digit e n) = Some n"
  by (simp add: b64_value_def b64_digit_def good_alphabet_def position_nth)

lemma b64_value_pad: "good_alphabet (alphabet e) \<Longrightarrow> b64_value e (CHR ''='') = None"
  by (simp add: b64_value_def good_alphabet_def position_None)

lemma b64_digit_in: "good_alphabet (alphabet e) \<Longrightarrow> n < 64 \<Longrightarrow> b64_digit e n \<in> set (alphabet e)"
  by (simp add: b64_digit_def good_alphabet_def)

lemma b64_encode_set:
  "good_alphabet (alphabet e) \<Longrightarrow> \<forall>b \<in> set bs. b < 256 \<Longrightarrow>
   set (b64_encode e bs) \<subseteq> set (alphabet e) \<union> {CHR ''=''}"
  by (induction e bs rule: b64_encode.induct) (auto intro!: b64_digit_in)

lemma place_value:
  assumes "(b::nat) < m"
  shows "(a * m + b) div m = a" and "(a * m + b) mod m = b"
  using assms by simp_all

lemma b64_regroup:
  assumes "x < 256" and "y < 256" and "z < (256::nat)"
  shows "b64_group4 (x div 4) (x mod 4 * 16 + y div 16) (y mod 16 * 4 + z div 64) (z mod 64) =
      [x, y, z]"
    and "b64_group3 (x div 4) (x mod 4 * 16 + y div 16) (y mod 16 * 4) = [x, y]"
proof -
  have p: "y div 16 < 16" "z div 64 < 4" using assms by auto
  show "b64_group4 (x div 4) (x mod 4 * 16 + y div 16) (y mod 16 * 4 + z div 64) (z mod 64) =
      [x, y, z]"
    by (simp only: b64_group4_def place_value [OF p(1)] place_value [OF p(2)] div_mult_mod_eq)
  show "b64_group3 (x div 4) (x mod 4 * 16 + y div 16) (y mod 16 * 4) = [x, y]"
    by (simp only: b64_group3_def place_value [OF p(1)] div_mult_mod_eq
        nonzero_mult_div_cancel_right)
qed

lemma b64_decode_digits_encode:
  "good_alphabet (alphabet e) \<Longrightarrow> \<forall>b \<in> set bs. b < 256 \<Longrightarrow>
   b64_decode_digits e (b64_encode e bs) = Some bs"
proof (induction e bs rule: b64_encode.induct)
  case (4 e x y z bs)
  have "x div 4 < 64" "x mod 4 * 16 + y div 16 < 64" "y mod 16 * 4 + z div 64 < 64" "z mod 64 < 64"
    using 4 by auto
  then show ?case using 4 by (simp add: b64_value_digit b64_regroup(1))
next
  case (3 e x y)
  have "x div 4 < 64" "x mod 4 * 16 + y div 16 < 64" "y mod 16 * 4 < 64"
    using 3 by auto
  then show ?case using 3 b64_regroup(2) [of x y 0] by (simp add: b64_value_digit b64_value_pad)
next
  case (2 e x)
  have "x div 4 < 64" "x mod 4 * 16 < 64"
    using 2 by auto
  then show ?case using 2 by (simp add: b64_value_digit b64_value_pad b64_group2_def)
qed simp

lemma b64_encode_no_break:
  assumes "good_alphabet (alphabet e)" and "\<forall>b \<in> set bs. b < 256"
  shows "filter (\<lambda>c. c \<noteq> CHR 0x0A \<and> c \<noteq> CHR 0x0D) (b64_encode e bs) = b64_encode e bs"
  using b64_encode_set [OF assms] assms(1) by (auto simp: filter_id_conv good_alphabet_def)

lemma b64_decode_encode:
  "good_alphabet (alphabet e) \<Longrightarrow> \<forall>b \<in> set bs. b < 256 \<Longrightarrow>
   b64_decode e (b64_encode e bs) = Some bs"
  by (simp add: b64_decode_def b64_encode_no_break b64_decode_digits_encode)

text \<open>The bytes of a Go string.\<close>

definition bytes_of :: "string \<Rightarrow> nat list" where
  "bytes_of s = map of_char s"

definition string_of :: "nat list \<Rightarrow> string" where
  "string_of bs = map char_of bs"

lemma bytes_of_bound [simp]: "\<forall>b \<in> set (bytes_of s). b < 256"
  by (auto simp: bytes_of_def)

lemma string_of_bytes [simp]: "string_of (bytes_of s) = s"
  by (simp add: string_of_def bytes_of_def comp_def)

lemma raw_url_encode_chars:
  assumes "\<forall>b \<in> set bs. b < 256"
  shows "CHR ''.'' \<notin> set (b64_encode RawURLEncoding bs)"
proof -
  have "CHR ''.'' \<notin> set URLAlphabet" by (simp add: URLAlphabet_def alphabet_common_def)
  then show ?thesis
    using b64_encode_set [of RawURLEncoding bs] assms by (auto simp: RawURLEncoding_def)
qed

end
