(* ===== verification/Go_Json.thy ===== *)
theory Go_Json
  imports Go_Encoding
begin

text \<open>
  What the code uses of Go's \<open>strconv\<close>, \<open>unicode/utf8\<close> and \<open>encoding/json\<close>: decimal numbers, the
  length of a rune, the text of a JSON value as \<open>json.Marshal\<close> writes it, the parser of
  \<open>json.Unmarshal\<close> and of the first value of a \<open>json.Decoder\<close>, and the decoding of an object into
  the fields of a struct. Invalid UTF-8 is replaced as Go does; names of fields fold in ASCII. The
  parser takes fuel; \<open>parse_fuel_enough\<close> shows that the fuel of the entry points never runs out, and
  \<open>parse_text\<close> that parsing undoes writing.
\<close>

section \<open>Decimal numbers (\<open>strconv\<close>)\<close>

definition code :: "char \<Rightarrow> nat" where
  "code c = of_char c"

definition is_digit :: "char \<Rightarrow> bool" where
  "is_digit c \<longleftrightarrow> 48 \<le> code c \<and> code c \<le> 57"

definition digits_value :: "string \<Rightarrow> nat" where
  "digits_value s = foldl (\<lambda>n c. n * 10 + (code c - 48)) 0 s"

datatype num_error = ErrSyntax | ErrRange

definition MaxInt64 :: int where
  "MaxInt64 = 2 ^ 63 - 1"

definition MinInt64 :: int where
  "MinInt64 = - (2 ^ 63)"

text \<open>\<open>strconv.ParseInt(s, 10, 64)\<close>, which is also \<open>strconv.Atoi\<close>: the value and the error. A text that
  is no number gives 0, one out of range the nearest bound.\<close>

definition parse_digits :: "int \<Rightarrow> string \<Rightarrow> int \<times> num_error option" where
  "parse_digits sg ds =
    (if ds = [] \<or> \<not> list_all is_digit ds then (0, Some ErrSyntax)
     else let v = sg * int (digits_value ds) in
       if v < MinInt64 then (MinInt64, Some ErrRange)
       else if MaxInt64 < v then (MaxInt64, Some ErrRange)
       else (v, None))"

definition ParseInt :: "string \<Rightarrow> int \<times> num_error option" where
  "ParseInt s = (case s of
     [] \<Rightarrow> (0, Some ErrSyntax)
   | c # cs \<Rightarrow> if c = CHR ''-'' then parse_digits (- 1) cs
               else if c = CHR ''+'' then parse_digits 1 cs
               else parse_digits 1 s)"

lemma code_lt [simp]: "code c < 256"
  by (simp add: code_def)

lemma code_inj: "code c = code d \<longleftrightarrow> c = d"
  by (simp add: code_def)

lemma code_char_of: "n < 256 \<Longrightarrow> code (char_of n) = n"
  by (simp add: code_def)

lemma is_digit_char_of: "n < 10 \<Longrightarrow> is_digit (char_of (48 + n :: nat))"
  by (simp add: is_digit_def code_def)

lemma format_nat_digits: "list_all is_digit (format_nat n) \<and> format_nat n \<noteq> []"
proof (induction n rule: format_nat.induct)
  case (1 n)
  then show ?case by (subst (1 2) format_nat.simps) (auto intro: is_digit_char_of)
qed

lemma digits_value_format_nat [simp]: "digits_value (format_nat n) = n"
proof (induction n rule: format_nat.induct)
  case (1 n)
  then show ?case
    by (subst format_nat.simps) (auto simp: digits_value_def code_def)
qed

lemma ParseInt_range: "MinInt64 \<le> fst (ParseInt s) \<and> fst (ParseInt s) \<le> MaxInt64"
  by (simp add: ParseInt_def parse_digits_def MinInt64_def MaxInt64_def Let_def split: list.split)

lemma ParseInt_format_nat:
  "int n \<le> MaxInt64 \<Longrightarrow> ParseInt (format_nat n) = (int n, None)"
proof -
  assume n: "int n \<le> MaxInt64"
  obtain c cs where f: "format_nat n = c # cs"
    using format_nat_digits [of n] by (cases "format_nat n") auto
  with format_nat_digits [of n] have "is_digit c" by simp
  then have "c \<noteq> CHR ''-''" "c \<noteq> CHR ''+''" by (auto simp: is_digit_def code_def)
  with f have "ParseInt (format_nat n) = parse_digits 1 (format_nat n)"
    by (simp add: ParseInt_def)
  with n format_nat_digits [of n] show ?thesis
    by (simp add: parse_digits_def MinInt64_def)
qed

section \<open>Runes (\<open>unicode/utf8\<close>)\<close>

definition byte_in :: "nat \<Rightarrow> nat \<Rightarrow> char \<Rightarrow> bool" where
  "byte_in lo hi c \<longleftrightarrow> lo \<le> code c \<and> code c \<le> hi"

text \<open>The size of the rune a string begins with; 0 when its bytes are not valid UTF-8.\<close>

definition rune_len :: "string \<Rightarrow> nat" where
  "rune_len s = (case s of [] \<Rightarrow> 0 | c # cs \<Rightarrow>
     if code c < 128 then 1
     else if byte_in 194 223 c then
       (case cs of d # _ \<Rightarrow> if byte_in 128 191 d then 2 else 0 | _ \<Rightarrow> 0)
     else if byte_in 224 239 c then
       (case cs of d # e # _ \<Rightarrow>
          if byte_in (if code c = 224 then 160 else 128) (if code c = 237 then 159 else 191) d \<and>
             byte_in 128 191 e
          then 3 else 0
        | _ \<Rightarrow> 0)
     else if byte_in 240 244 c then
       (case cs of d # e # f # _ \<Rightarrow>
          if byte_in (if code c = 240 then 144 else 128) (if code c = 244 then 143 else 191) d \<and>
             byte_in 128 191 e \<and> byte_in 128 191 f
          then 4 else 0
        | _ \<Rightarrow> 0)
     else 0)"

text \<open>\<open>utf8.AppendRune\<close>.\<close>

definition encode_rune :: "nat \<Rightarrow> string" where
  "encode_rune r =
    (if r < 128 then [char_of r]
     else if r < 2048 then [char_of (192 + r div 64), char_of (128 + r mod 64)]
     else if r < 65536 then
       [char_of (224 + r div 4096), char_of (128 + r div 64 mod 64), char_of (128 + r mod 64)]
     else [char_of (240 + r div 262144), char_of (128 + r div 4096 mod 64),
           char_of (128 + r div 64 mod 64), char_of (128 + r mod 64)])"

definition replacement :: string where
  "replacement = [CHR 0xEF, CHR 0xBF, CHR 0xBD]"

lemma rune_len_le: "rune_len s \<le> length s"
  by (auto simp: rune_len_def split: list.split)

lemma rune_len_ascii: "code c < 128 \<Longrightarrow> rune_len (c # cs) = Suc 0"
  by (simp add: rune_len_def)

text \<open>The size is decided by the bytes of the rune alone.\<close>

lemma string_cases4:
  fixes s :: string
  obtains "s = []" | c where "s = [c]" | c d where "s = [c, d]" | c d e where "s = [c, d, e]"
    | c d e f u where "s = c # d # e # f # u"
  by (metis list.exhaust)

lemma rune_len_append: "rune_len s \<noteq> 0 \<Longrightarrow> rune_len (s @ t) = rune_len s"
  by (cases s rule: string_cases4) (simp_all add: rune_len_def split: if_splits)

section \<open>JSON values and their text\<close>

text \<open>A number is kept as its literal.\<close>

datatype json =
  JNull | JBool bool | JNumber string | JString string
| JArray "json list" | JObject "(string \<times> json) list"

definition hex_digit :: "nat \<Rightarrow> char" where
  "hex_digit n = (if n < 10 then char_of (48 + n) else char_of (87 + n))"

text \<open>How the encoder writes a byte below 128: the HTML characters are escaped too.\<close>

definition escape_ascii :: "char \<Rightarrow> string" where
  "escape_ascii c =
    (if c = CHR 0x22 then [CHR 0x5C, CHR 0x22]
     else if c = CHR 0x5C then [CHR 0x5C, CHR 0x5C]
     else if c = CHR 0x08 then [CHR 0x5C, CHR ''b'']
     else if c = CHR 0x0C then [CHR 0x5C, CHR ''f'']
     else if c = CHR 0x0A then [CHR 0x5C, CHR ''n'']
     else if c = CHR 0x0D then [CHR 0x5C, CHR ''r'']
     else if c = CHR 0x09 then [CHR 0x5C, CHR ''t'']
     else if code c < 32 \<or> c = CHR ''<'' \<or> c = CHR ''>'' \<or> c = CHR ''&'' then
       [CHR 0x5C, CHR ''u'', CHR ''0'', CHR ''0'', hex_digit (code c div 16), hex_digit (code c mod 16)]
     else [c])"

definition line_separator :: string where
  "line_separator = [CHR 0xE2, CHR 0x80, CHR 0xA8]"

definition paragraph_separator :: string where
  "paragraph_separator = [CHR 0xE2, CHR 0x80, CHR 0xA9]"

function escape_string :: "string \<Rightarrow> string" where
  "escape_string [] = []"
| "escape_string (c # cs) =
    (let n = rune_len (c # cs) in
     if n = 0 then CHR 0x5C # ''ufffd'' @ escape_string cs
     else if n = 1 then escape_ascii c @ escape_string cs
     else let r = take n (c # cs) in
       (if r = line_separator then CHR 0x5C # ''u2028''
        else if r = paragraph_separator then CHR 0x5C # ''u2029'' else r) @
       escape_string (drop n (c # cs)))"
  by pat_completeness auto
termination
  by (relation "measure length") auto

declare escape_string.simps(2) [simp del]

definition quoted :: "string \<Rightarrow> string" where
  "quoted s = CHR 0x22 # escape_string s @ [CHR 0x22]"

fun json_text :: "json \<Rightarrow> string"
  and elements_text :: "json list \<Rightarrow> string"
  and members_text :: "(string \<times> json) list \<Rightarrow> string" where
  "json_text JNull = ''null''"
| "json_text (JBool b) = (if b then ''true'' else ''false'')"
| "json_text (JNumber t) = t"
| "json_text (JString s) = quoted s"
| "json_text (JArray vs) = CHR ''['' # elements_text vs @ [CHR '']'']"
| "json_text (JObject ms) = CHR ''{'' # members_text ms @ [CHR ''}'']"
| "elements_text [] = []"
| "elements_text [v] = json_text v"
| "elements_text (v # w # vs) = json_text v @ CHR '','' # elements_text (w # vs)"
| "members_text [] = []"
| "members_text [(k, v)] = quoted k @ CHR '':'' # json_text v"
| "members_text ((k, v) # m # ms) =
    quoted k @ CHR '':'' # json_text v @ CHR '','' # members_text (m # ms)"

text \<open>\<open>json.Marshal\<close> of a map with string keys sorts the keys.\<close>

definition sorted_members :: "(string \<times> 'v) list \<Rightarrow> (string \<times> 'v) list" where
  "sorted_members m = sort_key fst m"

section \<open>Parsing\<close>

definition is_ws :: "char \<Rightarrow> bool" where
  "is_ws c \<longleftrightarrow> c = CHR '' '' \<or> c = CHR 0x09 \<or> c = CHR 0x0A \<or> c = CHR 0x0D"

definition skip_ws :: "string \<Rightarrow> string" where
  "skip_ws s = dropWhile is_ws s"

subsection \<open>Numbers\<close>

text \<open>What is left after the number a string begins with; \<open>None\<close> when it begins with none.\<close>

definition skip_digits :: "string \<Rightarrow> string option" where
  "skip_digits s = (case s of [] \<Rightarrow> None
     | c # cs \<Rightarrow> if is_digit c then Some (dropWhile is_digit cs) else None)"

definition skip_exponent :: "string \<Rightarrow> string option" where
  "skip_exponent s = (case s of [] \<Rightarrow> Some []
     | c # cs \<Rightarrow> if c = CHR ''e'' \<or> c = CHR ''E'' then
         (case cs of [] \<Rightarrow> None
          | d # ds \<Rightarrow> skip_digits (if d = CHR ''+'' \<or> d = CHR ''-'' then ds else cs))
       else Some s)"

definition skip_fraction :: "string \<Rightarrow> string option" where
  "skip_fraction s = (case s of [] \<Rightarrow> Some []
     | c # cs \<Rightarrow> if c = CHR ''.'' then Option.bind (skip_digits cs) skip_exponent
                else skip_exponent s)"

definition skip_unsigned :: "string \<Rightarrow> string option" where
  "skip_unsigned s = (case s of [] \<Rightarrow> None
     | c # cs \<Rightarrow> if c = CHR ''0'' then skip_fraction cs
                else Option.bind (skip_digits s) skip_fraction)"

definition skip_number :: "string \<Rightarrow> string option" where
  "skip_number s = (case s of [] \<Rightarrow> None
     | c # cs \<Rightarrow> skip_unsigned (if c = CHR ''-'' then cs else s))"

subsection \<open>Strings\<close>

definition hex_value :: "char \<Rightarrow> nat option" where
  "hex_value c =
    (if is_digit c then Some (code c - 48)
     else if 97 \<le> code c \<and> code c \<le> 102 then Some (code c - 87)
     else if 65 \<le> code c \<and> code c \<le> 70 then Some (code c - 55)
     else None)"

definition hex4 :: "string \<Rightarrow> (nat \<times> string) option" where
  "hex4 s = (case s of a # b # c # d # r \<Rightarrow>
       (case (hex_value a, hex_value b, hex_value c, hex_value d) of
          (Some w, Some x, Some y, Some z) \<Rightarrow> Some (((w * 16 + x) * 16 + y) * 16 + z, r)
        | _ \<Rightarrow> None)
     | _ \<Rightarrow> None)"

text \<open>The low surrogate that would complete a pair.\<close>

definition low_surrogate :: "string \<Rightarrow> (nat \<times> string) option" where
  "low_surrogate s = (case s of b # u # r \<Rightarrow>
       if b = CHR 0x5C \<and> u = CHR ''u'' then
         (case hex4 r of Some (v, r') \<Rightarrow> if 0xDC00 \<le> v \<and> v < 0xE000 then Some (v, r') else None
          | None \<Rightarrow> None)
       else None
     | _ \<Rightarrow> None)"

datatype char_step = Bad | Close string | Chunk string string

definition unicode_escape :: "string \<Rightarrow> char_step" where
  "unicode_escape s = (case hex4 s of None \<Rightarrow> Bad
     | Some (v, r) \<Rightarrow>
         if 0xD800 \<le> v \<and> v < 0xE000 then
           (case low_surrogate r of
              Some (w, r') \<Rightarrow>
                if v < 0xDC00
                then Chunk (encode_rune ((v - 0xD800) * 1024 + (w - 0xDC00) + 0x10000)) r'
                else Chunk replacement r
            | None \<Rightarrow> Chunk replacement r)
         else Chunk (encode_rune v) r)"

definition escape_step :: "string \<Rightarrow> char_step" where
  "escape_step s = (case s of [] \<Rightarrow> Bad
     | c # r \<Rightarrow>
         if c = CHR 0x22 \<or> c = CHR 0x5C \<or> c = CHR ''/'' then Chunk [c] r
         else if c = CHR ''b'' then Chunk [CHR 0x08] r
         else if c = CHR ''f'' then Chunk [CHR 0x0C] r
         else if c = CHR ''n'' then Chunk [CHR 0x0A] r
         else if c = CHR ''r'' then Chunk [CHR 0x0D] r
         else if c = CHR ''t'' then Chunk [CHR 0x09] r
         else if c = CHR ''u'' then unicode_escape r
         else Bad)"

definition string_step :: "string \<Rightarrow> char_step" where
  "string_step s = (case s of [] \<Rightarrow> Bad
     | c # cs \<Rightarrow>
         if c = CHR 0x22 then Close cs
         else if c = CHR 0x5C then escape_step cs
         else if code c < 32 then Bad
         else let n = rune_len s in
           if n = 0 then Chunk replacement cs else Chunk (take n s) (drop n s))"

lemma hex4_length: "hex4 s = Some (v, r) \<Longrightarrow> length r < length s"
  by (auto simp: hex4_def split: list.splits option.splits)

lemma low_surrogate_length: "low_surrogate s = Some (v, r) \<Longrightarrow> length r < length s"
  by (auto simp: low_surrogate_def dest!: hex4_length split: list.splits if_splits option.splits)

lemma unicode_escape_length: "unicode_escape s = Chunk a r \<Longrightarrow> length r < length s"
  by (auto simp: unicode_escape_def dest!: hex4_length low_surrogate_length
      split: if_splits option.splits)

lemma escape_step_length: "escape_step s = Chunk a r \<Longrightarrow> length r < length s"
  by (auto simp: escape_step_def dest!: unicode_escape_length split: list.splits if_splits)

lemma string_step_length: "string_step s = Chunk a r \<Longrightarrow> length r < length s"
  by (auto simp: string_step_def Let_def dest!: escape_step_length split: list.splits if_splits)

lemma string_step_Close: "string_step s = Close r \<Longrightarrow> length r < length s"
  by (auto simp: string_step_def Let_def escape_step_def unicode_escape_def
      split: list.splits if_splits option.splits)

text \<open>The rest of a string literal after its opening quote: the value and what follows.\<close>

function read_string :: "string \<Rightarrow> (string \<times> string) option" where
  "read_string s = (case string_step s of
     Bad \<Rightarrow> None
   | Close r \<Rightarrow> Some ([], r)
   | Chunk a r \<Rightarrow> map_option (\<lambda>(b, r'). (a @ b, r')) (read_string r))"
  by pat_completeness auto
termination
  by (relation "measure length") (auto dest: string_step_length)

declare read_string.simps [simp del]

lemma read_string_length: "read_string s = Some (a, r) \<Longrightarrow> length r < length s"
proof (induction s arbitrary: a r rule: read_string.induct)
  case (1 s)
  show ?case
  proof (cases "string_step s")
    case (Chunk b r')
    with 1 string_step_length [OF Chunk] show ?thesis
      by (fastforce simp: read_string.simps [of s])
  qed (use 1 in \<open>auto simp: read_string.simps [of s] dest: string_step_Close\<close>)
qed

subsection \<open>Values\<close>

text \<open>\<open>maxNestingDepth\<close> of \<open>encoding/json\<close>.\<close>

definition maxNestingDepth :: nat where
  "maxNestingDepth = 10000"

definition literal :: "string \<Rightarrow> json \<Rightarrow> string \<Rightarrow> (json \<times> string) option" where
  "literal w v s = (if HasPrefix s w then Some (v, drop (length w) s) else None)"

definition number :: "string \<Rightarrow> (json \<times> string) option" where
  "number s = map_option (\<lambda>r. (JNumber (take (length s - length r) s), r)) (skip_number s)"

text \<open>
  \<open>parse_value fuel depth s\<close>: the value \<open>s\<close> begins with and what follows it. A member of an object
  comes with the text of its value, which a \<open>json.RawMessage\<close> keeps.
\<close>

fun parse_value :: "nat \<Rightarrow> nat \<Rightarrow> string \<Rightarrow> (json \<times> string) option"
  and parse_elements :: "nat \<Rightarrow> nat \<Rightarrow> string \<Rightarrow> (json list \<times> string) option"
  and parse_members :: "nat \<Rightarrow> nat \<Rightarrow> string \<Rightarrow> ((string \<times> string \<times> json) list \<times> string) option"
where
  "parse_value 0 d s = None"
| "parse_value (Suc n) d s = (case skip_ws s of [] \<Rightarrow> None
     | c # cs \<Rightarrow>
         if c = CHR 0x22 then map_option (\<lambda>(a, r). (JString a, r)) (read_string cs)
         else if c = CHR ''['' then
           (if maxNestingDepth \<le> d then None
            else if HasPrefix (skip_ws cs) '']'' then Some (JArray [], tl (skip_ws cs))
            else map_option (\<lambda>(vs, r). (JArray vs, r)) (parse_elements n (Suc d) cs))
         else if c = CHR ''{'' then
           (if maxNestingDepth \<le> d then None
            else if HasPrefix (skip_ws cs) ''}'' then Some (JObject [], tl (skip_ws cs))
            else map_option (\<lambda>(ms, r). (JObject (map (\<lambda>(k, _, v). (k, v)) ms), r))
                   (parse_members n (Suc d) cs))
         else if c = CHR ''t'' then literal ''true'' (JBool True) (c # cs)
         else if c = CHR ''f'' then literal ''false'' (JBool False) (c # cs)
         else if c = CHR ''n'' then literal ''null'' JNull (c # cs)
         else number (c # cs))"
| "parse_elements 0 d s = None"
| "parse_elements (Suc n) d s = (case parse_value n d s of None \<Rightarrow> None
     | Some (v, r) \<Rightarrow> (case skip_ws r of [] \<Rightarrow> None
         | c # cs \<Rightarrow>
             if c = CHR '','' then map_option (\<lambda>(vs, r'). (v # vs, r')) (parse_elements n d cs)
             else if c = CHR '']'' then Some ([v], cs) else None))"
| "parse_members 0 d s = None"
| "parse_members (Suc n) d s = (case skip_ws s of [] \<Rightarrow> None
     | q # t \<Rightarrow> if q \<noteq> CHR 0x22 then None else (case read_string t of None \<Rightarrow> None
         | Some (k, r1) \<Rightarrow> (case skip_ws r1 of [] \<Rightarrow> None
             | l # r2 \<Rightarrow> if l \<noteq> CHR '':'' then None else (case parse_value n d r2 of None \<Rightarrow> None
                 | Some (v, r3) \<Rightarrow> (let raw = take (length (skip_ws r2) - length r3) (skip_ws r2) in
                     case skip_ws r3 of [] \<Rightarrow> None
                     | c # cs \<Rightarrow>
                         if c = CHR '','' then
                           map_option (\<lambda>(ms, r'). ((k, raw, v) # ms, r')) (parse_members n d cs)
                         else if c = CHR ''}'' then Some ([(k, raw, v)], cs) else None)))))"

subsection \<open>The fuel is enough\<close>

lemma skip_ws_length: "length (skip_ws s) \<le> length s"
  by (simp add: skip_ws_def length_dropWhile_le)

lemma skip_ws_Cons: "skip_ws s = c # cs \<Longrightarrow> length cs < length s"
  using skip_ws_length [of s] by simp

lemma skip_digits_length: "skip_digits s = Some r \<Longrightarrow> length r < length s"
  by (auto simp: skip_digits_def le_imp_less_Suc length_dropWhile_le split: list.splits if_splits)

lemma skip_exponent_length: "skip_exponent s = Some r \<Longrightarrow> length r \<le> length s"
  by (auto simp: skip_exponent_def dest!: skip_digits_length split: list.splits if_splits)

lemma skip_fraction_length: "skip_fraction s = Some r \<Longrightarrow> length r \<le> length s"
  by (auto simp: skip_fraction_def bind_eq_Some_conv
      dest!: skip_digits_length skip_exponent_length split: list.splits if_splits)

lemma skip_unsigned_length: "skip_unsigned s = Some r \<Longrightarrow> length r < length s"
  by (auto simp: skip_unsigned_def bind_eq_Some_conv
      dest!: skip_digits_length skip_fraction_length split: list.splits if_splits)

lemma skip_number_length: "skip_number s = Some r \<Longrightarrow> length r < length s"
  by (auto simp: skip_number_def dest!: skip_unsigned_length split: list.splits if_splits)

lemma literal_length: "w \<noteq> [] \<Longrightarrow> literal w v s = Some (x, r) \<Longrightarrow> length r < length s"
  by (auto simp: literal_def HasPrefix_iff split: if_splits)

lemma number_length: "number s = Some (x, r) \<Longrightarrow> length r < length s"
  by (auto simp: number_def dest: skip_number_length)

lemma tl_skip_ws_length: "HasPrefix (skip_ws s) [c] \<Longrightarrow> length (tl (skip_ws s)) < length s"
  using skip_ws_length [of s] by (cases "skip_ws s") auto

lemma parse_length:
  "parse_value n d s = Some (v, r) \<Longrightarrow> length r < length s"
  "parse_elements n d s = Some (vs, r) \<Longrightarrow> length r < length s"
  "parse_members n d s = Some (ms, r) \<Longrightarrow> length r < length s"
proof (induction n d s and n d s and n d s arbitrary: v r and vs r and ms r
    rule: parse_value_parse_elements_parse_members.induct)
  case (2 n d s)
  then obtain c cs where s: "skip_ws s = c # cs"
    by (cases "skip_ws s") auto
  note 2(3) [unfolded parse_value.simps s list.case]
  then show ?case
    using skip_ws_Cons [OF s] skip_ws_length [of s] tl_skip_ws_length [of cs]
      2(1) [OF s] 2(2) [OF s] s
    by (auto simp del: HasPrefix.simps split: if_splits
        dest!: read_string_length literal_length [rotated] number_length) fastforce+
next
  case (4 n d s)
  then show ?case
    by (auto split: option.splits list.splits if_splits dest!: skip_ws_Cons) fastforce+
next
  case (6 n d s)
  then show ?case
    by (auto simp: Let_def split: option.splits list.splits if_splits
        dest!: skip_ws_Cons read_string_length) fastforce+
qed simp_all

text \<open>Two fuels above the bound give the same result: the fuel never decides.\<close>

lemma parse_fuel_irrelevant:
  "(2 * length s < n \<longrightarrow> 2 * length s < m \<longrightarrow> parse_value n d s = parse_value m d s) \<and>
   (2 * length s + 1 < n \<longrightarrow> 2 * length s + 1 < m \<longrightarrow> parse_elements n d s = parse_elements m d s) \<and>
   (2 * length s < n \<longrightarrow> 2 * length s < m \<longrightarrow> parse_members n d s = parse_members m d s)"
proof (induction n arbitrary: m d s)
  case (Suc n)
  show ?case
  proof (cases m)
    case m: (Suc k)
    have val: "parse_value (Suc n) d s = parse_value (Suc k) d s"
      if a: "2 * length s < Suc n" "2 * length s < Suc k"
    proof (cases "skip_ws s")
      case (Cons c cs)
      then have "2 * length cs + 1 < n" "2 * length cs + 1 < k"
        using skip_ws_Cons [OF Cons] a by linarith+
      with Suc.IH [of cs k "Suc d"] Cons show ?thesis by simp
    qed simp
    have elems: "parse_elements (Suc n) d s = parse_elements (Suc k) d s"
      if a: "2 * length s + 1 < Suc n" "2 * length s + 1 < Suc k"
    proof -
      have v: "parse_value n d s = parse_value k d s"
        using Suc.IH [of s k d] a by simp
      have "parse_elements n d cs = parse_elements k d cs"
        if "parse_value k d s = Some (x, r)" and "skip_ws r = c # cs" for x r c cs
        using Suc.IH [of cs k d] a parse_length(1) [OF that(1)] skip_ws_Cons [OF that(2)] by simp
      with v show ?thesis by (simp split: option.split list.split)
    qed
    have mems: "parse_members (Suc n) d s = parse_members (Suc k) d s"
      if a: "2 * length s < Suc n" "2 * length s < Suc k"
    proof -
      have v: "parse_value n d r2 = parse_value k d r2 \<and> length r2 + 2 < length s"
        if "skip_ws s = q # t" "read_string t = Some (x, r1)" "skip_ws r1 = l # r2" for q t x r1 l r2
        using Suc.IH [of r2 k d] a skip_ws_Cons [OF that(1)] read_string_length [OF that(2)]
          skip_ws_Cons [OF that(3)] by simp
      have "parse_members n d cs = parse_members k d cs"
        if "skip_ws s = q # t" "read_string t = Some (x, r1)" "skip_ws r1 = l # r2"
          "parse_value k d r2 = Some (y, r3)" "skip_ws r3 = c # cs" for q t x r1 l r2 y r3 c cs
        using Suc.IH [of cs k d] a v [OF that(1-3)] parse_length(1) [OF that(4)]
          skip_ws_Cons [OF that(5)] by simp
      with v show ?thesis by (simp add: Let_def split: option.split list.split)
    qed
    show ?thesis using m val elems mems by blast
  qed auto
qed simp

lemma parse_fuel_enough:
  "2 * length s < n \<Longrightarrow> parse_value n d s = parse_value (2 * length s + 1) d s"
  "2 * length s < n \<Longrightarrow> parse_members n d s = parse_members (2 * length s + 1) d s"
  using parse_fuel_irrelevant [of s n "2 * length s + 1" d] by simp_all

section \<open>Parsing undoes writing\<close>

subsection \<open>Strings\<close>

function valid_utf8 :: "string \<Rightarrow> bool" where
  "valid_utf8 s =
    (if s = [] then True else if rune_len s = 0 then False else valid_utf8 (drop (rune_len s) s))"
  by pat_completeness auto
termination
  by (relation "measure length") auto

declare valid_utf8.simps [simp del]

lemma valid_utf8_Nil [simp]: "valid_utf8 []"
  by (simp add: valid_utf8.simps)

lemma valid_utf8_ascii: "list_all (\<lambda>c. code c < 128) s \<Longrightarrow> valid_utf8 s"
proof (induction s)
  case (Cons c s)
  then have "rune_len (c # s) = 1" "valid_utf8 s" by (simp_all add: rune_len_ascii)
  then show ?case by (subst valid_utf8.simps) simp
qed simp

lemma rune_len_take: "rune_len (take (rune_len s) s) = rune_len s"
  by (cases s rule: string_cases4) (simp_all add: rune_len_def)

lemma rune_len_high: "1 < rune_len (c # cs) \<Longrightarrow> 128 \<le> code c"
  by (simp add: rune_len_def split: if_splits)

lemma hex_value_digit: "n < 16 \<Longrightarrow> hex_value (hex_digit n) = Some n"
  by (auto simp: hex_value_def hex_digit_def is_digit_def code_char_of)

lemma code_special:
  "code c < 32 \<or> c = CHR ''<'' \<or> c = CHR ''>'' \<or> c = CHR ''&'' \<Longrightarrow> code c < 128"
  by (auto simp: code_def)

lemma hex4_byte:
  "code c < 128 \<Longrightarrow>
   hex4 (CHR ''0'' # CHR ''0'' # hex_digit (code c div 16) # hex_digit (code c mod 16) # t) =
     Some (code c, t)"
proof -
  assume c: "code c < 128"
  have z: "hex_value (CHR ''0'') = Some 0" by (simp add: hex_value_def is_digit_def code_def)
  show ?thesis using c z by (simp add: hex4_def hex_value_digit)
qed

lemma string_step_ascii:
  assumes c: "code c < 128"
  shows "string_step (escape_ascii c @ t) = Chunk [c] t"
proof -
  have u: "unicode_escape (CHR ''0'' # CHR ''0'' # hex_digit (code c div 16) #
      hex_digit (code c mod 16) # t) = Chunk [c] t"
    using c by (simp add: unicode_escape_def hex4_byte encode_rune_def) (simp add: code_def)
  have plain: "string_step (c # t) = Chunk [c] t"
    if "c \<noteq> CHR 0x22" "c \<noteq> CHR 0x5C" "\<not> code c < 32"
    using that c by (simp add: string_step_def rune_len_ascii)
  show ?thesis
    using u plain
    by (auto simp: escape_ascii_def string_step_def [of "CHR 0x5C # s" for s] escape_step_def)
qed

definition escape_rune :: "string \<Rightarrow> string" where
  "escape_rune r = (if r = line_separator then CHR 0x5C # ''u2028''
     else if r = paragraph_separator then CHR 0x5C # ''u2029'' else r)"

lemma encode_separators:
  "encode_rune 8232 = line_separator" "encode_rune 8233 = paragraph_separator"
  by (simp_all add: encode_rune_def line_separator_def paragraph_separator_def char_of_def bit_0)

lemma string_step_separators:
  "string_step (CHR 0x5C # ''u2028'' @ t) = Chunk line_separator t"
  "string_step (CHR 0x5C # ''u2029'' @ t) = Chunk paragraph_separator t"
  by (simp_all add: string_step_def escape_step_def unicode_escape_def hex4_def hex_value_def
      is_digit_def code_def encode_separators)

lemma string_step_rune:
  assumes n: "1 < rune_len s"
  shows "string_step (escape_rune (take (rune_len s) s) @ t) = Chunk (take (rune_len s) s) t"
proof -
  let ?r = "take (rune_len s) s"
  have len: "rune_len (?r @ t) = rune_len s" "length ?r = rune_len s"
    using n rune_len_append [of ?r t] rune_len_le [of s] by (simp_all add: rune_len_take)
  obtain c cs where r: "?r = c # cs" using len(2) n by (cases ?r) auto
  then have split: "take (rune_len s) (c # cs @ t) = c # cs" "drop (rune_len s) (c # cs @ t) = t"
    using len(2) by (auto simp: take_Cons' drop_Cons' dest: sym)
  from r have "128 \<le> code c" using n rune_len_take [of s] rune_len_high [of c cs] by simp
  then have plain: "string_step (?r @ t) = Chunk ?r t"
    using r n len split by (auto simp: string_step_def code_def Let_def)
  with string_step_separators [of t] show ?thesis
    by (cases "?r = line_separator \<or> ?r = paragraph_separator") (auto simp: escape_rune_def)
qed

lemma escape_string_Cons:
  "rune_len (c # cs) \<noteq> 0 \<Longrightarrow> escape_string (c # cs) =
     (if rune_len (c # cs) = 1 then escape_ascii c else escape_rune (take (rune_len (c # cs)) (c # cs)))
     @ escape_string (drop (rune_len (c # cs)) (c # cs))"
  by (simp add: escape_string.simps escape_rune_def Let_def)

lemma rune_len_1: "rune_len (c # cs) = Suc 0 \<Longrightarrow> code c < 128"
  by (auto simp: rune_len_def split: if_splits list.splits)

lemma string_step_escape:
  assumes "rune_len (c # cs) \<noteq> 0"
  shows "string_step (escape_string (c # cs) @ t) = Chunk (take (rune_len (c # cs)) (c # cs))
     (escape_string (drop (rune_len (c # cs)) (c # cs)) @ t)"
proof (cases "rune_len (c # cs) = 1")
  case True
  with rune_len_1 [of c cs] show ?thesis
    by (simp add: escape_string_Cons string_step_ascii)
next
  case False
  with assms have "1 < rune_len (c # cs)" by linarith
  with assms False string_step_rune [OF this] show ?thesis
    by (simp add: escape_string_Cons del: take_Cons drop_Cons)
qed

lemma read_string_escape:
  "valid_utf8 s \<Longrightarrow> read_string (escape_string s @ CHR 0x22 # rest) = Some (s, rest)"
proof (induction s rule: valid_utf8.induct)
  case (1 s)
  show ?case
  proof (cases s)
    case Nil
    then show ?thesis by (simp add: read_string.simps [of "CHR 0x22 # rest"] string_step_def)
  next
    case (Cons c cs)
    with 1(2) have n: "rune_len (c # cs) \<noteq> 0" and v: "valid_utf8 (drop (rune_len s) s)"
      by (simp_all add: valid_utf8.simps [of "c # cs"] split: if_splits)
    have "read_string (escape_string (drop (rune_len s) s) @ CHR 0x22 # rest) =
        Some (drop (rune_len s) s, rest)"
      using 1(1) [OF _ _ v] Cons n by blast
    then show ?thesis
      using Cons by (subst read_string.simps) (simp add: string_step_escape [OF n] del: take_Cons drop_Cons)
  qed
qed

subsection \<open>Literals of numbers\<close>

text \<open>What follows a value inside an array, inside an object or at the end of the input.\<close>

definition stops :: "string \<Rightarrow> bool" where
  "stops s \<longleftrightarrow> s = [] \<or> hd s = CHR '','' \<or> hd s = CHR '']'' \<or> hd s = CHR ''}''"

definition number_ok :: "string \<Rightarrow> bool" where
  "number_ok t \<longleftrightarrow> skip_number t = Some []"

lemma stops_cases:
  assumes "stops s"
  obtains "s = []" | c cs where "s = c # cs" "\<not> is_digit c" "c \<notin> {CHR ''e'', CHR ''E'', CHR ''.''}"
  using assms by (cases s) (auto simp: stops_def is_digit_def code_def)

lemma dropWhile_digit_append:
  "stops rest \<Longrightarrow> dropWhile is_digit (s @ rest) = dropWhile is_digit s @ rest"
  by (erule stops_cases) (induction s; auto)+

lemma skip_digits_append:
  "skip_digits s = Some r \<Longrightarrow> stops rest \<Longrightarrow> skip_digits (s @ rest) = Some (r @ rest)"
  by (auto simp: skip_digits_def dropWhile_digit_append split: list.splits if_splits)

lemma skip_exponent_stops: "stops rest \<Longrightarrow> skip_exponent rest = Some rest"
  by (erule stops_cases) (simp_all add: skip_exponent_def)

lemma skip_exponent_append:
  "skip_exponent s = Some r \<Longrightarrow> stops rest \<Longrightarrow> skip_exponent (s @ rest) = Some (r @ rest)"
  using skip_digits_append [of "tl s" r rest] skip_digits_append [of "tl (tl s)" r rest]
  by (cases s; cases "tl s")
    (auto simp: skip_exponent_stops, auto simp: skip_exponent_def split: if_splits)

lemma skip_fraction_stops: "stops rest \<Longrightarrow> skip_fraction rest = Some rest"
  by (erule stops_cases) (simp_all add: skip_fraction_def skip_exponent_def)

lemma skip_fraction_append:
  assumes "skip_fraction s = Some r" and st: "stops rest"
  shows "skip_fraction (s @ rest) = Some (r @ rest)"
proof (cases s)
  case Nil
  with assms skip_fraction_stops [of rest] show ?thesis by (simp add: skip_fraction_def [of "[]"])
next
  case (Cons c cs)
  show ?thesis
  proof (cases "c = CHR ''.''")
    case True
    with assms(1) Cons obtain u where "skip_digits cs = Some u" "skip_exponent u = Some r"
      by (auto simp: skip_fraction_def bind_eq_Some_conv)
    with True Cons skip_digits_append [OF _ st] skip_exponent_append [OF _ st] show ?thesis
      by (simp add: skip_fraction_def)
  next
    case False
    with assms(1) Cons skip_exponent_append [OF _ st, of s r] show ?thesis
      by (simp add: skip_fraction_def)
  qed
qed

lemma skip_unsigned_append:
  "skip_unsigned s = Some r \<Longrightarrow> stops rest \<Longrightarrow> skip_unsigned (s @ rest) = Some (r @ rest)"
  using skip_digits_append [of s] by (cases s)
    (auto simp: skip_unsigned_def skip_fraction_append bind_eq_Some_conv split: if_splits)

lemma skip_number_append:
  "skip_number s = Some r \<Longrightarrow> stops rest \<Longrightarrow> skip_number (s @ rest) = Some (r @ rest)"
  using skip_unsigned_append [of s r rest] by (cases s)
    (auto simp: skip_number_def skip_unsigned_append split: if_splits)

lemma number_append:
  "number_ok t \<Longrightarrow> stops rest \<Longrightarrow> number (t @ rest) = Some (JNumber t, rest)"
  by (auto simp: number_ok_def number_def dest: skip_number_append)

lemma number_ok_first: "number_ok t \<Longrightarrow> \<exists>c cs. t = c # cs \<and> (is_digit c \<or> c = CHR ''-'')"
  by (cases t) (auto simp: number_ok_def skip_number_def skip_unsigned_def skip_digits_def
      is_digit_def code_def split: if_splits)


subsection \<open>Values\<close>

fun json_ok :: "json \<Rightarrow> bool" where
  "json_ok JNull = True"
| "json_ok (JBool b) = True"
| "json_ok (JNumber t) = number_ok t"
| "json_ok (JString s) = valid_utf8 s"
| "json_ok (JArray vs) = list_all json_ok vs"
| "json_ok (JObject ms) = list_all (\<lambda>(k, v). valid_utf8 k \<and> json_ok v) ms"

text \<open>A value that may stand at a nesting depth.\<close>

fun fits :: "nat \<Rightarrow> json \<Rightarrow> bool" where
  "fits d (JArray vs) = (d < maxNestingDepth \<and> list_all (fits (Suc d)) vs)"
| "fits d (JObject ms) = (d < maxNestingDepth \<and> list_all (\<lambda>(k, v). fits (Suc d) v) ms)"
| "fits d v = True"

lemma digit_or_minus:
  "is_digit c \<or> c = CHR ''-'' \<Longrightarrow>
   \<not> is_ws c \<and> c \<notin> {CHR '']'', CHR 0x22, CHR ''['', CHR ''{'', CHR ''t'', CHR ''f'', CHR ''n''}"
  by (auto simp: is_ws_def is_digit_def code_def)

lemma json_text_first:
  assumes "json_ok j"
  obtains c cs where "json_text j = c # cs" "\<not> is_ws c" "c \<noteq> CHR '']''"
proof (cases j)
  case (JNumber t)
  with assms number_ok_first [of t] obtain c cs
    where t: "t = c # cs" and "is_digit c \<or> c = CHR ''-''" by auto
  with digit_or_minus [of c] JNumber show ?thesis by (intro that [of c cs]) auto
next
  case (JBool b)
  with that show ?thesis by (cases b) (auto simp: is_ws_def)
qed (use that in \<open>auto simp: is_ws_def quoted_def\<close>)

lemma skip_ws_json_text: "json_ok j \<Longrightarrow> skip_ws (json_text j @ t) = json_text j @ t"
  by (erule json_text_first [of j]) (simp add: skip_ws_def)

lemma skip_ws_no: "\<not> is_ws c \<Longrightarrow> skip_ws (c # cs) = c # cs"
  by (simp add: skip_ws_def)

lemma ws_punctuation [simp]:
  "\<not> is_ws (CHR '','')" "\<not> is_ws (CHR '']'')" "\<not> is_ws (CHR ''}'')" "\<not> is_ws (CHR '':'')"
  "\<not> is_ws (CHR 0x22)" "\<not> is_ws (CHR ''{'')" "\<not> is_ws (CHR ''['')"
  "\<not> is_ws (CHR ''n'')" "\<not> is_ws (CHR ''t'')" "\<not> is_ws (CHR ''f'')"
  by (simp_all add: is_ws_def)

lemma stops_punctuation [simp]:
  "stops []" "stops (CHR '','' # s)" "stops (CHR '']'' # s)" "stops (CHR ''}'' # s)"
  by (simp_all add: stops_def)

lemma parse_number_text:
  assumes "number_ok t" and "stops rest"
  shows "parse_value (Suc n) d (t @ rest) = Some (JNumber t, rest)"
proof -
  obtain c cs where t: "t = c # cs" and c: "is_digit c \<or> c = CHR ''-''"
    using number_ok_first [OF assms(1)] by blast
  with digit_or_minus [OF c] number_append [OF assms] show ?thesis by (simp add: skip_ws_no)
qed

lemma elements_no_bracket:
  "json_ok v \<Longrightarrow> \<not> HasPrefix (skip_ws (elements_text (v # vs) @ t)) '']''"
  by (erule json_text_first [of v], cases vs) (simp_all add: skip_ws_no)

lemma members_no_brace: "\<not> HasPrefix (skip_ws (members_text (m # ms) @ t)) ''}''"
  by (cases m; cases ms) (simp_all add: skip_ws_no quoted_def)

text \<open>
  The text of a value, of the elements of an array and of the members of an object, each followed
  by what may follow it, is read back, with any fuel above the bound.
\<close>

lemma parse_text_all:
  "json_ok j \<Longrightarrow> fits d j \<Longrightarrow> stops rest \<Longrightarrow>
   2 * length (json_text j @ rest) < n \<Longrightarrow> parse_value n d (json_text j @ rest) = Some (j, rest)"
  "vs \<noteq> [] \<Longrightarrow> list_all (\<lambda>v. json_ok v \<and> fits d v) vs \<Longrightarrow>
   2 * length (elements_text vs @ CHR '']'' # rest) + 1 < n \<Longrightarrow>
   parse_elements n d (elements_text vs @ CHR '']'' # rest) = Some (vs, rest)"
  "ms \<noteq> [] \<Longrightarrow>
   list_all (\<lambda>(k, v). valid_utf8 k \<and> json_ok v \<and> fits d v) ms \<Longrightarrow>
   2 * length (members_text ms @ CHR ''}'' # rest) < n \<Longrightarrow>
   parse_members n d (members_text ms @ CHR ''}'' # rest) =
     Some (map (\<lambda>(k, v). (k, json_text v, v)) ms, rest)"
proof (induction j and vs and ms arbitrary: n d rest and n d rest and n d rest
    rule: json_text_elements_text_members_text.induct)
  case 1
  then show ?case by (cases n) (auto simp: skip_ws_no literal_def)
next
  case (2 b)
  then show ?case by (cases b; cases n) (auto simp: skip_ws_no literal_def)
next
  case (3 t)
  then show ?case using parse_number_text [of t rest "n - 1" d] by (cases n) auto
next
  case (4 s)
  then show ?case
    by (cases n) (auto simp: quoted_def skip_ws_no read_string_escape)
next
  case (5 vs)
  show ?case
  proof (cases vs)
    case Nil
    with 5 show ?thesis by (cases n) (auto simp: skip_ws_no)
  next
    case (Cons v ws)
    from 5(2) Cons have v: "json_ok v" by simp
    have "\<not> HasPrefix (skip_ws (elements_text vs @ CHR '']'' # rest)) '']''"
      using elements_no_bracket [OF v] Cons by simp
    moreover have "parse_elements k (Suc d) (elements_text vs @ CHR '']'' # rest) = Some (vs, rest)"
      if "n = Suc k" for k
      using 5(2-5) Cons that by (intro 5(1)) (auto simp: list_all_iff)
    ultimately show ?thesis using 5(3,5) by (cases n) (simp_all add: skip_ws_no)
  qed
next
  case (6 ms)
  show ?case
  proof (cases ms)
    case Nil
    with 6 show ?thesis by (cases n) (auto simp: skip_ws_no)
  next
    case (Cons m ns)
    have "\<not> HasPrefix (skip_ws (members_text ms @ CHR ''}'' # rest)) ''}''"
      using members_no_brace [of m] Cons by simp
    moreover have "parse_members k (Suc d) (members_text ms @ CHR ''}'' # rest) =
        Some (map (\<lambda>(k, v). (k, json_text v, v)) ms, rest)"
      if "n = Suc k" for k
      using 6(2-5) Cons that by (intro 6(1)) (auto simp: list_all_iff)
    ultimately show ?thesis using 6(3,5)
      by (cases n) (simp_all add: skip_ws_no comp_def case_prod_unfold)
  qed
next
  case (8 v)
  have "parse_value k d (json_text v @ CHR '']'' # rest) = Some (v, CHR '']'' # rest)"
    if "n = Suc k" for k
    using 8(2-4) that by (intro 8(1)) auto
  then show ?case using 8(4) by (cases n) (simp_all add: skip_ws_no)
next
  case (9 v w vs)
  let ?t = "elements_text (w # vs) @ CHR '']'' # rest"
  have "parse_value k d (json_text v @ CHR '','' # ?t) = Some (v, CHR '','' # ?t)"
    "parse_elements k d ?t = Some (w # vs, rest)"
    if "n = Suc k" for k
    using 9(3-5) that by (intro 9(1), auto)[1] (use 9(3-5) that in \<open>intro 9(2); simp\<close>)
  then show ?case using 9(5) by (cases n) (simp_all add: skip_ws_no)
next
  case (11 k v)
  have "parse_value m d (json_text v @ CHR ''}'' # rest) = Some (v, CHR ''}'' # rest)"
    if "n = Suc m" for m
    using 11(3-4) that by (intro 11(1)) auto
  then show ?case using 11(3-4)
    by (cases n) (simp_all add: skip_ws_no quoted_def read_string_escape skip_ws_json_text)
next
  case (12 k v m ms)
  let ?t = "members_text (m # ms) @ CHR ''}'' # rest"
  have "parse_value l d (json_text v @ CHR '','' # ?t) = Some (v, CHR '','' # ?t)"
    "parse_members l d ?t = Some (map (\<lambda>(k, v). (k, json_text v, v)) (m # ms), rest)"
    if "n = Suc l" for l
    using 12(4-5) that by (intro 12(1), auto)[1] (use 12(4-5) that in \<open>intro 12(2); simp\<close>)
  then show ?case using 12(4-5)
    by (cases n) (simp_all add: skip_ws_no quoted_def read_string_escape skip_ws_json_text)
qed simp_all

section \<open>Decoding into a struct\<close>

text \<open>
  The first value of the input, and what follows it. An object is kept with the texts of its
  members' values.
\<close>

datatype document =
  Doc_object "(string \<times> string \<times> json) list"
| Doc_value json

definition parse_fuel :: "string \<Rightarrow> nat" where
  "parse_fuel s = 2 * length s + 1"

definition read_document :: "string \<Rightarrow> (document \<times> string) option" where
  "read_document s =
    (if HasPrefix (skip_ws s) ''{'' then
       (let t = tl (skip_ws s) in
        if HasPrefix (skip_ws t) ''}'' then Some (Doc_object [], tl (skip_ws t))
        else map_option (\<lambda>(ms, r). (Doc_object ms, r)) (parse_members (parse_fuel t) 1 t))
     else map_option (\<lambda>(v, r). (Doc_value v, r)) (parse_value (parse_fuel s) 0 s))"

text \<open>
  A field of a struct: its name and how it takes a value, given as text and parsed. \<open>None\<close> is an
  error of types: the decoder keeps the first of them and goes on with the next member.
\<close>

type_synonym 'r field = "string \<times> (string \<Rightarrow> json \<Rightarrow> 'r \<Rightarrow> 'r option)"

definition find_field :: "'r field list \<Rightarrow> string \<Rightarrow> 'r field option" where
  "find_field fs k = List.find (\<lambda>f. EqualFold (fst f) k) fs"

definition store_member ::
  "'r field list \<Rightarrow> string \<times> string \<times> json \<Rightarrow> 'r \<times> bool \<Rightarrow> 'r \<times> bool" where
  "store_member fs m st = (case m of (k, raw, v) \<Rightarrow> case find_field fs k of
     None \<Rightarrow> st
   | Some f \<Rightarrow> (case snd f raw v (fst st) of
       Some r \<Rightarrow> (r, snd st) | None \<Rightarrow> (fst st, False)))"

definition store_document :: "'r field list \<Rightarrow> document \<Rightarrow> 'r \<Rightarrow> 'r \<times> bool" where
  "store_document fs d r = (case d of
     Doc_object ms \<Rightarrow> fold (store_member fs) ms (r, True)
   | Doc_value v \<Rightarrow> (r, v = JNull))"

text \<open>\<open>json.NewDecoder(s).Decode(&r)\<close>: what follows the first value is left unread. The result is
  the struct and whether there was no error.\<close>

definition Decode_struct :: "'r field list \<Rightarrow> string \<Rightarrow> 'r \<Rightarrow> 'r \<times> bool" where
  "Decode_struct fs s r = (case read_document s of
     None \<Rightarrow> (r, False) | Some (d, rest) \<Rightarrow> store_document fs d r)"

text \<open>\<open>json.Unmarshal(s, &r)\<close>: the whole input must be one value.\<close>

definition Unmarshal_struct :: "'r field list \<Rightarrow> string \<Rightarrow> 'r \<Rightarrow> 'r \<times> bool" where
  "Unmarshal_struct fs s r = (case read_document s of
     None \<Rightarrow> (r, False)
   | Some (d, rest) \<Rightarrow> if skip_ws rest = [] then store_document fs d r else (r, False))"

text \<open>Fields of the types \<open>string\<close>, \<open>int64\<close> and \<open>json.RawMessage\<close>. A \<open>null\<close> leaves the first two
  alone; a raw message keeps it as text.\<close>

definition string_field :: "string \<Rightarrow> (string \<Rightarrow> 'r \<Rightarrow> 'r) \<Rightarrow> 'r field" where
  "string_field k put = (k, \<lambda>raw v r. case v of
     JNull \<Rightarrow> Some r | JString s \<Rightarrow> Some (put s r) | _ \<Rightarrow> None)"

definition int_field :: "string \<Rightarrow> (int \<Rightarrow> 'r \<Rightarrow> 'r) \<Rightarrow> 'r field" where
  "int_field k put = (k, \<lambda>raw v r. case v of
     JNull \<Rightarrow> Some r
   | JNumber t \<Rightarrow> (case ParseInt t of (i, None) \<Rightarrow> Some (put i r) | _ \<Rightarrow> None)
   | _ \<Rightarrow> None)"

definition raw_field :: "string \<Rightarrow> (string \<Rightarrow> 'r \<Rightarrow> 'r) \<Rightarrow> 'r field" where
  "raw_field k put = (k, \<lambda>raw v r. Some (put raw r))"

lemma read_object_text:
  assumes "json_ok (JObject ms)" and "fits 0 (JObject ms)" and "stops rest"
  shows "read_document (json_text (JObject ms) @ rest) =
    Some (Doc_object (map (\<lambda>(k, v). (k, json_text v, v)) ms), rest)"
proof (cases ms)
  case Nil
  then show ?thesis by (simp add: read_document_def skip_ws_no Let_def)
next
  case (Cons m ns)
  let ?t = "members_text ms @ CHR ''}'' # rest"
  have "parse_members (parse_fuel ?t) 1 ?t = Some (map (\<lambda>(k, v). (k, json_text v, v)) ms, rest)"
    using assms Cons by (intro parse_text_all(3)) (auto simp: parse_fuel_def list_all_iff)
  with members_no_brace [of m ns "CHR ''}'' # rest"] Cons show ?thesis
    by (simp add: read_document_def skip_ws_no Let_def)
qed

lemma Unmarshal_struct_object:
  assumes "json_ok (JObject ms)" and "fits 0 (JObject ms)"
  shows "Unmarshal_struct fs (json_text (JObject ms)) r =
    fold (store_member fs) (map (\<lambda>(k, v). (k, json_text v, v)) ms) (r, True)"
  using read_object_text [OF assms, of "[]"]
  by (simp add: Unmarshal_struct_def store_document_def skip_ws_def del: json_text.simps)

text \<open>Input that is not JSON leaves the struct as it was.\<close>

lemma Decode_struct_syntax: "read_document s = None \<Longrightarrow> Decode_struct fs s r = (r, False)"
  by (simp add: Decode_struct_def)

end
