(* ===== verification/Http.thy ===== *)
theory Http
  imports Go_Json Repository
begin

text \<open>
  The part of Go's \<open>net/http\<close> the dashboard is written against: requests, responses, handlers,
  middlewares and the request multiplexer. A handler runs on the state \<open>'s\<close> of the repository behind
  it; it answers, or panics (the server then drops the connection). What the calls inside a handler
  read from outside (clock, fresh id, the states a stream of events sees while its client stays) is
  the \<open>call_env\<close>. The query is the list of decoded pairs of the query string, the path is decoded.
\<close>

section \<open>Requests and responses\<close>

record http_request =
  Method_rq :: string
  Path_rq :: string
  Query_rq :: "(string \<times> string) list"
  Authorization_rq :: string
  Body_rq :: string

text \<open>\<open>r.URL.Query().Get(k)\<close>.\<close>

definition query_get :: "http_request \<Rightarrow> string \<Rightarrow> string" where
  "query_get r k = (case lookup (Query_rq r) k of None \<Rightarrow> [] | Some v \<Rightarrow> v)"

text \<open>The Go values \<open>respondJSON\<close> and the event stream encode.\<close>

datatype reply =
    Reply_error string
  | Reply_stats Stats
  | Reply_types "string list"
  | Reply_job job
  | Reply_jobs "job list" int int int int
  | Reply_chains "ChainSummary list" int int int int
  | Reply_action uuid string "job option"
  | Reply_affected int string

datatype body = Plain string | Json reply | Html string | Events "Stats list" | Asset string

record http_response =
  Code_rs :: nat
  Headers_rs :: "(string \<times> string) list"
  Body_rs :: body

text \<open>\<open>http.Error\<close>, with the headers set before.\<close>

definition http_Error_with :: "(string \<times> string) list \<Rightarrow> string \<Rightarrow> nat \<Rightarrow> http_response" where
  "http_Error_with hs msg status =
    \<lparr>Code_rs = status, Headers_rs = hs @ [(''Content-Type'', ''text/plain; charset=utf-8''),
       (''X-Content-Type-Options'', ''nosniff'')],
     Body_rs = Plain (msg @ newline)\<rparr>"

definition http_Error :: "string \<Rightarrow> nat \<Rightarrow> http_response" where
  "http_Error = http_Error_with []"

section \<open>Handlers\<close>

record 's call_env =
  auth_now :: time
  op_now :: time
  op_uuid :: uuid
  can_flush :: bool
  ticks :: "(time \<times> 's) list"

type_synonym 's http_handler =
  "'s call_env \<Rightarrow> http_request \<Rightarrow> 's \<Rightarrow> http_response outcome \<times> 's"

type_synonym 's middleware = "'s http_handler \<Rightarrow> 's http_handler"

definition answer :: "http_response \<Rightarrow> 's \<Rightarrow> http_response outcome \<times> 's" where
  "answer rs s = (Returns rs, s)"

section \<open>\<open>r.BasicAuth()\<close>\<close>

definition basic_prefix :: string where
  "basic_prefix = ''Basic ''"

definition BasicAuth :: "http_request \<Rightarrow> (string \<times> string) option" where
  "BasicAuth r = (let auth = Authorization_rq r in
     if length auth < 6 \<or> \<not> EqualFold (take 6 auth) basic_prefix then None
     else case b64_decode StdEncoding (drop 6 auth) of
       None \<Rightarrow> None
     | Some bs \<Rightarrow> Cut (string_of bs) (CHR '':''))"

text \<open>\<open>r.SetBasicAuth\<close>, for the round trip.\<close>

definition basic_auth_header :: "string \<Rightarrow> string \<Rightarrow> string" where
  "basic_auth_header u p =
     basic_prefix @ b64_encode StdEncoding (bytes_of (u @ CHR '':'' # p))"

lemma BasicAuth_header:
  "CHR '':'' \<notin> set u \<Longrightarrow> Authorization_rq r = basic_auth_header u p \<Longrightarrow> BasicAuth r = Some (u, p)"
  by (simp add: BasicAuth_def basic_auth_header_def basic_prefix_def EqualFold_def Let_def
      b64_decode_encode StdEncoding_def Cut_Some)

lemma BasicAuth_user: "BasicAuth r = Some (u, p) \<Longrightarrow> CHR '':'' \<notin> set u"
  by (auto simp: BasicAuth_def Let_def split: if_splits option.splits dest: Cut_SomeD)

section \<open>The request multiplexer\<close>

text \<open>\<open>path.Clean\<close> on a rooted path: the segments that are left, last one first.\<close>

definition clean_segment :: "string \<Rightarrow> string list \<Rightarrow> string list" where
  "clean_segment seg acc =
    (if seg = [] \<or> seg = ''.'' then acc else if seg = ''..'' then tl acc else seg # acc)"

definition clean_segments :: "string \<Rightarrow> string list" where
  "clean_segments p = rev (fold clean_segment (Split p (CHR ''/'')) [])"

text \<open>\<open>cleanPath\<close> of \<open>net/http\<close>: rooted, without empty, dot and dot-dot segments; a slash at the end
  stays.\<close>

definition cleanPath :: "string \<Rightarrow> string" where
  "cleanPath p = (let segs = clean_segments p in
     if segs = [] then ''/''
     else concat (map (\<lambda>seg. CHR ''/'' # seg) segs) @
       (if p \<noteq> [] \<and> last p = CHR ''/'' then ''/'' else []))"

text \<open>
  The patterns of a mux: a path that must be equal, or, when it ends in a slash, a prefix. The
  longest matching pattern wins. A path that is not clean is answered with a redirect (except to
  \<open>CONNECT\<close>).
\<close>

definition pattern_matches :: "string \<Rightarrow> string \<Rightarrow> bool" where
  "pattern_matches pat p = (if pat \<noteq> [] \<and> last pat = CHR ''/'' then HasPrefix p pat else p = pat)"

definition longer_pattern :: "string \<times> 'h \<Rightarrow> (string \<times> 'h) option \<Rightarrow> (string \<times> 'h) option" where
  "longer_pattern e best = (case best of None \<Rightarrow> Some e
     | Some b \<Rightarrow> if length (fst b) < length (fst e) then Some e else Some b)"

definition mux_match :: "(string \<times> 'h) list \<Rightarrow> string \<Rightarrow> 'h option" where
  "mux_match pats p = map_option snd
     (fold longer_pattern (filter (\<lambda>e. pattern_matches (fst e) p) pats) None)"

definition redirect :: "string \<Rightarrow> http_response" where
  "redirect p = \<lparr>Code_rs = 301, Headers_rs = [(''Location'', p)], Body_rs = Plain []\<rparr>"

definition mux_ServeHTTP :: "(string \<times> 's http_handler) list \<Rightarrow> 's http_handler" where
  "mux_ServeHTTP pats env r s =
    (if Method_rq r \<noteq> ''CONNECT'' \<and> cleanPath (Path_rq r) \<noteq> Path_rq r
     then answer (redirect (cleanPath (Path_rq r))) s
     else case mux_match pats (Path_rq r) of
       None \<Rightarrow> answer (http_Error ''404 page not found'' 404) s
     | Some h \<Rightarrow> h env r s)"

text \<open>What holds of every handler of a mux and of every answer that keeps the state holds of the mux.\<close>

lemma fold_longer_mem:
  "fold longer_pattern es b = Some e \<Longrightarrow> e \<in> set es \<or> b = Some e"
  by (induction es arbitrary: b) (fastforce simp: longer_pattern_def split: option.splits if_splits)+

lemma mux_match_mem: "mux_match pats p = Some h \<Longrightarrow> \<exists>pat. (pat, h) \<in> set pats \<and> pattern_matches pat p"
  by (auto simp: mux_match_def dest!: fold_longer_mem)

lemma mux_ServeHTTP_cases:
  obtains c where "mux_ServeHTTP pats env r s = (Returns c, s)"
  | pat h where "(pat, h) \<in> set pats" and "pattern_matches pat (Path_rq r)"
      and "mux_ServeHTTP pats env r s = h env r s"
proof (cases "Method_rq r \<noteq> ''CONNECT'' \<and> cleanPath (Path_rq r) \<noteq> Path_rq r")
  case True
  then show ?thesis by (intro that(1)) (simp add: mux_ServeHTTP_def answer_def)
next
  case False
  show ?thesis
  proof (cases "mux_match pats (Path_rq r)")
    case None
    with False show ?thesis by (intro that(1)) (auto simp: mux_ServeHTTP_def answer_def)
  next
    case (Some h)
    with mux_match_mem [OF Some] False show ?thesis
      by (auto simp: mux_ServeHTTP_def intro: that(2))
  qed
qed

end
