(* ===== verification/Go_Crypto.thy ===== *)
theory Go_Crypto
  imports Go_Encoding "HOL-Library.Word"
begin

unbundle bit_operations_syntax

text \<open>
  What the dashboard's tokens use of Go's \<open>crypto/sha256\<close> and \<open>crypto/hmac\<close>: SHA-256 on words of
  32 bits with the additions that wrap, and HMAC over an arbitrary hash. The round constants are
  computed from their definition (the first bits of the fractional parts of roots of primes).
  HMAC is a locale over the hash; SHA-256 interprets it.
\<close>

section \<open>The round constants\<close>

definition primes_below :: "nat \<Rightarrow> nat list" where
  "primes_below n = filter (\<lambda>p. 1 < p \<and> list_all (\<lambda>d. p mod d \<noteq> 0) [2..<p]) [0..<n]"

text \<open>The integer \<open>k\<close>-th root, bit by bit from the top.\<close>

definition int_root :: "nat \<Rightarrow> nat \<Rightarrow> nat" where
  "int_root k n = fold (\<lambda>b r. if (r + 2 ^ b) ^ k \<le> n then r + 2 ^ b else r) (rev [0..<40]) 0"

definition fraction_bits :: "nat \<Rightarrow> nat \<Rightarrow> 32 word" where
  "fraction_bits k p = of_nat (int_root k (p * 2 ^ (32 * k)) mod 2 ^ 32)"

definition round_constants :: "32 word list" where
  "round_constants = map (fraction_bits 3) (primes_below 312)"

definition initial_state :: "32 word list" where
  "initial_state = map (fraction_bits 2) (primes_below 20)"

section \<open>The message schedule\<close>

fun be_bytes :: "nat \<Rightarrow> nat \<Rightarrow> nat list" where
  "be_bytes 0 n = []"
| "be_bytes (Suc k) n = be_bytes k (n div 256) @ [n mod 256]"

text \<open>The padding: one bit, zeros, and the length in bits in eight bytes.\<close>

definition sha256_pad :: "nat list \<Rightarrow> nat list" where
  "sha256_pad m = m @ [128] @ replicate ((119 - length m mod 64) mod 64) 0 @
     be_bytes 8 (8 * length m)"

definition be_word :: "nat list \<Rightarrow> 32 word" where
  "be_word bs = of_nat (foldl (\<lambda>n b. n * 256 + b) 0 bs)"

fun chunks :: "nat \<Rightarrow> nat \<Rightarrow> 'a list \<Rightarrow> 'a list list" where
  "chunks 0 k xs = []"
| "chunks (Suc n) k xs = take k xs # chunks n k (drop k xs)"

definition rotr :: "nat \<Rightarrow> 32 word \<Rightarrow> 32 word" where
  "rotr n x = word_rotr n x"

definition small_sigma0 :: "32 word \<Rightarrow> 32 word" where
  "small_sigma0 x = (rotr 7 x XOR rotr 18 x) XOR drop_bit 3 x"

definition small_sigma1 :: "32 word \<Rightarrow> 32 word" where
  "small_sigma1 x = (rotr 17 x XOR rotr 19 x) XOR drop_bit 10 x"

definition big_sigma0 :: "32 word \<Rightarrow> 32 word" where
  "big_sigma0 x = (rotr 2 x XOR rotr 13 x) XOR rotr 22 x"

definition big_sigma1 :: "32 word \<Rightarrow> 32 word" where
  "big_sigma1 x = (rotr 6 x XOR rotr 11 x) XOR rotr 25 x"

text \<open>The schedule grows at its end; word \<open>i\<close> is made of the words 2, 7, 15 and 16 before it.\<close>

definition next_word :: "32 word list \<Rightarrow> 32 word" where
  "next_word w = (let i = length w in
     small_sigma1 (w ! (i - 2)) + w ! (i - 7) + small_sigma0 (w ! (i - 15)) + w ! (i - 16))"

definition schedule :: "nat list \<Rightarrow> 32 word list" where
  "schedule block = ((\<lambda>w. w @ [next_word w]) ^^ 48) (map be_word (chunks 16 4 block))"

section \<open>The compression function\<close>

record sha_state =
  sA :: "32 word"
  sB :: "32 word"
  sC :: "32 word"
  sD :: "32 word"
  sE :: "32 word"
  sF :: "32 word"
  sG :: "32 word"
  sH :: "32 word"

definition sha_words :: "sha_state \<Rightarrow> 32 word list" where
  "sha_words s = [sA s, sB s, sC s, sD s, sE s, sF s, sG s, sH s]"

definition sha_of_words :: "32 word list \<Rightarrow> sha_state" where
  "sha_of_words w = \<lparr>sA = w ! 0, sB = w ! 1, sC = w ! 2, sD = w ! 3,
     sE = w ! 4, sF = w ! 5, sG = w ! 6, sH = w ! 7\<rparr>"

definition sha_round :: "32 word \<times> 32 word \<Rightarrow> sha_state \<Rightarrow> sha_state" where
  "sha_round kw s = (let
     ch = (sE s AND sF s) XOR (NOT (sE s) AND sG s);
     maj = (sA s AND sB s) XOR (sA s AND sC s) XOR (sB s AND sC s);
     t1 = sH s + big_sigma1 (sE s) + ch + fst kw + snd kw;
     t2 = big_sigma0 (sA s) + maj
   in \<lparr>sA = t1 + t2, sB = sA s, sC = sB s, sD = sC s,
       sE = sD s + t1, sF = sE s, sG = sF s, sH = sG s\<rparr>)"

definition sha_block :: "nat list \<Rightarrow> 32 word list \<Rightarrow> 32 word list" where
  "sha_block block h =
    map2 (+) h (sha_words (fold sha_round (zip round_constants (schedule block)) (sha_of_words h)))"

definition word_bytes :: "32 word \<Rightarrow> nat list" where
  "word_bytes w = be_bytes 4 (unat w)"

text \<open>\<open>sha256.Sum256\<close>.\<close>

definition sha256 :: "nat list \<Rightarrow> nat list" where
  "sha256 m = (let p = sha256_pad m in
     concat (map word_bytes (fold sha_block (chunks (length p div 64) 64 p) initial_state)))"

lemma be_bytes_bound [simp]: "b \<in> set (be_bytes k n) \<Longrightarrow> b < 256"
  by (induction k arbitrary: n) auto

lemma length_be_bytes [simp]: "length (be_bytes k n) = k"
  by (induction k arbitrary: n) auto

lemma sha256_bound: "\<forall>b \<in> set (sha256 m). b < 256"
  by (auto simp: sha256_def word_bytes_def Let_def)

text \<open>The padded message is a whole number of blocks.\<close>

lemma sha256_pad_blocks: "length (sha256_pad m) mod 64 = 0"
proof -
  let ?n = "length m" and ?z = "119 - length m mod 64"
  have "?n mod 64 + (9 + ?z) = 2 * 64"
    by (simp add: less_imp_le_nat)
  then have "(?n + (9 + ?z)) mod 64 = 0"
    by (metis mod_add_left_eq mod_mult_self2_is_0)
  then have "(?n + (9 + ?z mod 64)) mod 64 = 0"
    by (metis mod_add_right_eq)
  then show ?thesis by (simp add: sha256_pad_def add.commute add.left_commute)
qed

section \<open>HMAC\<close>

text \<open>
  \<open>hmac.New(h, key)\<close>, \<open>Write(m)\<close>, \<open>Sum(nil)\<close> for a hash with blocks of \<open>block_size\<close> bytes: a key
  longer than a block is hashed first, a shorter one is filled up with zeros.
\<close>

definition xor_byte :: "nat \<Rightarrow> nat \<Rightarrow> nat" where
  "xor_byte a b = a XOR b"

definition hmac_key :: "(nat list \<Rightarrow> nat list) \<Rightarrow> nat \<Rightarrow> nat list \<Rightarrow> nat list" where
  "hmac_key hash block_size key =
    (let k = if block_size < length key then hash key else key
     in k @ replicate (block_size - length k) 0)"

definition hmac :: "(nat list \<Rightarrow> nat list) \<Rightarrow> nat \<Rightarrow> nat list \<Rightarrow> nat list \<Rightarrow> nat list" where
  "hmac hash block_size key m =
    (let k = hmac_key hash block_size key in
     hash (map (xor_byte 92) k @ hash (map (xor_byte 54) k @ m)))"

text \<open>What a token scheme needs of its hash: the sum is a list of bytes.\<close>

locale byte_hash =
  fixes hash :: "nat list \<Rightarrow> nat list" and block_size :: nat
  assumes hash_bytes: "\<forall>b \<in> set (hash m). b < 256"
begin

lemma hmac_bytes: "\<forall>b \<in> set (hmac hash block_size key m). b < 256"
  by (simp add: hmac_def Let_def hash_bytes)

text \<open>A signature in raw URL base64 is read back.\<close>

lemma signature_decodes:
  "b64_decode RawURLEncoding (b64_encode RawURLEncoding (hmac hash block_size key m)) =
     Some (hmac hash block_size key m)"
  by (rule b64_decode_encode) (simp_all add: RawURLEncoding_def hmac_bytes)

lemma signature_chars:
  "CHR ''.'' \<notin> set (b64_encode RawURLEncoding (hmac hash block_size key m))"
  by (rule raw_url_encode_chars [OF hmac_bytes])

end

interpretation sha: byte_hash sha256 64
  by unfold_locales (rule sha256_bound)

definition hmac_sha256 :: "string \<Rightarrow> string \<Rightarrow> nat list" where
  "hmac_sha256 secret m = hmac sha256 64 (bytes_of secret) (bytes_of m)"

end
