(* ===== verification/Auth.thy ===== *)
theory Auth
  imports Http Go_Crypto
begin

text \<open>
  The authentication of the dashboard (src/ui/auth.go): the middlewares for basic authentication,
  a secret token, HS256 tokens, custom validators and functions, how they are chained, and how a
  token is made and verified. A nil function, middleware or map is \<open>None\<close>.
\<close>

section \<open>Options and middlewares\<close>

record 's Options =
  RootPath :: string
  Title :: string
  ReadOnly :: bool
  JobTypesProvider :: "string list option"
  AuthMiddleware :: "'s middleware option"

type_synonym 's Option = "'s Options \<Rightarrow> 's Options"

definition ChainMiddlewares :: "'s middleware option \<Rightarrow> 's middleware option \<Rightarrow> 's middleware option"
where
  "ChainMiddlewares m1 m2 = (case m1 of
     None \<Rightarrow> m2
   | Some f1 \<Rightarrow> (case m2 of
       None \<Rightarrow> m1
     | Some f2 \<Rightarrow> Some (\<lambda>next. f1 (f2 next))))"

definition unauthorized :: "(string \<times> string) list \<Rightarrow> http_response" where
  "unauthorized hs = http_Error_with hs ''Unauthorized'' 401"

section \<open>Tokens\<close>

definition extractToken :: "http_request \<Rightarrow> string" where
  "extractToken r = (let authHeader = Authorization_rq r in
     if HasPrefix (ToLower authHeader) ''bearer '' then TrimSpace (drop 7 authHeader)
     else query_get r ''token'')"

definition decodeBase64URL :: "string \<Rightarrow> nat list option" where
  "decodeBase64URL s = (case b64_decode RawURLEncoding s of
     Some b \<Rightarrow> Some b
   | None \<Rightarrow> (case b64_decode URLEncoding s of
       Some b \<Rightarrow> Some b
     | None \<Rightarrow> b64_decode StdEncoding s))"

text \<open>\<open>t.Unix()\<close>: a time counts nanoseconds from the zero \<open>time.Time\<close>, the year one.\<close>

definition Unix :: "time \<Rightarrow> int" where
  "Unix t = t div Second - 62135596800"

text \<open>The claims struct of the verifier has the one field \<open>Exp int64\<close>.\<close>

definition claims_fields :: "int field list" where
  "claims_fields = [int_field ''exp'' (\<lambda>i _. i)]"

definition not_expired :: "time \<Rightarrow> nat list \<Rightarrow> bool" where
  "not_expired now payloadBytes =
    (case Unmarshal_struct claims_fields (string_of payloadBytes) 0 of (Exp, ok) \<Rightarrow>
       if ok \<and> 0 < Exp then \<not> Exp < Unix now else True)"

definition verifyHS256JWT :: "time \<Rightarrow> string \<Rightarrow> string \<Rightarrow> bool" where
  "verifyHS256JWT now tokenStr secret = (case Split tokenStr (CHR ''.'') of
     [headerB64, payloadB64, signatureB64] \<Rightarrow>
       (let expectedSig = hmac_sha256 secret (headerB64 @ ''.'' @ payloadB64) in
        case decodeBase64URL signatureB64 of
          None \<Rightarrow> False
        | Some actualSig \<Rightarrow>
            if expectedSig \<noteq> actualSig then False
            else (case decodeBase64URL payloadB64 of
                None \<Rightarrow> False
              | Some payloadBytes \<Rightarrow> not_expired now payloadBytes))
   | _ \<Rightarrow> False)"

text \<open>
  \<open>GenerateHS256JWT\<close>: a claim is a value with its JSON, or one that cannot be marshalled. The second
  component is the map of the caller afterwards: the expiry is stored into it.
\<close>

type_synonym claim_map = "(string \<times> json option) list"

definition Marshal_claims :: "claim_map \<Rightarrow> gerror + string" where
  "Marshal_claims m = (case those (map (\<lambda>(k, v). map_option (Pair k) v) (sorted_members m)) of
     None \<Rightarrow> Inl (Message ''json: unsupported type'')
   | Some ms \<Rightarrow> Inr (json_text (JObject ms)))"

definition jwt_header :: string where
  "jwt_header = json_text (JObject (sorted_members
     [(''alg'', JString ''HS256''), (''typ'', JString ''JWT'')]))"

definition with_exp :: "time \<Rightarrow> duration \<Rightarrow> claim_map \<Rightarrow> claim_map" where
  "with_exp now d m =
    (if d \<noteq> 0 then AList.update ''exp'' (Some (JNumber (format_int (Unix (now + d))))) m else m)"

definition sign_jwt :: "string \<Rightarrow> string \<Rightarrow> string" where
  "sign_jwt secret payload = (let
     headerB64 = b64_encode RawURLEncoding (bytes_of jwt_header);
     payloadB64 = b64_encode RawURLEncoding (bytes_of payload);
     unsignedToken = headerB64 @ ''.'' @ payloadB64;
     sigB64 = b64_encode RawURLEncoding (hmac_sha256 secret unsignedToken)
   in unsignedToken @ ''.'' @ sigB64)"

definition GenerateHS256JWT ::
  "time \<Rightarrow> string \<Rightarrow> claim_map option \<Rightarrow> duration \<Rightarrow> (gerror + string) \<times> claim_map option" where
  "GenerateHS256JWT now secret claims expiryDuration = (let
     m = with_exp now expiryDuration (case claims of None \<Rightarrow> [] | Some m \<Rightarrow> m);
     after = map_option (\<lambda>_. m) claims
   in case Marshal_claims m of
        Inl e \<Rightarrow> (Inl e, after)
      | Inr payload \<Rightarrow> (Inr (sign_jwt secret payload), after))"

section \<open>The options that protect the dashboard\<close>

text \<open>A middleware that asks a check before the handler.\<close>

definition guard ::
  "(string \<times> string) list \<Rightarrow> ('s call_env \<Rightarrow> http_request \<Rightarrow> bool) \<Rightarrow> 's middleware" where
  "guard hs ok next env r s = (if \<not> ok env r then answer (unauthorized hs) s else next env r s)"

definition add_auth :: "'s middleware option \<Rightarrow> 's Option" where
  "add_auth mw opts = opts\<lparr>AuthMiddleware := ChainMiddlewares (AuthMiddleware opts) mw\<rparr>"

definition basic_ok :: "string \<Rightarrow> string \<Rightarrow> 's call_env \<Rightarrow> http_request \<Rightarrow> bool" where
  "basic_ok username password env r = (case BasicAuth r of
     None \<Rightarrow> False | Some (u, p) \<Rightarrow> u = username \<and> p = password)"

definition WithBasicAuth :: "string \<Rightarrow> string \<Rightarrow> 's Option" where
  "WithBasicAuth username password =
    add_auth (Some (guard [(''WWW-Authenticate'', ''Basic realm=\"OrderedJob Dashboard\"'')]
      (basic_ok username password)))"

definition secret_ok :: "string \<Rightarrow> 's call_env \<Rightarrow> http_request \<Rightarrow> bool" where
  "secret_ok expectedToken env r =
    (let token = extractToken r in \<not> (token = [] \<or> token \<noteq> expectedToken))"

definition WithTokenAuth :: "string \<Rightarrow> 's Option" where
  "WithTokenAuth expectedToken = add_auth (Some (guard [] (secret_ok expectedToken)))"

definition jwt_ok :: "string \<Rightarrow> 's call_env \<Rightarrow> http_request \<Rightarrow> bool" where
  "jwt_ok secretKey env r =
    (let tokenStr = extractToken r in
     \<not> (tokenStr = [] \<or> \<not> verifyHS256JWT (auth_now env) tokenStr secretKey))"

definition WithJWTAuth :: "string \<Rightarrow> 's Option" where
  "WithJWTAuth secretKey = add_auth (Some (guard [] (jwt_ok secretKey)))"

definition validator_ok :: "(string \<Rightarrow> bool) option \<Rightarrow> 's call_env \<Rightarrow> http_request \<Rightarrow> bool" where
  "validator_ok validator env r = (let tokenStr = extractToken r in
     case validator of None \<Rightarrow> False | Some v \<Rightarrow> tokenStr \<noteq> [] \<and> v tokenStr)"

definition WithJWTValidator :: "(string \<Rightarrow> bool) option \<Rightarrow> 's Option" where
  "WithJWTValidator validator = add_auth (Some (guard [] (validator_ok validator)))"

definition auth_func_ok :: "(http_request \<Rightarrow> bool) option \<Rightarrow> 's call_env \<Rightarrow> http_request \<Rightarrow> bool" where
  "auth_func_ok authFunc env r = (case authFunc of None \<Rightarrow> False | Some f \<Rightarrow> f r)"

definition WithAuthFunc :: "(http_request \<Rightarrow> bool) option \<Rightarrow> 's Option" where
  "WithAuthFunc authFunc = add_auth (Some (guard [] (auth_func_ok authFunc)))"

definition WithAuthMiddleware :: "'s middleware option \<Rightarrow> 's Option" where
  "WithAuthMiddleware mw = add_auth mw"

end
