(* ===== verification/Ui.thy ===== *)
theory Ui
  imports Auth
begin

text \<open>
  The dashboard (src/ui/ui.go): its options, the decoding of request bodies, one handler per route,
  and \<open>NewHandler\<close>, which puts them behind a mux, strips the root path and adds the middlewares.
  The handlers are written over any \<open>Repository\<close>. The functions of other packages they call are the
  record \<open>ui_deps\<close>: \<open>uuid.Parse\<close>, the RFC 3339 parser of \<open>time\<close>, the value and the JSON a payload of
  type \<open>any\<close> becomes, the text of a decoding error, and the embedded files.
\<close>

section \<open>Options\<close>

record ui_deps =
  uuid_Parse :: "string \<Rightarrow> uuid option"
  parse_RFC3339 :: "string \<Rightarrow> time option"
  any_of_json :: "json \<Rightarrow> any_value"
  decode_error :: "string \<Rightarrow> string"
  index_html :: "gerror + string"
  file_server :: "http_request \<Rightarrow> http_response"

definition WithRootPath :: "string \<Rightarrow> 's Option" where
  "WithRootPath path o' = o'\<lparr>RootPath := path\<rparr>"

definition WithTitle :: "string \<Rightarrow> 's Option" where
  "WithTitle title o' = o'\<lparr>Title := title\<rparr>"

definition WithReadOnly :: "bool \<Rightarrow> 's Option" where
  "WithReadOnly readOnly o' = o'\<lparr>ReadOnly := readOnly\<rparr>"

definition WithJobTypesProvider :: "string list option \<Rightarrow> 's Option" where
  "WithJobTypesProvider p o' = o'\<lparr>JobTypesProvider := p\<rparr>"

section \<open>Responses and bodies\<close>

definition respondJSON :: "nat \<Rightarrow> reply \<Rightarrow> http_response" where
  "respondJSON status payload =
    \<lparr>Code_rs = status, Headers_rs = [(''Content-Type'', ''application/json'')],
     Body_rs = Json payload\<rparr>"

definition method_not_allowed :: http_response where
  "method_not_allowed = http_Error ''Method Not Allowed'' 405"

definition read_only_refusal :: http_response where
  "read_only_refusal = respondJSON 403 (Reply_error ''Dashboard is in read-only mode'')"

definition error_500 :: "gerror \<Rightarrow> http_response" where
  "error_500 e = respondJSON 500 (Reply_error (Error e))"

text \<open>Fields of type \<open>time.Time\<close> and \<open>*time.Time\<close>: the parser gets the text between the quotes. A
  \<open>null\<close> leaves the first alone and makes the second nil.\<close>

definition unquoted :: "string \<Rightarrow> string" where
  "unquoted raw = butlast (tl raw)"

definition time_field :: "(string \<Rightarrow> time option) \<Rightarrow> string \<Rightarrow> (time \<Rightarrow> 'r \<Rightarrow> 'r) \<Rightarrow> 'r field" where
  "time_field parse k put = (k, \<lambda>raw v r. case v of
     JNull \<Rightarrow> Some r
   | JString _ \<Rightarrow> map_option (\<lambda>t. put t r) (parse (unquoted raw))
   | _ \<Rightarrow> None)"

definition time_ptr_field ::
  "(string \<Rightarrow> time option) \<Rightarrow> string \<Rightarrow> (time option \<Rightarrow> 'r \<Rightarrow> 'r) \<Rightarrow> 'r field" where
  "time_ptr_field parse k put = (k, \<lambda>raw v r. case v of
     JNull \<Rightarrow> Some (put None r)
   | JString _ \<Rightarrow> map_option (\<lambda>t. put (Some t) r) (parse (unquoted raw))
   | _ \<Rightarrow> None)"

definition any_field :: "(json \<Rightarrow> any_value) \<Rightarrow> string \<Rightarrow> (any_value \<Rightarrow> 'r \<Rightarrow> 'r) \<Rightarrow> 'r field" where
  "any_field conv k put = (k, \<lambda>raw v r.
     Some (put (if v = JNull then Any_nil else conv v) r))"

definition enqueue_fields :: "ui_deps \<Rightarrow> EnqueueRequest field list" where
  "enqueue_fields D =
    [string_field ''chain_id'' (\<lambda>x q. q\<lparr>ChainID_req := x\<rparr>),
     int_field ''sequence'' (\<lambda>x q. q\<lparr>Sequence_req := x\<rparr>),
     string_field ''job_type'' (\<lambda>x q. q\<lparr>Type_req := x\<rparr>),
     any_field (any_of_json D) ''payload'' (\<lambda>x q. q\<lparr>Payload_req := x\<rparr>),
     string_field ''idempotency_key'' (\<lambda>x q. q\<lparr>IdempotencyKey_req := x\<rparr>),
     string_field ''tenant_id'' (\<lambda>x q. q\<lparr>TenantID_req := x\<rparr>),
     string_field ''trace_id'' (\<lambda>x q. q\<lparr>TraceID_req := x\<rparr>),
     string_field ''ordering_mode'' (\<lambda>x q. q\<lparr>OrderingMode_req := x\<rparr>),
     int_field ''max_attempts'' (\<lambda>x q. q\<lparr>MaxAttempts_req := x\<rparr>),
     time_ptr_field (parse_RFC3339 D) ''deadline_at'' (\<lambda>x q. q\<lparr>DeadlineAt_req := x\<rparr>),
     time_ptr_field (parse_RFC3339 D) ''available_at'' (\<lambda>x q. q\<lparr>AvailableAt_req := x\<rparr>)]"

definition filter_fields :: "JobFilter field list" where
  "filter_fields =
    [string_field ''chain_id'' (\<lambda>x f. f\<lparr>ChainID_flt := x\<rparr>),
     string_field ''job_type'' (\<lambda>x f. f\<lparr>JobType_flt := x\<rparr>),
     string_field ''tenant_id'' (\<lambda>x f. f\<lparr>TenantID_flt := x\<rparr>),
     string_field ''trace_id'' (\<lambda>x f. f\<lparr>TraceID_flt := x\<rparr>),
     string_field ''search'' (\<lambda>x f. f\<lparr>Search_flt := x\<rparr>)]"

text \<open>The error of the decoder is dropped: what it stored before it is the filter.\<close>

definition parseJobFilterFromBody :: "http_request \<Rightarrow> JobFilter" where
  "parseJobFilterFromBody r = fst (Decode_struct filter_fields (Body_rq r) zero_JobFilter)"

section \<open>Reading handlers\<close>

text \<open>\<open>GetStats\<close> once at the start and once per tick until the client is gone; a failing read sends
  nothing.\<close>

definition handleSSEEvents :: "'s Repository \<Rightarrow> 's http_handler" where
  "handleSSEEvents R env r s =
    (if \<not> can_flush env then answer (http_Error ''Streaming unsupported!'' 500) s
     else answer \<lparr>Code_rs = 200,
       Headers_rs = [(''Content-Type'', ''text/event-stream''), (''Cache-Control'', ''no-cache''),
         (''Connection'', ''keep-alive''), (''Access-Control-Allow-Origin'', ''*'')],
       Body_rs = Events (concat (map (\<lambda>(t, s'). case GetStats_r R t s' of
           Inr stats \<Rightarrow> [stats] | Inl e \<Rightarrow> [])
         ((op_now env, s) # ticks env)))\<rparr> s)"

definition handleJobTypes :: "'s Options \<Rightarrow> 's http_handler" where
  "handleJobTypes opts env r s =
    (if Method_rq r \<noteq> ''GET'' then answer method_not_allowed s
     else case JobTypesProvider opts of
       None \<Rightarrow> answer (respondJSON 200 (Reply_types [])) s
     | Some ts \<Rightarrow> answer (respondJSON 200 (Reply_types ts)) s)"

definition handleStats :: "'s Repository \<Rightarrow> 's http_handler" where
  "handleStats R env r s =
    (if Method_rq r \<noteq> ''GET'' then answer method_not_allowed s
     else case GetStats_r R (op_now env) s of
       Inl e \<Rightarrow> answer (error_500 e) s
     | Inr stats \<Rightarrow> answer (respondJSON 200 (Reply_stats stats)) s)"

text \<open>The page and the limit of a list request. The offset is computed in 64 bits.\<close>

definition query_page :: "http_request \<Rightarrow> int" where
  "query_page r = (let page = fst (ParseInt (query_get r ''page'')) in if page < 1 then 1 else page)"

definition query_limit :: "http_request \<Rightarrow> int" where
  "query_limit r = (let limit = fst (ParseInt (query_get r ''limit'')) in
     if limit < 1 \<or> 200 < limit then 20 else limit)"

definition query_offset :: "http_request \<Rightarrow> int" where
  "query_offset r = wrap64 ((query_page r - 1) * query_limit r)"

text \<open>Division of \<open>int64\<close> by a positive number truncates.\<close>

definition quotient :: "int \<Rightarrow> int \<Rightarrow> int" where
  "quotient a b = (if a < 0 then - ((- a) div b) else a div b)"

definition total_pages :: "int \<Rightarrow> int \<Rightarrow> int" where
  "total_pages cnt limit =
    (let totalPages = quotient (wrap64 (wrap64 (cnt + limit) - 1)) limit in
     if totalPages < 1 then 1 else totalPages)"

definition jobs_filter :: "http_request \<Rightarrow> JobFilter" where
  "jobs_filter r = (let status = query_get r ''status'' in
    \<lparr>ChainID_flt = query_get r ''chain_id'',
     Status_flt = (if status = ''SCHEDULED'' then [] else status),
     JobType_flt = query_get r ''job_type'', TenantID_flt = query_get r ''tenant_id'',
     TraceID_flt = query_get r ''trace_id'', Search_flt = query_get r ''search'',
     OrderBy_flt = query_get r ''order_by'', OrderDir_flt = query_get r ''order_dir'',
     Offset_flt = query_offset r, Limit_flt = query_limit r,
     ScheduledOnly_flt = (query_get r ''scheduled_only'' = ''true'' \<or> status = ''SCHEDULED'')\<rparr>)"

definition handleJobs :: "'s Repository \<Rightarrow> 's http_handler" where
  "handleJobs R env r s =
    (if Method_rq r \<noteq> ''GET'' then answer method_not_allowed s
     else case ListJobs_r R (op_now env) (jobs_filter r) s of
       Panics msg \<Rightarrow> (Panics msg, s)
     | Returns (Inl e) \<Rightarrow> answer (error_500 e) s
     | Returns (Inr (js, cnt)) \<Rightarrow>
         answer (respondJSON 200 (Reply_jobs js cnt (query_page r) (query_limit r)
           (total_pages cnt (query_limit r)))) s)"

definition chains_filter :: "http_request \<Rightarrow> ChainFilter" where
  "chains_filter r =
    \<lparr>Search_cflt = query_get r ''search'', OrderBy_cflt = query_get r ''order_by'',
     OrderDir_cflt = query_get r ''order_dir'', Offset_cflt = query_offset r,
     Limit_cflt = query_limit r\<rparr>"

definition handleChains :: "'s Repository \<Rightarrow> 's http_handler" where
  "handleChains R env r s =
    (if Method_rq r \<noteq> ''GET'' then answer method_not_allowed s
     else case ListChains_r R (chains_filter r) s of
       Panics msg \<Rightarrow> (Panics msg, s)
     | Returns (Inl e) \<Rightarrow> answer (error_500 e) s
     | Returns (Inr (cs, cnt)) \<Rightarrow>
         answer (respondJSON 200 (Reply_chains cs cnt (query_page r) (query_limit r)
           (total_pages cnt (query_limit r)))) s)"

section \<open>Handlers that change the repository\<close>

definition act :: "uuid \<Rightarrow> string \<Rightarrow> gerror option \<times> 's \<Rightarrow> http_response outcome \<times> 's" where
  "act i action res = (case res of
     (Some e, s') \<Rightarrow> answer (error_500 e) s'
   | (None, s') \<Rightarrow> answer (respondJSON 200 (Reply_action i action None)) s')"

definition replay_action :: "'s Repository \<Rightarrow> 's call_env \<Rightarrow> http_request \<Rightarrow> uuid \<Rightarrow> 's \<Rightarrow> gerror option \<times> 's"
where
  "replay_action R env r i s =
    (case Decode_struct [raw_field ''payload'' (\<lambda>raw _. raw)] (Body_rq r) [] of (payload, ok) \<Rightarrow>
       if ok \<and> 0 < length payload then ReplayJobWithPayload_r R (op_now env) i payload s
       else ReplayJob_r R (op_now env) i s)"

definition reschedule_action ::
  "'s Repository \<Rightarrow> ui_deps \<Rightarrow> 's call_env \<Rightarrow> http_request \<Rightarrow> uuid \<Rightarrow> 's \<Rightarrow> http_response outcome \<times> 's" where
  "reschedule_action R D env r i s =
    (case Decode_struct [time_field (parse_RFC3339 D) ''available_at'' (\<lambda>t _. t)] (Body_rq r) 0 of
       (at, ok) \<Rightarrow>
         if \<not> ok \<or> at = 0
         then answer (respondJSON 400 (Reply_error ''invalid or missing available_at timestamp'')) s
         else case RescheduleJob_r R (op_now env) i at s of
           (Inl e, s') \<Rightarrow> answer (error_500 e) s'
         | (Inr job, s') \<Rightarrow> answer (respondJSON 200 (Reply_action i ''reschedule'' (Some job))) s')"

definition job_action ::
  "'s Repository \<Rightarrow> ui_deps \<Rightarrow> 's call_env \<Rightarrow> http_request \<Rightarrow> uuid \<Rightarrow> string \<Rightarrow> 's \<Rightarrow>
   http_response outcome \<times> 's" where
  "job_action R D env r i action s =
    (if action = ''replay'' then act i action (replay_action R env r i s)
     else if action = ''skip'' then act i action (SkipJob_r R (op_now env) i s)
     else if action = ''cancel'' then act i action (RequestCancel_r R (op_now env) i s)
     else if action = ''reschedule'' then reschedule_action R D env r i s
     else answer (http_Error ''Unknown Action'' 400) s)"

definition handleJobDetailOrAction :: "'s Repository \<Rightarrow> ui_deps \<Rightarrow> 's Options \<Rightarrow> 's http_handler" where
  "handleJobDetailOrAction R D opts env r s =
    (case Split (TrimPrefix (Path_rq r) ''/api/jobs/'') (CHR ''/'') of
       [] \<Rightarrow> answer (http_Error ''Job ID required'' 400) s
     | first # others \<Rightarrow>
         if first = [] then answer (http_Error ''Job ID required'' 400) s
         else (case uuid_Parse D first of
           None \<Rightarrow> answer (http_Error ''Invalid Job UUID'' 400) s
         | Some i \<Rightarrow> (case others of
             [] \<Rightarrow>
               if Method_rq r \<noteq> ''GET'' then answer method_not_allowed s
               else (case Get_r R i s of
                   Inl e \<Rightarrow> answer (respondJSON 404 (Reply_error (Error e))) s
                 | Inr job \<Rightarrow> answer (respondJSON 200 (Reply_job job)) s)
           | action # _ \<Rightarrow>
               if Method_rq r \<noteq> ''POST'' then answer method_not_allowed s
               else if ReadOnly opts then answer read_only_refusal s
               else job_action R D env r i action s)))"

definition handleEnqueue :: "'s Repository \<Rightarrow> ui_deps \<Rightarrow> 's Options \<Rightarrow> 's http_handler" where
  "handleEnqueue R D opts env r s =
    (if Method_rq r \<noteq> ''POST'' then answer method_not_allowed s
     else if ReadOnly opts then answer read_only_refusal s
     else case Decode_struct (enqueue_fields D) (Body_rq r) zero_EnqueueRequest of
       (req, ok) \<Rightarrow>
         if \<not> ok then answer (respondJSON 400
             (Reply_error (''Invalid request body: '' @ decode_error D (Body_rq r)))) s
         else case Enqueue_r R (op_now env) (op_uuid env) req s of
           (Inl e, s') \<Rightarrow> answer (error_500 e) s'
         | (Inr job, s') \<Rightarrow> answer (respondJSON 200 (Reply_job job)) s')"

definition bulk_reply :: "string \<Rightarrow> (gerror + int) \<times> 's \<Rightarrow> http_response outcome \<times> 's" where
  "bulk_reply verb res = (case res of
     (Inl e, s') \<Rightarrow> answer (error_500 e) s'
   | (Inr affected, s') \<Rightarrow> answer (respondJSON 200 (Reply_affected affected
       (format_int affected @ '' DLQ jobs '' @ verb @ '' successfully''))) s')"

definition handleBulkReplayDLQ :: "'s Repository \<Rightarrow> 's Options \<Rightarrow> 's http_handler" where
  "handleBulkReplayDLQ R opts env r s =
    (if Method_rq r \<noteq> ''POST'' then answer method_not_allowed s
     else if ReadOnly opts then answer read_only_refusal s
     else bulk_reply ''replayed'' (BulkReplayDLQ_r R (op_now env) (parseJobFilterFromBody r) s))"

definition handleBulkSkipDLQ :: "'s Repository \<Rightarrow> 's Options \<Rightarrow> 's http_handler" where
  "handleBulkSkipDLQ R opts env r s =
    (if Method_rq r \<noteq> ''POST'' then answer method_not_allowed s
     else if ReadOnly opts then answer read_only_refusal s
     else bulk_reply ''skipped'' (BulkSkipDLQ_r R (op_now env) (parseJobFilterFromBody r) s))"

definition handleBulkPurgeDLQ :: "'s Repository \<Rightarrow> 's Options \<Rightarrow> 's http_handler" where
  "handleBulkPurgeDLQ R opts env r s =
    (if Method_rq r \<noteq> ''POST'' then answer method_not_allowed s
     else if ReadOnly opts then answer read_only_refusal s
     else bulk_reply ''purged'' (BulkPurgeDLQ_r R (parseJobFilterFromBody r) s))"

section \<open>The handler of the dashboard\<close>

text \<open>The page: the placeholders of the embedded file are filled in.\<close>

definition format_bool :: "bool \<Rightarrow> string" where
  "format_bool b = (if b then ''true'' else ''false'')"

definition render_index :: "'s Options \<Rightarrow> string \<Rightarrow> string" where
  "render_index opts html =
    ReplaceAll (ReplaceAll (ReplaceAll html ''{{ROOT_PATH}}'' (RootPath opts))
      ''{{TITLE}}'' (Title opts)) ''{{READ_ONLY}}'' (format_bool (ReadOnly opts))"

definition handleIndex :: "ui_deps \<Rightarrow> 's Options \<Rightarrow> 's http_handler" where
  "handleIndex D opts env r s = (let p = Path_rq r in
     if p = [] \<or> p = ''/'' \<or> p = ''/index.html'' \<or> \<not> Contains p ''.'' then
       (case index_html D of
          Inl e \<Rightarrow> answer (http_Error (Error e) 500) s
        | Inr html \<Rightarrow> answer \<lparr>Code_rs = 200,
            Headers_rs = [(''Content-Type'', ''text/html; charset=utf-8'')],
            Body_rs = Html (render_index opts html)\<rparr> s)
     else answer (file_server D r) s)"

definition routes :: "'s Repository \<Rightarrow> ui_deps \<Rightarrow> 's Options \<Rightarrow> (string \<times> 's http_handler) list" where
  "routes R D opts =
    [(''/api/stats'', handleStats R),
     (''/api/jobs'', handleJobs R),
     (''/api/jobs/'', handleJobDetailOrAction R D opts),
     (''/api/chains'', handleChains R),
     (''/api/enqueue'', handleEnqueue R D opts),
     (''/api/job-types'', handleJobTypes opts),
     (''/api/events'', handleSSEEvents R),
     (''/api/dlq/bulk-replay'', handleBulkReplayDLQ R opts),
     (''/api/dlq/bulk-skip'', handleBulkSkipDLQ R opts),
     (''/api/dlq/bulk-purge'', handleBulkPurgeDLQ R opts),
     (''/'', handleIndex D opts)]"

definition default_Options :: "'s Options" where
  "default_Options = \<lparr>RootPath = ''/ui'', Title = ''OrderedJob Dashboard'', ReadOnly = False,
     JobTypesProvider = None, AuthMiddleware = None\<rparr>"

definition apply_options :: "'s Option list \<Rightarrow> 's Options" where
  "apply_options opts = (let
     options = fold (\<lambda>o'. o') opts default_Options;
     root = TrimRight (RootPath options) (CHR ''/'')
   in options\<lparr>RootPath := (if root = [] then ''/ui'' else root)\<rparr>)"

definition strip_root :: "string \<Rightarrow> http_request \<Rightarrow> http_request" where
  "strip_root root r =
    (if HasPrefix (Path_rq r) root then
       (let p = TrimPrefix (Path_rq r) root in r\<lparr>Path_rq := (if p = [] then ''/'' else p)\<rparr>)
     else r)"

definition mainHandler :: "'s Repository \<Rightarrow> ui_deps \<Rightarrow> 's Options \<Rightarrow> 's http_handler" where
  "mainHandler R D options env r s =
    mux_ServeHTTP (routes R D options) env (strip_root (RootPath options) r) s"

definition NewHandler :: "'s Repository \<Rightarrow> ui_deps \<Rightarrow> 's Option list \<Rightarrow> 's http_handler" where
  "NewHandler R D opts = (let options = apply_options opts in
     case AuthMiddleware options of
       None \<Rightarrow> mainHandler R D options
     | Some m \<Rightarrow> m (mainHandler R D options))"

definition New_ui :: "'s Repository \<Rightarrow> ui_deps \<Rightarrow> 's Option list \<Rightarrow> 's http_handler" where
  "New_ui R D opts = NewHandler R D opts"

end
