(* ===== verification/Auth_Props.thy ===== *)
theory Auth_Props
  imports Auth
begin

text \<open>
  The laws of the dashboard's tokens: a generated token is accepted exactly until it expires, an
  accepted token carries the HMAC of what it says, and an expiry that is no whole number is not
  enforced.
\<close>

section \<open>Decimal texts are JSON numbers\<close>

lemma format_nat_first: "0 < n \<Longrightarrow> hd (format_nat n) \<noteq> CHR ''0''"
proof (induction n rule: format_nat.induct)
  case (1 n)
  show ?case
  proof (cases "n < 10")
    case True
    with 1(2) have "code (char_of (48 + n)) \<noteq> code (CHR ''0'')"
      by (simp add: code_char_of) (simp add: code_def)
    then have "char_of (48 + n) \<noteq> CHR ''0''" by (simp add: code_inj)
    with True show ?thesis by (simp add: format_nat.simps [of n])
  next
    case False
    with 1(1) have "hd (format_nat (n div 10)) \<noteq> CHR ''0''" by simp
    with False format_nat_digits [of "n div 10"] show ?thesis
      by (simp add: format_nat.simps [of n] hd_append)
  qed
qed

lemma dropWhile_all: "list_all P s \<Longrightarrow> dropWhile P s = []"
  by (simp add: list_all_iff)

lemma skip_unsigned_format_nat: "skip_unsigned (format_nat n) = Some []"
proof -
  obtain c cs where f: "format_nat n = c # cs" and d: "is_digit c" "list_all is_digit cs"
    using format_nat_digits [of n] by (cases "format_nat n") auto
  show ?thesis
  proof (cases "c = CHR ''0''")
    case True
    with f format_nat_first [of n] have "n = 0" by (cases "n = 0") auto
    with True f show ?thesis
      by (simp add: skip_unsigned_def format_nat.simps [of 0] skip_fraction_def)
  next
    case False
    with f d show ?thesis
      by (simp add: skip_unsigned_def skip_digits_def dropWhile_all skip_fraction_def)
  qed
qed

lemma number_ok_format_int: "number_ok (format_int i)"
proof -
  have "skip_number (format_nat n) = Some []" for n
    using skip_unsigned_format_nat [of n] format_nat_digits [of n]
    by (cases "format_nat n") (auto simp: skip_number_def is_digit_def code_def)
  then show ?thesis
    by (simp add: number_ok_def format_int_def) (simp add: skip_number_def skip_unsigned_format_nat)
qed

lemma ParseInt_format_int:
  assumes "0 \<le> i" and "i \<le> MaxInt64"
  shows "ParseInt (format_int i) = (i, None)"
  using assms ParseInt_format_nat [of "nat i"] by (simp add: format_int_def)

section \<open>Signed tokens\<close>

lemma decodeBase64URL_raw:
  "\<forall>b \<in> set bs. b < 256 \<Longrightarrow> decodeBase64URL (b64_encode RawURLEncoding bs) = Some bs"
  by (simp add: decodeBase64URL_def b64_decode_encode RawURLEncoding_def)

lemma sign_jwt_parts:
  "Split (sign_jwt secret payload) (CHR ''.'') =
    [b64_encode RawURLEncoding (bytes_of jwt_header), b64_encode RawURLEncoding (bytes_of payload),
     b64_encode RawURLEncoding (hmac_sha256 secret (b64_encode RawURLEncoding (bytes_of jwt_header) @
       ''.'' @ b64_encode RawURLEncoding (bytes_of payload)))]"
  by (simp add: sign_jwt_def Let_def Split_join Split_no_sep raw_url_encode_chars hmac_sha256_def
      sha.signature_chars)

lemma verify_sign_jwt:
  "verifyHS256JWT now (sign_jwt secret payload) secret = not_expired now (bytes_of payload)"
  by (simp add: verifyHS256JWT_def sign_jwt_parts Let_def decodeBase64URL_raw)
    (simp add: hmac_sha256_def sha.hmac_bytes decodeBase64URL_raw)

section \<open>The payload\<close>

text \<open>A claim the encoder writes back as it is, under a name the verifier does not take for \<open>exp\<close>.\<close>

definition plain_claim :: "string \<times> json option \<Rightarrow> bool" where
  "plain_claim c = (case c of (k, v) \<Rightarrow>
     valid_utf8 k \<and> (k = ''exp'' \<or> \<not> EqualFold ''exp'' k) \<and>
     (case v of None \<Rightarrow> True | Some j \<Rightarrow> json_ok j \<and> fits 1 j))"

definition plain_claims :: "claim_map \<Rightarrow> bool" where
  "plain_claims m \<longleftrightarrow> distinct (keys m) \<and> list_all plain_claim m"

lemma those_claims:
  "those (map (\<lambda>(k, v). map_option (Pair k) v) xs) = Some ms \<Longrightarrow>
   xs = map (\<lambda>(k, v). (k, Some v)) ms"
  by (induction xs arbitrary: ms) (auto split: option.splits)

lemma Marshal_claims_plain:
  assumes "Marshal_claims m = Inr payload" and "plain_claims m"
  obtains ms where "payload = json_text (JObject ms)" and "json_ok (JObject ms)"
    and "fits 0 (JObject ms)" and "distinct (map fst ms)"
    and "\<And>k v. (k, v) \<in> set ms \<longleftrightarrow> (k, Some v) \<in> set m"
    and "\<And>k v. (k, v) \<in> set ms \<Longrightarrow> k = ''exp'' \<or> \<not> EqualFold ''exp'' k"
proof -
  from assms(1) obtain ms where
    t: "those (map (\<lambda>(k, v). map_option (Pair k) v) (sorted_members m)) = Some ms"
    and p: "payload = json_text (JObject ms)"
    by (auto simp: Marshal_claims_def split: option.splits)
  have s: "sorted_members m = map (\<lambda>(k, v). (k, Some v)) ms" by (rule those_claims [OF t])
  have mem: "(k, v) \<in> set ms \<longleftrightarrow> (k, Some v) \<in> set m" for k v
  proof -
    have "(k, Some v) \<in> set m \<longleftrightarrow> (k, Some v) \<in> set (sorted_members m)"
      by (simp add: sorted_members_def)
    also have "\<dots> \<longleftrightarrow> (k, v) \<in> set ms" unfolding s by auto
    finally show ?thesis by simp
  qed
  have "mset (map fst ms) = mset (map fst m)"
    using arg_cong [OF s, of "\<lambda>l. mset (map fst l)"]
    by (simp add: sorted_members_def comp_def case_prod_unfold)
  then have d: "distinct (map fst ms)"
    using assms(2) by (metis mset_eq_imp_distinct_iff plain_claims_def)
  have "plain_claim (k, Some v)" if "(k, v) \<in> set ms" for k v
    using that assms(2) mem by (auto simp: plain_claims_def list_all_iff)
  then have q: "valid_utf8 k \<and> (k = ''exp'' \<or> \<not> EqualFold ''exp'' k) \<and> json_ok v \<and> fits 1 v"
    if "(k, v) \<in> set ms" for k v
    using that by (fastforce simp: plain_claim_def)
  have "json_ok (JObject ms)" "fits 0 (JObject ms)"
    using q by (auto simp: list_all_iff maxNestingDepth_def)
  with p d mem q that show ?thesis by blast
qed

lemma find_exp: "find_field claims_fields k =
    (if EqualFold ''exp'' k then Some (int_field ''exp'' (\<lambda>i _. i)) else None)"
  by (simp add: find_field_def claims_fields_def int_field_def)

lemma store_other: "\<not> EqualFold ''exp'' k \<Longrightarrow> store_member claims_fields (k, raw, v) st = st"
  by (simp add: store_member_def find_exp)

lemma fold_store_other:
  "list_all (\<lambda>(k, v). \<not> EqualFold ''exp'' k) ms \<Longrightarrow>
   fold (store_member claims_fields) (map (\<lambda>(k, v). (k, json_text v, v)) ms) st = st"
  by (induction ms) (auto simp: store_other)

text \<open>The expiry the verifier reads from a payload with one claim named \<open>exp\<close>.\<close>

lemma claims_exp:
  assumes ok: "json_ok (JObject ms)" "fits 0 (JObject ms)" and d: "distinct (map fst ms)"
    and oth: "\<And>k v. (k, v) \<in> set ms \<Longrightarrow> k = ''exp'' \<or> \<not> EqualFold ''exp'' k"
    and m: "(''exp'', v) \<in> set ms"
  shows "Unmarshal_struct claims_fields (json_text (JObject ms)) 0 =
    store_member claims_fields (''exp'', json_text v, v) (0, True)"
proof -
  from m obtain a b where ms: "ms = a @ (''exp'', v) # b" by (meson split_list)
  with d have "''exp'' \<notin> fst ` set a" "''exp'' \<notin> fst ` set b" by auto
  then have "list_all (\<lambda>(k, v). \<not> EqualFold ''exp'' k) a" "list_all (\<lambda>(k, v). \<not> EqualFold ''exp'' k) b"
    using oth ms by (force simp: list_all_iff)+
  then show ?thesis
    unfolding Unmarshal_struct_object [OF ok] by (simp add: ms fold_store_other)
qed

lemma claims_no_exp:
  assumes ok: "json_ok (JObject ms)" "fits 0 (JObject ms)"
    and "list_all (\<lambda>(k, v). \<not> EqualFold ''exp'' k) ms"
  shows "Unmarshal_struct claims_fields (json_text (JObject ms)) 0 = (0, True)"
  using fold_store_other [OF assms(3)]
  by (simp add: Unmarshal_struct_object [OF ok] del: json_text.simps)

lemma store_exp_number:
  "0 \<le> i \<Longrightarrow> i \<le> MaxInt64 \<Longrightarrow>
   store_member claims_fields (''exp'', raw, JNumber (format_int i)) st = (i, snd st)"
  by (simp add: store_member_def find_exp EqualFold_def int_field_def ParseInt_format_int)

lemma valid_utf8_exp: "valid_utf8 ''exp''"
  by (rule valid_utf8_ascii) (simp add: code_def)

lemma plain_claims_with_exp: "plain_claims m \<Longrightarrow> plain_claims (with_exp now d m)"
proof (cases "d = 0")
  case False
  assume p: "plain_claims m"
  let ?e = "(''exp'', Some (JNumber (format_int (Unix (now + d)))))"
  have dist: "distinct (keys (with_exp now d m))"
    using p by (simp add: with_exp_def plain_claims_def)
  have "c = ?e \<or> c \<in> set m" if c: "c \<in> set (with_exp now d m)" for c
  proof -
    have "lookup (with_exp now d m) (fst c) = Some (snd c)"
      using c by (simp add: in_set_lookup [OF dist, symmetric])
    with False show ?thesis
      by (cases c) (auto simp: with_exp_def split: if_splits dest: map_of_SomeD)
  qed
  moreover have "plain_claim ?e"
    by (simp add: plain_claim_def valid_utf8_exp number_ok_format_int)
  ultimately show ?thesis
    using dist p unfolding plain_claims_def list_all_iff by blast
qed (simp add: with_exp_def)

section \<open>Properties\<close>

text \<open>C14: 
  The round trip of tokens. A token made by \<open>GenerateHS256JWT\<close> with a lifetime is accepted under
  the same secret exactly while the clock has not passed its expiry, whatever other claims it
  carries (none of which may be named like \<open>exp\<close> up to case).
\<close>

theorem jwt_round_trip:
  assumes gen: "fst (GenerateHS256JWT now secret claims d) = Inr token" and d: "d \<noteq> 0"
    and plain: "plain_claims (case claims of None \<Rightarrow> [] | Some m \<Rightarrow> m)"
    and exp: "0 < Unix (now + d)" "Unix (now + d) \<le> MaxInt64"
  shows "verifyHS256JWT later token secret \<longleftrightarrow> Unix later \<le> Unix (now + d)"
proof -
  define m where "m = with_exp now d (case claims of None \<Rightarrow> [] | Some m \<Rightarrow> m)"
  from gen obtain payload where mar: "Marshal_claims m = Inr payload"
    and tok: "token = sign_jwt secret payload"
    by (auto simp: GenerateHS256JWT_def Let_def m_def split: sum.splits)
  have pm: "plain_claims m" unfolding m_def by (rule plain_claims_with_exp [OF plain])
  obtain ms where pay: "payload = json_text (JObject ms)" "json_ok (JObject ms)"
      "fits 0 (JObject ms)" "distinct (map fst ms)"
    and mem: "\<And>k v. (k, v) \<in> set ms \<longleftrightarrow> (k, Some v) \<in> set m"
    and oth: "\<And>k v. (k, v) \<in> set ms \<Longrightarrow> k = ''exp'' \<or> \<not> EqualFold ''exp'' k"
    using Marshal_claims_plain [OF mar pm] by metis
  have "(''exp'', JNumber (format_int (Unix (now + d)))) \<in> set ms"
    unfolding mem using pm d by (simp add: in_set_lookup plain_claims_def m_def with_exp_def)
  from claims_exp [OF pay(2-4) oth this] store_exp_number [of "Unix (now + d)"] exp
  have "Unmarshal_struct claims_fields payload 0 = (Unix (now + d), True)"
    by (simp add: pay(1) del: json_text.simps)
  with exp(1) show ?thesis by (simp add: tok verify_sign_jwt not_expired_def not_less)
qed

lemma jwt_round_trip_witness:
  "verifyHS256JWT (62135596805 * Second) (projr (fst (GenerateHS256JWT (62135596800 * Second) ''k''
     (Some [(''sub'', Some (JString ''ops''))]) (5 * Second)))) ''k'' \<and>
   \<not> verifyHS256JWT (62135596806 * Second) (projr (fst (GenerateHS256JWT (62135596800 * Second) ''k''
     (Some [(''sub'', Some (JString ''ops''))]) (5 * Second)))) ''k''"
proof -
  let ?claims = "Some [(''sub'', Some (JString ''ops''))]"
  have ascii: "valid_utf8 ''sub''" "valid_utf8 ''ops''"
    by (rule valid_utf8_ascii; simp add: code_def)+
  have p: "plain_claims (case ?claims of None \<Rightarrow> [] | Some m \<Rightarrow> m)"
    by (simp add: plain_claims_def plain_claim_def ascii EqualFold_def ToLower_def lower_char_def)
  have u: "Unix (62135596800 * Second + 5 * Second) = 5" "Unix (62135596805 * Second) = 5"
    "Unix (62135596806 * Second) = 6"
    by (simp_all add: Unix_def Second_def)
  have g: "fst (GenerateHS256JWT (62135596800 * Second) ''k'' ?claims (5 * Second)) =
      Inr (projr (fst (GenerateHS256JWT (62135596800 * Second) ''k'' ?claims (5 * Second))))"
    by (simp add: GenerateHS256JWT_def Let_def with_exp_def Marshal_claims_def sorted_members_def
        Second_def)
  show ?thesis
    using jwt_round_trip [OF g _ p, where later = "62135596805 * Second"]
      jwt_round_trip [OF g _ p, where later = "62135596806 * Second"]
    by (simp add: u MaxInt64_def) (simp add: Second_def)
qed

text \<open>C15: 
  One message per signature. An accepted token that carries the signature of a generated one is
  that token, or its header and payload are another message with the same HMAC.
\<close>

theorem jwt_no_other_message:
  assumes "fst (GenerateHS256JWT now secret claims d) = Inr token"
    and "Split token (CHR ''.'') = [h, p, sg]"
    and "verifyHS256JWT later token' secret" and "Split token' (CHR ''.'') = [h', p', sg]"
  shows "token' = token \<or>
    h' @ ''.'' @ p' \<noteq> h @ ''.'' @ p \<and>
    hmac_sha256 secret (h' @ ''.'' @ p') = hmac_sha256 secret (h @ ''.'' @ p)"
proof -
  from assms(1) obtain payload where tok: "token = sign_jwt secret payload"
    by (auto simp: GenerateHS256JWT_def Let_def split: sum.splits)
  from assms(2) have "decodeBase64URL sg = Some (hmac_sha256 secret (h @ ''.'' @ p))"
    by (auto simp: tok sign_jwt_parts hmac_sha256_def sha.hmac_bytes decodeBase64URL_raw)
  moreover from assms(3,4) have "decodeBase64URL sg = Some (hmac_sha256 secret (h' @ ''.'' @ p'))"
    by (auto simp: verifyHS256JWT_def Let_def split: option.splits if_splits)
  ultimately have "hmac_sha256 secret (h' @ ''.'' @ p') = hmac_sha256 secret (h @ ''.'' @ p)" by simp
  moreover have "token = h @ ''.'' @ p @ ''.'' @ sg" "token' = h' @ ''.'' @ p' @ ''.'' @ sg"
    using Join_Split [of token "CHR ''.''"] Join_Split [of token' "CHR ''.''"] assms(2,4) by auto
  ultimately show ?thesis by auto
qed

lemma jwt_no_other_message_witness:
  "\<exists>h p sg. Split (projr (fst (GenerateHS256JWT 0 ''k'' None 0))) (CHR ''.'') = [h, p, sg] \<and>
     (projr (fst (GenerateHS256JWT 0 ''k'' None 0)) = projr (fst (GenerateHS256JWT 0 ''k'' None 0)) \<or>
      h @ ''.'' @ p \<noteq> h @ ''.'' @ p \<and>
      hmac_sha256 ''k'' (h @ ''.'' @ p) = hmac_sha256 ''k'' (h @ ''.'' @ p))"
proof -
  let ?payload = "json_text (JObject [])"
  have g: "fst (GenerateHS256JWT 0 ''k'' None 0) = Inr (sign_jwt ''k'' ?payload)"
    by (simp add: GenerateHS256JWT_def Let_def with_exp_def Marshal_claims_def sorted_members_def)
  have u: "Unmarshal_struct claims_fields ?payload 0 = (0, True)"
    by (rule claims_no_exp) (simp_all add: maxNestingDepth_def)
  then have v: "verifyHS256JWT 0 (sign_jwt ''k'' ?payload) ''k''"
    unfolding verify_sign_jwt by (simp add: not_expired_def del: json_text.simps)
  obtain h p sg where sp: "Split (sign_jwt ''k'' ?payload) (CHR ''.'') = [h, p, sg]"
    by (simp add: sign_jwt_parts)
  from jwt_no_other_message [OF g sp v sp] sp show ?thesis by (auto simp: g)
qed

text \<open>C16: 
  An expiry that is not a whole number is not enforced. A token whose \<open>exp\<close> claim is a string, a
  fraction or any other value the decoder refuses for an \<open>int64\<close> is accepted at every time.
\<close>

theorem bad_exp_never_expires:
  assumes "json_ok v" and "fits 1 v" and "v \<noteq> JNull"
    and "\<And>t. v = JNumber t \<Longrightarrow> snd (ParseInt t) \<noteq> None"
  shows "\<exists>token. fst (GenerateHS256JWT now secret (Some [(''exp'', Some v)]) 0) = Inr token \<and>
    verifyHS256JWT later token secret"
proof -
  let ?ms = "[(''exp'', v)]"
  have ok: "json_ok (JObject ?ms)" "fits 0 (JObject ?ms)"
    using assms(1,2) by (simp_all add: valid_utf8_exp maxNestingDepth_def)
  have "store_member claims_fields (''exp'', json_text v, v) (0, True) = (0, False)"
    using assms(3,4) by (cases v)
      (auto simp: store_member_def find_exp EqualFold_def int_field_def split: prod.split option.split)
  then have "Unmarshal_struct claims_fields (json_text (JObject ?ms)) 0 = (0, False)"
    by (subst claims_exp [OF ok, of v]) simp_all
  then have "verifyHS256JWT later (sign_jwt secret (json_text (JObject ?ms))) secret"
    unfolding verify_sign_jwt by (simp add: not_expired_def del: json_text.simps)
  moreover have "fst (GenerateHS256JWT now secret (Some [(''exp'', Some v)]) 0) =
      Inr (sign_jwt secret (json_text (JObject ?ms)))"
    by (simp add: GenerateHS256JWT_def Let_def with_exp_def Marshal_claims_def sorted_members_def)
  ultimately show ?thesis by blast
qed

lemma bad_exp_never_expires_witness:
  "\<exists>token. fst (GenerateHS256JWT 0 ''k'' (Some [(''exp'', Some (JNumber ''1.5''))]) 0) = Inr token \<and>
    verifyHS256JWT (70000000000 * Second) token ''k''"
proof (rule bad_exp_never_expires)
  show "json_ok (JNumber ''1.5'')" by code_simp
  show "snd (ParseInt t) \<noteq> None" if "JNumber ''1.5'' = JNumber t" for t
  proof -
    have "snd (ParseInt ''1.5'') \<noteq> None" by code_simp
    with that show ?thesis by simp
  qed
qed simp_all

text \<open>
  Basic authentication. The header a client sends for a user and a password passes the check for
  exactly these; a configured user name with a colon locks everybody out.
\<close>

theorem basic_auth_round_trip:
  "CHR '':'' \<notin> set u \<Longrightarrow> Authorization_rq r = basic_auth_header u p \<Longrightarrow>
   (basic_ok user pass env r \<longleftrightarrow> u = user \<and> p = pass) \<and>
   (CHR '':'' \<in> set user \<longrightarrow> \<not> basic_ok user pass env r')"
  by (auto simp: basic_ok_def BasicAuth_header split: option.splits dest: BasicAuth_user)

end
