(* ===== verification/Ui_Props.thy ===== *)
theory Ui_Props
  imports Ui Auth_Props
begin

text \<open>
  The laws of the dashboard: who reaches it, which requests can change the repository, where a
  request is routed, and what two kinds of requests do that the code does not defend against.
\<close>

section \<open>Handlers and middlewares that keep the state\<close>

definition only_gates :: "'s middleware \<Rightarrow> bool" where
  "only_gates m \<longleftrightarrow>
    (\<forall>h env r s. m h env r s = h env r s \<or> (\<exists>c. m h env r s = (c, s)))"

lemma only_gates_guard: "only_gates (guard hs ok)"
  by (simp add: only_gates_def guard_def answer_def)

lemma only_gates_chain:
  "only_gates f \<Longrightarrow> only_gates g \<Longrightarrow> ChainMiddlewares (Some f) (Some g) = Some h \<Longrightarrow> only_gates h"
  unfolding only_gates_def ChainMiddlewares_def by (clarsimp, metis)

lemma answer_state [simp]: "snd (answer c s) = s"
  by (simp add: answer_def)

lemmas handler_defs = handleStats_def handleJobs_def handleJobDetailOrAction_def handleChains_def
  handleEnqueue_def handleJobTypes_def handleSSEEvents_def handleBulkReplayDLQ_def
  handleBulkSkipDLQ_def handleBulkPurgeDLQ_def handleIndex_def

lemma route_keeps:
  assumes "ReadOnly opts \<or> Method_rq r \<noteq> ''POST''" and "(pat, h) \<in> set (routes R D opts)"
  shows "snd (h env r s) = s"
  using assms(2) unfolding routes_def
  by (simp only: set_simps insert_iff empty_iff prod.inject)
    (elim disjE conjE FalseE; use assms(1) in
      \<open>cases "ReadOnly opts";
        simp add: handler_defs Let_def split: option.split list.split sum.split outcome.split prod.split\<close>)

lemma strip_root_method [simp]: "Method_rq (strip_root root r) = Method_rq r"
  by (simp add: strip_root_def Let_def)

lemma mainHandler_keeps:
  assumes "ReadOnly opts \<or> Method_rq r \<noteq> ''POST''"
  shows "snd (mainHandler R D opts env r s) = s"
proof (cases rule: mux_ServeHTTP_cases [of "routes R D opts" env "strip_root (RootPath opts) r" s])
  case (2 pat h)
  with route_keeps [of opts "strip_root (RootPath opts) r" pat h R D env s] assms show ?thesis
    by (simp add: mainHandler_def)
qed (simp add: mainHandler_def)

text \<open>C12: 
  Only \<open>POST\<close> changes the repository, and nothing does in read-only mode. Whatever the repository,
  the path, the query and the body are, a request that is not a \<open>POST\<close>, or any request to a
  read-only dashboard, leaves the state as it was (behind middlewares that only pass on or answer).
\<close>

theorem dashboard_keeps_state:
  assumes "ReadOnly (apply_options opts) \<or> Method_rq r \<noteq> ''POST''"
    and "\<And>m. AuthMiddleware (apply_options opts) = Some m \<Longrightarrow> only_gates m"
  shows "snd (NewHandler R D opts env r s) = s"
proof (cases "AuthMiddleware (apply_options opts)")
  case None
  with assms(1) show ?thesis by (simp add: NewHandler_def Let_def mainHandler_keeps)
next
  case (Some m)
  from assms(2) [OF Some] have "m (mainHandler R D (apply_options opts)) env r s =
      mainHandler R D (apply_options opts) env r s \<or>
      (\<exists>c. m (mainHandler R D (apply_options opts)) env r s = (c, s))"
    unfolding only_gates_def by blast
  with Some mainHandler_keeps [OF assms(1), of R D env s] show ?thesis
    by (auto simp: NewHandler_def Let_def)
qed

definition sample_request :: "string \<Rightarrow> string \<Rightarrow> string \<Rightarrow> http_request" where
  "sample_request meth path body = \<lparr>Method_rq = meth, Path_rq = path, Query_rq = [],
     Authorization_rq = [], Body_rq = body\<rparr>"

definition demo_deps :: ui_deps where
  "demo_deps = \<lparr>uuid_Parse = (\<lambda>t. if t = ''7'' then Some 7 else None),
     parse_RFC3339 = (\<lambda>t. None), any_of_json = (\<lambda>v. Any_json (json_text v)),
     decode_error = (\<lambda>t. ''unexpected EOF''), index_html = Inr ''{{TITLE}}'',
     file_server = (\<lambda>r. http_Error ''404 page not found'' 404)\<rparr>"

definition demo_env :: "repo call_env" where
  "demo_env = \<lparr>auth_now = 62135596800 * Second, op_now = 62135596800 * Second, op_uuid = 1,
     can_flush = True, ticks = []\<rparr>"

lemma dashboard_keeps_state_witness:
  "snd (NewHandler (memory_repository format_nat) demo_deps [WithReadOnly True, WithTokenAuth ''t''] demo_env
     (sample_request ''POST'' ''/ui/api/dlq/bulk-purge'' []) two_jobs_failed) = two_jobs_failed"
proof (rule dashboard_keeps_state)
  let ?opts = "[WithReadOnly True, WithTokenAuth ''t'']"
  show "ReadOnly (apply_options ?opts) \<or>
      Method_rq (sample_request ''POST'' ''/ui/api/dlq/bulk-purge'' []) \<noteq> ''POST''"
    by (simp add: apply_options_def Let_def WithReadOnly_def WithTokenAuth_def add_auth_def)
  show "only_gates m" if "AuthMiddleware (apply_options ?opts) = Some m" for m
    using that by (simp add: apply_options_def Let_def WithReadOnly_def WithTokenAuth_def add_auth_def
        default_Options_def ChainMiddlewares_def) (use only_gates_guard in blast)
qed

section \<open>Authentication\<close>

text \<open>The built-in options that protect the dashboard, their checks and the headers of their
  refusals.\<close>

datatype auth_kind =
    Basic_auth string string
  | Token_auth string
  | JWT_auth string
  | Validator_auth "(string \<Rightarrow> bool) option"
  | Func_auth "(http_request \<Rightarrow> bool) option"

fun auth_option :: "auth_kind \<Rightarrow> 's Option" where
  "auth_option (Basic_auth u p) = WithBasicAuth u p"
| "auth_option (Token_auth t) = WithTokenAuth t"
| "auth_option (JWT_auth k) = WithJWTAuth k"
| "auth_option (Validator_auth v) = WithJWTValidator v"
| "auth_option (Func_auth f) = WithAuthFunc f"

fun auth_check :: "'s call_env \<Rightarrow> http_request \<Rightarrow> auth_kind \<Rightarrow> bool" where
  "auth_check env r (Basic_auth u p) = basic_ok u p env r"
| "auth_check env r (Token_auth t) = secret_ok t env r"
| "auth_check env r (JWT_auth k) = jwt_ok k env r"
| "auth_check env r (Validator_auth v) = validator_ok v env r"
| "auth_check env r (Func_auth f) = auth_func_ok f env r"

fun auth_headers :: "auth_kind \<Rightarrow> (string \<times> string) list" where
  "auth_headers (Basic_auth u p) = [(''WWW-Authenticate'', ''Basic realm=\"OrderedJob Dashboard\"'')]"
| "auth_headers _ = []"

definition neutral :: "'s Option \<Rightarrow> bool" where
  "neutral opt \<longleftrightarrow> (\<forall>x. AuthMiddleware (opt x) = AuthMiddleware x)"

lemma neutral_options [simp]:
  "neutral (WithRootPath p)" "neutral (WithTitle t)" "neutral (WithReadOnly b)"
  "neutral (WithJobTypesProvider j)"
  by (simp_all add: neutral_def WithRootPath_def WithTitle_def WithReadOnly_def
      WithJobTypesProvider_def)

lemma fold_neutral:
  "list_all neutral opts \<Longrightarrow> AuthMiddleware (fold (\<lambda>f. f) opts x) = AuthMiddleware x"
  by (induction opts arbitrary: x) (auto simp: neutral_def)

lemma auth_option_guard:
  "auth_option k x = add_auth (Some (guard (auth_headers k) (\<lambda>env r. auth_check env r k))) x"
  by (cases k) (simp_all add: WithBasicAuth_def WithTokenAuth_def WithJWTAuth_def
      WithJWTValidator_def WithAuthFunc_def)

text \<open>What the middlewares of the options do, one after the other in the order of the options.\<close>

definition run_auth :: "auth_kind list \<Rightarrow> 's http_handler \<Rightarrow> 's http_handler" where
  "run_auth ks h env r s = (case List.find (\<lambda>k. \<not> auth_check env r k) ks of
     Some k \<Rightarrow> answer (unauthorized (auth_headers k)) s | None \<Rightarrow> h env r s)"

definition run_middleware :: "'s middleware option \<Rightarrow> 's middleware" where
  "run_middleware m h = (case m of None \<Rightarrow> h | Some f \<Rightarrow> f h)"

lemma run_ChainMiddlewares:
  "run_middleware (ChainMiddlewares m1 m2) h = run_middleware m1 (run_middleware m2 h)"
  by (simp add: run_middleware_def ChainMiddlewares_def split: option.split)

lemma run_auth_Nil: "run_auth [] h = h"
  by (simp add: run_auth_def fun_eq_iff)

lemma run_auth_Cons:
  "guard (auth_headers k) (\<lambda>env r. auth_check env r k) (run_auth ks h) = run_auth (k # ks) h"
  by (simp add: run_auth_def guard_def fun_eq_iff)

lemma run_auth_options:
  "run_middleware (AuthMiddleware (fold (\<lambda>f. f) (map auth_option ks) x)) h =
   run_middleware (AuthMiddleware x) (run_auth ks h)"
proof (induction ks arbitrary: x)
  case (Cons k ks)
  have "run_middleware (AuthMiddleware (auth_option k x)) (run_auth ks h) =
      run_middleware (AuthMiddleware x) (run_auth (k # ks) h)"
    unfolding auth_option_guard add_auth_def run_auth_Cons [symmetric]
    by (simp add: run_ChainMiddlewares) (simp add: run_middleware_def)
  with Cons show ?case by simp
qed (simp add: run_auth_Nil)

text \<open>C13: 
  The gate. With any list of the built-in authentication options, a request reaches the dashboard
  exactly when every check accepts it; else the first check that refuses answers 401, on every path
  and method, and the repository is untouched.
\<close>

theorem dashboard_auth_gate:
  assumes "list_all neutral pre"
  shows "NewHandler R D (pre @ map auth_option ks) env r s =
    (case List.find (\<lambda>k. \<not> auth_check env r k) ks of
       Some k \<Rightarrow> (Returns (unauthorized (auth_headers k)), s)
     | None \<Rightarrow> mainHandler R D (apply_options (pre @ map auth_option ks)) env r s)"
proof -
  let ?o = "apply_options (pre @ map auth_option ks)"
  have "AuthMiddleware (fold (\<lambda>f. f) pre default_Options) = None"
    by (simp add: fold_neutral [OF assms] default_Options_def)
  then have "run_middleware (AuthMiddleware ?o) h = run_auth ks h" for h
    using run_auth_options [of ks "fold (\<lambda>f. f) pre default_Options" h]
    by (simp add: apply_options_def Let_def) (simp add: run_middleware_def)
  moreover have "NewHandler R D (pre @ map auth_option ks) =
      run_middleware (AuthMiddleware ?o) (mainHandler R D ?o)"
    by (simp add: NewHandler_def Let_def run_middleware_def)
  ultimately show ?thesis by (simp add: run_auth_def answer_def split: option.split)
qed

lemma dashboard_auth_gate_witness:
  "NewHandler (memory_repository format_nat) demo_deps
     ([WithReadOnly True] @ map auth_option [Token_auth ''t'', Basic_auth ''u'' ''p'']) demo_env
     ((sample_request ''GET'' ''/ui/api/stats'' [])\<lparr>Query_rq := [(''token'', ''t'')]\<rparr>) two_jobs =
   (Returns (unauthorized (auth_headers (Basic_auth ''u'' ''p''))), two_jobs)"
  by (subst dashboard_auth_gate)
    (simp_all add: secret_ok_def basic_ok_def extractToken_def query_get_def sample_request_def
      BasicAuth_def Let_def ToLower_def)

section \<open>Routing\<close>

text \<open>A path of clean segments is its own clean path.\<close>

definition clean_seg :: "string \<Rightarrow> bool" where
  "clean_seg seg \<longleftrightarrow> seg \<noteq> [] \<and> seg \<noteq> ''.'' \<and> seg \<noteq> ''..'' \<and> CHR ''/'' \<notin> set seg"

definition path_of :: "string list \<Rightarrow> string" where
  "path_of segs = concat (map (\<lambda>seg. CHR ''/'' # seg) segs)"

lemma Split_path_of:
  "list_all clean_seg segs \<Longrightarrow> CHR ''/'' \<notin> set a \<Longrightarrow>
   Split (a @ path_of segs) (CHR ''/'') = a # segs"
proof (induction segs arbitrary: a)
  case (Cons seg segs)
  then show ?case
    using Cons.IH [of seg]
    by (auto simp: path_of_def Split_join clean_seg_def)
qed (simp add: path_of_def Split_no_sep)

lemma fold_clean_segs:
  "list_all clean_seg segs \<Longrightarrow> fold clean_segment segs acc = rev segs @ acc"
  by (induction segs arbitrary: acc) (auto simp: clean_segment_def clean_seg_def)

lemma path_of_last: "list_all clean_seg segs \<Longrightarrow> segs \<noteq> [] \<Longrightarrow> last (path_of segs) \<noteq> CHR ''/''"
proof (induction segs)
  case (Cons seg segs)
  then have "last seg \<in> set seg" "CHR ''/'' \<notin> set seg" by (simp_all add: clean_seg_def)
  with Cons show ?case
    by (cases segs) (auto simp: path_of_def last_append)
qed simp

lemma cleanPath_path_of:
  assumes "list_all clean_seg segs" and "segs \<noteq> []"
  shows "cleanPath (path_of segs) = path_of segs"
proof -
  have "clean_segments (path_of segs) = segs"
    using Split_path_of [OF assms(1), of "[]"] fold_clean_segs [OF assms(1), of "[]"]
    by (simp add: clean_segments_def) (simp add: clean_segment_def)
  with path_of_last [OF assms] assms(2) show ?thesis
    by (auto simp: cleanPath_def Let_def path_of_def)
qed

lemma mux_clean:
  assumes "Path_rq r = path_of segs" and "list_all clean_seg segs" and "segs \<noteq> []"
    and "mux_match pats (Path_rq r) = Some h"
  shows "mux_ServeHTTP pats env r s = h env r s"
  using assms cleanPath_path_of [OF assms(2,3)] by (simp add: mux_ServeHTTP_def)

lemma strip_root_path:
  "Path_rq r = root @ path_of segs \<Longrightarrow> segs \<noteq> [] \<Longrightarrow>
   Path_rq (strip_root root r) = path_of segs"
  by (cases segs) (auto simp: strip_root_def Let_def HasPrefix_iff path_of_def)

lemma strip_root_keeps [simp]:
  "Query_rq (strip_root root r) = Query_rq r" "Body_rq (strip_root root r) = Body_rq r"
  "query_get (strip_root root r) k = query_get r k"
  by (simp_all add: strip_root_def Let_def query_get_def)

lemma mainHandler_route:
  assumes "Path_rq r = RootPath opts @ path_of segs" and "list_all clean_seg segs" and "segs \<noteq> []"
    and "mux_match (routes R D opts) (path_of segs) = Some h"
  shows "mainHandler R D opts env r s = h env (strip_root (RootPath opts) r) s"
  unfolding mainHandler_def
  by (rule mux_clean) (use assms strip_root_path [OF assms(1,3)] in simp_all)

lemma route_api:
  "mux_match (routes R D opts) (path_of [''api'', ''jobs'']) = Some (handleJobs R)"
  "mux_match (routes R D opts) (path_of [''api'', ''dlq'', ''bulk-purge'']) =
     Some (handleBulkPurgeDLQ R opts)"
  "mux_match (routes R D opts) (path_of [''api'', ''enqueue'']) = Some (handleEnqueue R D opts)"
  by (simp_all add: mux_match_def routes_def pattern_matches_def longer_pattern_def path_of_def)

lemma route_job_action:
  "clean_seg i \<Longrightarrow>
   mux_match (routes R D opts) (path_of [''api'', ''jobs'', i, a]) = Some (handleJobDetailOrAction R D opts)"
  by (simp add: mux_match_def routes_def pattern_matches_def longer_pattern_def path_of_def)

text \<open>C17: 
  The actions on a job. A \<open>POST\<close> to \<open>/api/jobs/<id>/<action>\<close> under the root path of a dashboard
  that is not read-only runs that action of the repository on that job, once; a text that is no id
  is answered 400 and changes nothing.
\<close>

theorem dashboard_job_action:
  assumes "Method_rq r = ''POST''" and "\<not> ReadOnly opts"
    and "Path_rq r = RootPath opts @ path_of [''api'', ''jobs'', i, a]"
    and "clean_seg i" and "clean_seg a"
  shows "mainHandler R D opts env r s =
    (case uuid_Parse D i of
       None \<Rightarrow> answer (http_Error ''Invalid Job UUID'' 400) s
     | Some u \<Rightarrow>
         if a = ''skip'' then act u a (SkipJob_r R (op_now env) u s)
         else if a = ''cancel'' then act u a (RequestCancel_r R (op_now env) u s)
         else if a = ''replay'' then act u a (replay_action R env r u s)
         else if a = ''reschedule'' then reschedule_action R D env r u s
         else answer (http_Error ''Unknown Action'' 400) s)"
proof -
  let ?segs = "[''api'', ''jobs'', i, a]" and ?r = "strip_root (RootPath opts) r"
  have "list_all clean_seg ?segs" using assms(4,5) by (simp add: clean_seg_def)
  then have m: "mainHandler R D opts env r s = handleJobDetailOrAction R D opts env ?r s"
    by (rule mainHandler_route [OF assms(3) _ _ route_job_action [OF assms(4)]]) simp
  have "path_of ?segs = ''/api/jobs/'' @ i @ CHR ''/'' # a" by (simp add: path_of_def)
  then have "Split (TrimPrefix (Path_rq ?r) ''/api/jobs/'') (CHR ''/'') = [i, a]"
    using strip_root_path [OF assms(3)] assms(4,5)
    by (simp only: TrimPrefix_append list.distinct simp_thms)
      (simp add: Split_join Split_no_sep clean_seg_def)
  with m assms(1,2,4) show ?thesis
    by (auto simp: handleJobDetailOrAction_def job_action_def replay_action_def
        reschedule_action_def clean_seg_def split: option.split)
qed

lemma dashboard_job_action_witness:
  "mainHandler (memory_repository format_nat) demo_deps default_Options demo_env
     (sample_request ''POST'' ''/ui/api/jobs/7/skip'' []) two_jobs =
   act 7 ''skip'' (SkipJob_r (memory_repository format_nat) (op_now demo_env) 7 two_jobs)"
  by (subst dashboard_job_action [where i = "''7''" and a = "''skip''"])
    (simp_all add: sample_request_def default_Options_def path_of_def clean_seg_def demo_deps_def)

section \<open>Pages\<close>

text \<open>
  The bounds of a page. The limit is between 1 and 200, the page at least 1, and the offset is the
  number of entries on the pages before, unless that product does not fit in 64 bits.
\<close>

theorem page_bounds:
  "1 \<le> query_limit r \<and> query_limit r \<le> 200 \<and> 1 \<le> query_page r \<and> query_page r \<le> MaxInt64 \<and>
   (query_offset r = (query_page r - 1) * query_limit r \<or>
    MaxInt64 < (query_page r - 1) * query_limit r)"
proof -
  have l: "1 \<le> query_limit r" "query_limit r \<le> 200"
    by (simp_all add: query_limit_def Let_def)
  have p: "1 \<le> query_page r" "query_page r \<le> MaxInt64"
    using ParseInt_range [of "query_get r ''page''"]
    by (simp_all add: query_page_def Let_def MaxInt64_def)
  then have "0 \<le> (query_page r - 1) * query_limit r" using l by simp
  then have "query_offset r = (query_page r - 1) * query_limit r \<or>
      MaxInt64 < (query_page r - 1) * query_limit r"
    using wrap64_in_range [of "(query_page r - 1) * query_limit r"]
    by (auto simp: query_offset_def MaxInt64_def)
  with l p show ?thesis by blast
qed

lemma huge_page:
  assumes "list_all is_digit (query_get r ''page'')" and "query_get r ''page'' \<noteq> []"
    and "MaxInt64 \<le> int (digits_value (query_get r ''page''))"
  shows "query_page r = MaxInt64"
proof -
  obtain c cs where q: "query_get r ''page'' = c # cs" using assms(2) by (cases "query_get r ''page''") auto
  with assms(1) have "c \<noteq> CHR ''-''" "c \<noteq> CHR ''+''" by (auto simp: is_digit_def code_def)
  with q have "ParseInt (query_get r ''page'') = parse_digits 1 (query_get r ''page'')"
    by (simp add: ParseInt_def)
  with assms show ?thesis
    by (simp add: query_page_def parse_digits_def MaxInt64_def MinInt64_def Let_def)
qed

lemma ListJobs_mem_negative:
  "Offset_flt flt < 0 \<Longrightarrow> fst (ListJobs_mem us now flt r) = Panics ''slice bounds out of range''"
  by (simp add: ListJobs_mem_def Let_def paginate_negative)

text \<open>C18: 
  A huge page number panics. On the in-memory repository a \<open>GET\<close> of the job list with the default
  limit and a page number of \<open>2^63 - 1\<close> or more (any number of digits) computes the offset -40 and
  ends in a panic, whatever jobs there are.
\<close>

theorem huge_page_panics:
  assumes "Method_rq r = ''GET''" and "Path_rq r = RootPath opts @ path_of [''api'', ''jobs'']"
    and "query_get r ''limit'' = []"
    and "list_all is_digit (query_get r ''page'')" and "query_get r ''page'' \<noteq> []"
    and "MaxInt64 \<le> int (digits_value (query_get r ''page''))"
  shows "mainHandler (memory_repository us) D opts env r s =
    (Panics ''slice bounds out of range'', s)"
proof -
  have segs: "list_all clean_seg [''api'', ''jobs'']" by (simp add: clean_seg_def)
  let ?r = "strip_root (RootPath opts) r"
  have p: "query_page ?r = MaxInt64" using huge_page [of ?r] assms(4-6) by simp
  have l: "query_limit ?r = 20" using assms(3) by (simp add: query_limit_def ParseInt_def)
  have "query_offset ?r = - 40"
    by (simp add: query_offset_def p l MaxInt64_def wrap64_def)
  then have "fst (ListJobs_mem us (op_now env) (jobs_filter ?r) s) = Panics ''slice bounds out of range''"
    by (intro ListJobs_mem_negative) (simp add: jobs_filter_def Let_def)
  then have "ListJobs_r (memory_repository us) (op_now env) (jobs_filter ?r) s =
      Panics ''slice bounds out of range''"
    by (auto simp: memory_repository_def split: prod.split)
  moreover have "mainHandler (memory_repository us) D opts env r s =
      handleJobs (memory_repository us) env ?r s"
    by (rule mainHandler_route [OF assms(2) segs _ route_api(1)]) simp
  ultimately show ?thesis using assms(1) by (simp add: handleJobs_def)
qed

lemma huge_page_panics_witness:
  "mainHandler (memory_repository format_nat) demo_deps default_Options demo_env
     ((sample_request ''GET'' ''/ui/api/jobs'' [])\<lparr>Query_rq := [(''page'', ''9223372036854775807'')]\<rparr>)
     two_jobs_failed = (Panics ''slice bounds out of range'', two_jobs_failed)"
  by (rule huge_page_panics)
    (simp_all add: sample_request_def default_Options_def path_of_def query_get_def is_digit_def
      code_def digits_value_def MaxInt64_def)

section \<open>Filters in bodies\<close>

definition filter_body :: "JobFilter \<Rightarrow> json" where
  "filter_body f = JObject
    [(''chain_id'', JString (ChainID_flt f)), (''job_type'', JString (JobType_flt f)),
     (''tenant_id'', JString (TenantID_flt f)), (''trace_id'', JString (TraceID_flt f)),
     (''search'', JString (Search_flt f))]"

lemma ascii_names [simp]:
  "valid_utf8 ''chain_id''" "valid_utf8 ''job_type''" "valid_utf8 ''tenant_id''"
  "valid_utf8 ''trace_id''" "valid_utf8 ''search''"
  by (rule valid_utf8_ascii; simp add: code_def)+

text \<open>C20: 
  The round trip of bulk filters. The filter read from the JSON text of five strings, followed by
  anything that ends it, is these strings; the fields a bulk request cannot name stay empty.
\<close>

theorem filter_body_round_trip:
  assumes "valid_utf8 (ChainID_flt f)" and "valid_utf8 (JobType_flt f)" and "valid_utf8 (TenantID_flt f)"
    and "valid_utf8 (TraceID_flt f)" and "valid_utf8 (Search_flt f)"
    and "Body_rq r = json_text (filter_body f) @ rest" and "stops rest"
  shows "parseJobFilterFromBody r = zero_JobFilter\<lparr>ChainID_flt := ChainID_flt f,
    JobType_flt := JobType_flt f, TenantID_flt := TenantID_flt f, TraceID_flt := TraceID_flt f,
    Search_flt := Search_flt f\<rparr>"
proof -
  have "json_ok (filter_body f)" "fits 0 (filter_body f)"
    using assms(1-5) by (simp_all add: filter_body_def maxNestingDepth_def)
  from read_object_text [OF this [unfolded filter_body_def] assms(7)] assms(6) show ?thesis
    by (simp add: parseJobFilterFromBody_def Decode_struct_def filter_body_def del: json_text.simps)
      (simp add: store_document_def store_member_def find_field_def filter_fields_def
        string_field_def EqualFold_def ToLower_def lower_char_def zero_JobFilter_def)
qed

lemma filter_body_round_trip_witness:
  "parseJobFilterFromBody (sample_request ''POST'' ''/ui''
     (json_text (filter_body (zero_JobFilter\<lparr>ChainID_flt := ''c1''\<rparr>)) @ [])) =
   zero_JobFilter\<lparr>ChainID_flt := ''c1'', JobType_flt := [], TenantID_flt := [], TraceID_flt := [],
     Search_flt := []\<rparr>"
proof -
  have "valid_utf8 ''c1''" by (rule valid_utf8_ascii) (simp add: code_def)
  then show ?thesis
    by (subst filter_body_round_trip [where f = "zero_JobFilter\<lparr>ChainID_flt := ''c1''\<rparr>" and rest = "[]"])
      (simp_all add: zero_JobFilter_def sample_request_def)
qed

text \<open>C19: 
  A body that is no JSON purges everything. On the in-memory repository a \<open>POST\<close> to the bulk purge
  whose body does not parse is not refused: it is answered with success and removes every job of the
  dead-letter queue.
\<close>

theorem garbage_purges_all:
  assumes "Method_rq r = ''POST''" and "\<not> ReadOnly opts"
    and "Path_rq r = RootPath opts @ path_of [''api'', ''dlq'', ''bulk-purge'']"
    and "read_document (Body_rq r) = None" and wf: "repo_wf s"
  shows "\<exists>msg s'. mainHandler (memory_repository us) D opts env r s =
      (Returns (respondJSON 200 (Reply_affected (CountDLQ_mem s) msg)), s') \<and>
    CountDLQ_mem s' = 0 \<and>
    (\<forall>k. jobAt s' k = (case jobAt s k of
       None \<Rightarrow> None | Some j \<Rightarrow> if in_dlq j then None else Some j))"
proof -
  have segs: "list_all clean_seg [''api'', ''dlq'', ''bulk-purge'']" by (simp add: clean_seg_def)
  let ?r = "strip_root (RootPath opts) r" and ?R = "memory_repository us"
  let ?b = "BulkPurgeDLQ_mem us zero_JobFilter s"
  have hit: "(\<lambda>j. matchesDLQFilter us j zero_JobFilter) = in_dlq"
    by (simp add: matches_zero_filter fun_eq_iff)
  have b: "fst ?b = CountDLQ_mem s" "CountDLQ_mem (snd ?b) = 0"
    "jobAt (snd ?b) k = (case jobAt s k of None \<Rightarrow> None | Some j \<Rightarrow> if in_dlq j then None else Some j)"
    for k
    using bulk_purge.run_count [OF wf, of us zero_JobFilter]
      bulk_purge.run_empties [OF wf, of us zero_JobFilter]
      bulk_purge.run_jobAt [OF wf, of us zero_JobFilter k]
    unfolding CountDLQ_count BulkPurgeDLQ_mem_def hit
    by (auto simp: matches_zero_filter split: option.splits)
  have "parseJobFilterFromBody ?r = zero_JobFilter"
    using assms(4) by (simp add: parseJobFilterFromBody_def Decode_struct_syntax)
  moreover have "mainHandler ?R D opts env r s = handleBulkPurgeDLQ ?R opts env ?r s"
    by (rule mainHandler_route [OF assms(3) segs _ route_api(2)]) simp
  moreover have "BulkPurgeDLQ_r ?R f s = (case BulkPurgeDLQ_mem us f s of (n, s') \<Rightarrow> (Inr n, s'))" for f
    by (simp add: memory_repository_def)
  ultimately have "mainHandler ?R D opts env r s = bulk_reply ''purged'' (Inr (fst ?b), snd ?b)"
    using assms(1,2) by (simp add: handleBulkPurgeDLQ_def split: prod.split)
  with b show ?thesis by (auto simp: bulk_reply_def answer_def)
qed

lemma garbage_purges_all_witness:
  "CountDLQ_mem two_jobs_failed = 1 \<and>
   CountDLQ_mem (snd (mainHandler (memory_repository format_nat) demo_deps default_Options demo_env
     (sample_request ''POST'' ''/ui/api/dlq/bulk-purge'' ''chain_id=c1'') two_jobs_failed)) = 0"
proof -
  have n: "read_document ''chain_id=c1'' = None" by code_simp
  let ?r = "sample_request ''POST'' ''/ui/api/dlq/bulk-purge'' ''chain_id=c1''"
  have "CountDLQ_mem two_jobs_failed = 1" by code_simp
  with garbage_purges_all [OF _ _ _ _ two_jobs_failed_wf, of ?r default_Options format_nat demo_deps demo_env] n
  show ?thesis by (fastforce simp: sample_request_def default_Options_def path_of_def)
qed

end
