(* ===== verification/Webhook.thy ===== *)
theory Webhook
  imports Engine_Props Auth_Props
begin

text \<open>
  The webhook dispatcher (src/webhook.go), an event listener of the engine that posts every event to
  a URL, as JSON or as a text for Slack, and the option \<open>WithWebhook\<close> of src/engine.go. A post is an
  event of the engine's trace; its response is not read by the code. What the code relies on is a
  record: the text of an id and of a time in JSON (\<open>None\<close> for a year out of range), which URLs
  \<open>http.NewRequest\<close> accepts, and whether the context of the call is done by then. \<open>time.Now()\<close> is an
  argument. \<open>client.Do\<close> sends nothing when the context is done or a header is malformed.
\<close>

section \<open>Configuration\<close>

text \<open>\<open>HTTPClient\<close> is the timeout of the client given, if any.\<close>

record WebhookConfig =
  URL_wh :: string
  Secret_wh :: string
  Headers_wh :: "(string \<times> string) list"
  SlackFormat_wh :: bool
  HTTPClient_wh :: "duration option"

record WebhookPayload =
  Event_wp :: string
  Timestamp_wp :: time
  ChainID_wp :: string
  JobID_wp :: string
  JobType_wp :: string
  Error_wp :: string
  DLQCount_wp :: int

record WebhookDispatcher =
  config_wd :: WebhookConfig
  client_wd :: duration

definition NewWebhookDispatcher :: "WebhookConfig \<Rightarrow> WebhookDispatcher" where
  "NewWebhookDispatcher cfg =
    \<lparr>config_wd = cfg,
     client_wd = (case HTTPClient_wh cfg of None \<Rightarrow> 5 * Second | Some c \<Rightarrow> c)\<rparr>"

record webhook_deps =
  uuid_text :: "uuid \<Rightarrow> string"
  marshal_time :: "time \<Rightarrow> string option"
  url_ok :: "string \<Rightarrow> bool"
  ctx_done :: bool

section \<open>The body of a post\<close>

definition warning_sign :: string where
  "warning_sign = [CHR 0xE2, CHR 0x9A, CHR 0xA0, CHR 0xEF, CHR 0xB8, CHR 0x8F]"

definition bullet :: string where
  "bullet = newline @ [CHR 0xE2, CHR 0x80, CHR 0xA2] @ '' ''"

definition backquoted :: "string \<Rightarrow> string" where
  "backquoted s = [CHR 0x60] @ s @ [CHR 0x60]"

definition slack_text :: "WebhookPayload \<Rightarrow> string" where
  "slack_text p =
    warning_sign @ '' *[orderedjob Alert]* Event: '' @ backquoted (Event_wp p) @
    (if JobID_wp p \<noteq> []
     then bullet @ ''Job ID: '' @ backquoted (JobID_wp p) @ '' ('' @ JobType_wp p @ '')'' else []) @
    (if ChainID_wp p \<noteq> [] then bullet @ ''Chain ID: '' @ backquoted (ChainID_wp p) else []) @
    (if Error_wp p \<noteq> [] then bullet @ ''Error: '' @ backquoted (Error_wp p) else []) @
    (if 0 < DLQCount_wp p
     then bullet @ ''DLQ Count: '' @ backquoted (format_int (DLQCount_wp p)) else [])"

definition omitempty :: "string \<Rightarrow> string \<Rightarrow> (string \<times> json) list" where
  "omitempty k s = (if s = [] then [] else [(k, JString s)])"

definition payload_json :: "string \<Rightarrow> WebhookPayload \<Rightarrow> json" where
  "payload_json stamp p = JObject
    ([(''event'', JString (Event_wp p)), (''timestamp'', JString stamp)] @
     omitempty ''chain_id'' (ChainID_wp p) @ omitempty ''job_id'' (JobID_wp p) @
     omitempty ''job_type'' (JobType_wp p) @ omitempty ''error'' (Error_wp p) @
     (if DLQCount_wp p = 0 then [] else [(''dlq_count'', JNumber (format_int (DLQCount_wp p)))]))"

definition webhook_body :: "webhook_deps \<Rightarrow> WebhookConfig \<Rightarrow> WebhookPayload \<Rightarrow> string option" where
  "webhook_body W cfg p =
    (if SlackFormat_wh cfg then Some (json_text (JObject [(''text'', JString (slack_text p))]))
     else map_option (\<lambda>stamp. json_text (payload_json stamp p)) (marshal_time W (Timestamp_wp p)))"

section \<open>Dispatching\<close>

text \<open>\<open>http.CanonicalHeaderKey\<close>: a name of letters, digits and dashes gets a capital at its start and
  after every dash; any other name stays.\<close>

definition is_upper :: "char \<Rightarrow> bool" where
  "is_upper c \<longleftrightarrow> 65 \<le> code c \<and> code c \<le> 90"

definition is_lower :: "char \<Rightarrow> bool" where
  "is_lower c \<longleftrightarrow> 97 \<le> code c \<and> code c \<le> 122"

definition upper_char :: "char \<Rightarrow> char" where
  "upper_char c = (if is_lower c then char_of (code c - 32) else c)"

definition token_char :: "char \<Rightarrow> bool" where
  "token_char c \<longleftrightarrow> is_digit c \<or> is_upper c \<or> is_lower c \<or> c \<in> set ''!#$%&*+-.^_|~'' \<or>
     c = CHR 0x27 \<or> c = CHR 0x60"

fun capitalize :: "bool \<Rightarrow> string \<Rightarrow> string" where
  "capitalize start [] = []"
| "capitalize start (c # cs) =
    (if start then upper_char c else lower_char c) # capitalize (c = CHR ''-'') cs"

definition CanonicalHeaderKey :: "string \<Rightarrow> string" where
  "CanonicalHeaderKey k = (if list_all token_char k then capitalize True k else k)"

definition set_header :: "string \<times> string \<Rightarrow> (string \<times> string) list \<Rightarrow> (string \<times> string) list" where
  "set_header kv hs = AList.update (CanonicalHeaderKey (fst kv)) (snd kv) hs"

definition request_headers :: "WebhookConfig \<Rightarrow> (string \<times> string) list" where
  "request_headers cfg =
    fold set_header (Headers_wh cfg) [(''Content-Type'', ''application/json'')]"

text \<open>What the transport accepts: a name is a nonempty token, a value has no control characters but
  tabs.\<close>

definition sendable :: "string \<times> string \<Rightarrow> bool" where
  "sendable kv \<longleftrightarrow> fst kv \<noteq> [] \<and> list_all token_char (fst kv) \<and>
     list_all (\<lambda>c. c = CHR 0x09 \<or> 32 \<le> code c \<and> code c \<noteq> 127) (snd kv)"

definition dispatch :: "webhook_deps \<Rightarrow> WebhookDispatcher \<Rightarrow> WebhookPayload \<Rightarrow> event list" where
  "dispatch W w payload = (let cfg = config_wd w in
     if URL_wh cfg = [] then []
     else case webhook_body W cfg payload of
       None \<Rightarrow> []
     | Some body \<Rightarrow>
         if \<not> url_ok W (URL_wh cfg) then []
         else if ctx_done W \<or> \<not> list_all sendable (request_headers cfg) then []
         else [HttpPost (URL_wh cfg) (request_headers cfg) body])"

definition empty_payload :: "string \<Rightarrow> time \<Rightarrow> WebhookPayload" where
  "empty_payload ev now = \<lparr>Event_wp = ev, Timestamp_wp = now, ChainID_wp = [], JobID_wp = [],
     JobType_wp = [], Error_wp = [], DLQCount_wp = 0\<rparr>"

definition OnJobFailed_wh ::
  "webhook_deps \<Rightarrow> time \<Rightarrow> WebhookDispatcher \<Rightarrow> job \<Rightarrow> gerror option \<Rightarrow> event list" where
  "OnJobFailed_wh W now w j err =
    dispatch W w ((empty_payload ''OnJobFailed'' now)
      \<lparr>JobID_wp := uuid_text W (ID j), ChainID_wp := ChainID j, JobType_wp := Type j,
       Error_wp := (case err of None \<Rightarrow> [] | Some e \<Rightarrow> Error e)\<rparr>)"

definition OnChainBlocked_wh ::
  "webhook_deps \<Rightarrow> time \<Rightarrow> WebhookDispatcher \<Rightarrow> string \<Rightarrow> job \<Rightarrow> event list" where
  "OnChainBlocked_wh W now w chainID j =
    dispatch W w ((empty_payload ''OnChainBlocked'' now)
      \<lparr>JobID_wp := uuid_text W (ID j), ChainID_wp := chainID, JobType_wp := Type j\<rparr>)"

definition OnDLQThresholdExceeded_wh :: "webhook_deps \<Rightarrow> time \<Rightarrow> WebhookDispatcher \<Rightarrow> int \<Rightarrow> event list"
where
  "OnDLQThresholdExceeded_wh W now w dlqCount =
    dispatch W w ((empty_payload ''OnDLQThresholdExceeded'' now)\<lparr>DLQCount_wp := dlqCount\<rparr>)"

text \<open>The dispatcher as the engine's event listener.\<close>

definition webhook_listener :: "webhook_deps \<Rightarrow> time \<Rightarrow> WebhookDispatcher \<Rightarrow> FunctionalEventListener"
where
  "webhook_listener W now w =
    \<lparr>OnJobFailedFunc = Some (\<lambda>j e. OnJobFailed_wh W now w j (Some e)),
     OnChainBlockedFunc = Some (OnChainBlocked_wh W now w),
     OnDLQThresholdExceededFunc = Some (OnDLQThresholdExceeded_wh W now w)\<rparr>"

definition WithWebhook :: "webhook_deps \<Rightarrow> time \<Rightarrow> WebhookConfig \<Rightarrow> 's Engine \<Rightarrow> 's Engine" where
  "WithWebhook W now cfg e =
    e\<lparr>eventListener := webhook_listener W now (NewWebhookDispatcher cfg)\<rparr>"

section \<open>Properties\<close>

lemma dispatch_at_most_one: "length (dispatch W w p) \<le> 1"
  by (simp add: dispatch_def Let_def split: option.split)

lemma config_New [simp]: "config_wd (NewWebhookDispatcher cfg) = cfg"
  by (simp add: NewWebhookDispatcher_def)

text \<open>The shared secret of the configuration is never used: a receiver cannot authenticate a post.\<close>

lemma dispatch_ignores_secret:
  "dispatch W (NewWebhookDispatcher (cfg\<lparr>Secret_wh := k\<rparr>)) p =
   dispatch W (NewWebhookDispatcher cfg) p"
  by (cases "SlackFormat_wh cfg"; cases "marshal_time W (Timestamp_wp p)")
    (simp_all add: dispatch_def webhook_body_def request_headers_def Let_def)

lemma ascii_payload_names [simp]:
  "valid_utf8 ''event''" "valid_utf8 ''timestamp''" "valid_utf8 ''chain_id''" "valid_utf8 ''job_id''"
  "valid_utf8 ''job_type''" "valid_utf8 ''error''" "valid_utf8 ''dlq_count''"
  by (rule valid_utf8_ascii; simp add: code_def)+

definition valid_payload :: "string \<Rightarrow> WebhookPayload \<Rightarrow> bool" where
  "valid_payload stamp p \<longleftrightarrow> valid_utf8 (Event_wp p) \<and> valid_utf8 stamp \<and>
     valid_utf8 (ChainID_wp p) \<and> valid_utf8 (JobID_wp p) \<and> valid_utf8 (JobType_wp p) \<and>
     valid_utf8 (Error_wp p)"

lemma payload_json_ok:
  "valid_payload stamp p \<Longrightarrow> json_ok (payload_json stamp p) \<and> fits 0 (payload_json stamp p)"
  by (auto simp: payload_json_def valid_payload_def omitempty_def number_ok_format_int
      maxNestingDepth_def)

lemma valid_utf8_append: "valid_utf8 s \<Longrightarrow> valid_utf8 t \<Longrightarrow> valid_utf8 (s @ t)"
proof (induction s rule: valid_utf8.induct)
  case (1 s)
  show ?case
  proof (cases "s = []")
    case False
    with "1.prems"(1) have n: "rune_len s \<noteq> 0" "valid_utf8 (drop (rune_len s) s)"
      by (simp_all add: valid_utf8.simps [of s] split: if_splits)
    with "1.IH" False "1.prems"(2) have "valid_utf8 (drop (rune_len s) s @ t)" by blast
    with False n show ?thesis
      using rune_len_append [OF n(1), of t] rune_len_le [of s]
      by (subst valid_utf8.simps) simp
  qed (use 1 in simp)
qed

lemma valid_slack_parts:
  "valid_utf8 warning_sign" "valid_utf8 bullet" "valid_utf8 [CHR 0x60]"
  by (simp_all add: warning_sign_def bullet_def newline_def valid_utf8.simps rune_len_def byte_in_def
      code_def)

lemma valid_format_int: "valid_utf8 (format_int n)"
proof -
  have d: "list_all (\<lambda>c. code c < 128) (format_nat k)" for k
    using format_nat_digits [of k] by (auto simp: list_all_iff is_digit_def)
  then show ?thesis by (intro valid_utf8_ascii) (simp add: format_int_def code_def)
qed

lemma valid_backquoted: "valid_utf8 s \<Longrightarrow> valid_utf8 (backquoted s)"
  unfolding backquoted_def by (intro valid_utf8_append valid_slack_parts)

lemma valid_slack_labels:
  "valid_utf8 '' *[orderedjob Alert]* Event: ''" "valid_utf8 ''Job ID: ''" "valid_utf8 '' (''"
  "valid_utf8 '')''" "valid_utf8 ''Chain ID: ''" "valid_utf8 ''Error: ''" "valid_utf8 ''DLQ Count: ''"
  by (rule valid_utf8_ascii; simp add: code_def)+

lemma valid_slack_text:
  assumes "valid_payload stamp p" shows "valid_utf8 (slack_text p)"
proof -
  have opt: "valid_utf8 (if b then s else [])" if "valid_utf8 s" for b s using that by simp
  from assms show ?thesis
    unfolding slack_text_def valid_payload_def
    by (elim conjE, intro valid_utf8_append opt valid_backquoted valid_slack_parts valid_slack_labels
        valid_format_int) assumption+
qed

text \<open>What is posted, as a JSON value.\<close>

definition webhook_json :: "WebhookConfig \<Rightarrow> string \<Rightarrow> WebhookPayload \<Rightarrow> json" where
  "webhook_json cfg stamp p =
    (if SlackFormat_wh cfg then JObject [(''text'', JString (slack_text p))] else payload_json stamp p)"

lemma webhook_json_ok:
  "valid_payload stamp p \<Longrightarrow> json_ok (webhook_json cfg stamp p) \<and> fits 0 (webhook_json cfg stamp p)"
  using payload_json_ok [of stamp p] valid_slack_text [of stamp p]
  by (simp add: webhook_json_def maxNestingDepth_def valid_utf8_ascii code_def)

lemma payload_reads_back:
  assumes "valid_payload stamp p"
  shows "parse_value (parse_fuel (json_text (webhook_json cfg stamp p))) 0
     (json_text (webhook_json cfg stamp p)) = Some (webhook_json cfg stamp p, [])"
  using webhook_json_ok [OF assms, of cfg]
    parse_text_all(1) [of "webhook_json cfg stamp p" 0 "[]"
      "parse_fuel (json_text (webhook_json cfg stamp p))"]
  by (simp add: parse_fuel_def)

lemma events_NotifyChain [simp]: "events (NotifyChain c st) = events st"
  by (simp add: NotifyChain_def)

lemma events_finish_terminal:
  "\<exists>es. events (finish_terminal e rd w j err st) =
     events st @ IncFailed (Type j) # OnJobFailed_fn (eventListener e) j err @ es"
  by (auto simp: finish_terminal_def Let_def emit_def)

text \<open>C21: a failure that a worker settles is posted. When an engine whose listener is a webhook ends an
  execution that gives up (\<open>finish_terminal\<close>; a job without a handler does not come that far), the
  URL and the headers are well formed and the context is not done, the run posts one JSON text to the
  URL, which parses back to the event with the job's id, chain, type and error, or to the Slack
  message of that event. The content type is JSON unless the configuration sets another.\<close>

theorem webhook_reports_failure:
  assumes "eventListener e = webhook_listener W now (NewWebhookDispatcher cfg)"
    and "URL_wh cfg \<noteq> []" and "url_ok W (URL_wh cfg)" and "\<not> ctx_done W"
    and "list_all sendable (request_headers cfg)"
    and "SlackFormat_wh cfg \<or> marshal_time W now = Some stamp"
    and p: "p = \<lparr>Event_wp = ''OnJobFailed'', Timestamp_wp = now, ChainID_wp = ChainID j,
      JobID_wp = uuid_text W (ID j), JobType_wp = Type j, Error_wp = Error err, DLQCount_wp = 0\<rparr>"
    and "valid_payload stamp p"
  shows "\<exists>headers text. HttpPost (URL_wh cfg) headers text \<in>
      set (events (finish_terminal e rd w j err st)) \<and>
    parse_value (parse_fuel text) 0 text = Some (webhook_json cfg stamp p, []) \<and>
    (list_all (\<lambda>kv. CanonicalHeaderKey (fst kv) \<noteq> ''Content-Type'') (Headers_wh cfg) \<longrightarrow>
     lookup headers ''Content-Type'' = Some ''application/json'')"
proof -
  let ?hs = "request_headers cfg" and ?text = "json_text (webhook_json cfg stamp p)"
  have "OnJobFailed_fn (eventListener e) j err = [HttpPost (URL_wh cfg) ?hs ?text]"
    using assms(2-6) by (auto simp: assms(1) webhook_listener_def OnJobFailed_fn_def OnJobFailed_wh_def
        dispatch_def webhook_body_def webhook_json_def p empty_payload_def Let_def)
  then have post: "HttpPost (URL_wh cfg) ?hs ?text \<in> set (events (finish_terminal e rd w j err st))"
    using events_finish_terminal [of e rd w j err st] by auto
  have "lookup (fold set_header kvs hs) k = lookup hs k"
    if "list_all (\<lambda>kv. CanonicalHeaderKey (fst kv) \<noteq> k) kvs" for kvs hs k
    using that by (induction kvs arbitrary: hs) (auto simp: set_header_def)
  with post payload_reads_back [OF assms(8), of cfg] show ?thesis
    unfolding request_headers_def by fastforce
qed

definition demo_webhook :: webhook_deps where
  "demo_webhook = \<lparr>uuid_text = format_nat, marshal_time = (\<lambda>t. Some (format_int t)), url_ok = (\<lambda>_. True),
     ctx_done = False\<rparr>"

definition demo_webhook_config :: WebhookConfig where
  "demo_webhook_config = \<lparr>URL_wh = ''http://h'', Secret_wh = ''s'', Headers_wh = [],
     SlackFormat_wh = False, HTTPClient_wh = None\<rparr>"

lemma webhook_reports_failure_witness:
  "\<exists>headers text. HttpPost ''http://h'' headers text \<in>
     set (events (finish_terminal (WithWebhook demo_webhook 30 demo_webhook_config
       (demo_engine (Returned None))) demo_readings ''w'' (job_or_zero two_jobs_claimed 7)
       (Message ''boom'') (demo_run\<lparr>db := two_jobs_claimed\<rparr>)))"
proof -
  let ?e = "WithWebhook demo_webhook 30 demo_webhook_config (demo_engine (Returned None))"
  let ?j = "job_or_zero two_jobs_claimed 7"
  let ?p = "\<lparr>Event_wp = ''OnJobFailed'', Timestamp_wp = 30, ChainID_wp = ChainID ?j,
      JobID_wp = uuid_text demo_webhook (ID ?j), JobType_wp = Type ?j, Error_wp = Error (Message ''boom''),
      DLQCount_wp = 0\<rparr>"
  have j: "ChainID ?j = ''c''" "ID ?j = 7" "Type ?j = ''task''" by code_simp+
  have "valid_payload (format_int 30) ?p"
    by (simp add: valid_payload_def j demo_webhook_def format_int_def format_nat.simps)
      (intro conjI valid_utf8_ascii; simp add: code_def)
  from webhook_reports_failure [OF _ _ _ _ _ _ refl this,
      where e = ?e and cfg = demo_webhook_config and rd = demo_readings and w = "''w''"
        and st = "demo_run\<lparr>db := two_jobs_claimed\<rparr>"]
  show ?thesis by (fastforce simp: WithWebhook_def demo_webhook_config_def demo_webhook_def
        request_headers_def sendable_def token_char_def is_upper_def is_lower_def code_def)
qed

end
