(* ===== verification/Observability.thy ===== *)
theory Observability
  imports Webhook
begin

text \<open>
  Metrics and loggers (src/observability.go): the \<open>Metrics\<close> and \<open>Logger\<close> interfaces as records of
  methods, their empty implementations, the implementation over an OpenTelemetry meter and over
  \<open>slog\<close>, and the options of src/engine.go that install them.

  The engine's trace (theory Context) lists its calls on these interfaces; \<open>run_metrics\<close> and
  \<open>run_logger\<close> give what an implementation does with them. OpenTelemetry and \<open>slog\<close> are outside the
  repository: creating an instrument is an argument that may fail, a call on an instrument is a value.
  A call records a duration, of which the code takes \<open>Seconds()\<close>.
\<close>

section \<open>Metrics\<close>

record 'c Metrics =
  IncClaimed_m :: "'c list"
  IncCompleted_m :: "string \<Rightarrow> 'c list"
  IncFailed_m :: "string \<Rightarrow> 'c list"
  IncRetry_m :: "string \<Rightarrow> 'c list"
  ObserveExecDuration_m :: "string \<Rightarrow> duration \<Rightarrow> 'c list"
  ObserveQueueDelay_m :: "string \<Rightarrow> duration \<Rightarrow> 'c list"
  SetActiveLeases_m :: "int \<Rightarrow> 'c list"
  IncClaimConflicts_m :: "'c list"
  IncStaleRecovered_m :: "int \<Rightarrow> 'c list"
  IncBlockedChain_m :: "'c list"
  IncPanics_m :: "string \<Rightarrow> 'c list"

definition NoopMetrics :: "'c Metrics" where
  "NoopMetrics = \<lparr>IncClaimed_m = [], IncCompleted_m = (\<lambda>_. []), IncFailed_m = (\<lambda>_. []),
     IncRetry_m = (\<lambda>_. []), ObserveExecDuration_m = (\<lambda>_ _. []), ObserveQueueDelay_m = (\<lambda>_ _. []),
     SetActiveLeases_m = (\<lambda>_. []), IncClaimConflicts_m = [], IncStaleRecovered_m = (\<lambda>_. []),
     IncBlockedChain_m = [], IncPanics_m = (\<lambda>_. [])\<rparr>"

fun run_metrics :: "'c Metrics \<Rightarrow> event \<Rightarrow> 'c list" where
  "run_metrics m IncClaimed = IncClaimed_m m"
| "run_metrics m (IncCompleted t) = IncCompleted_m m t"
| "run_metrics m (IncFailed t) = IncFailed_m m t"
| "run_metrics m (IncRetry t) = IncRetry_m m t"
| "run_metrics m (ObserveExecDuration t d) = ObserveExecDuration_m m t d"
| "run_metrics m (ObserveQueueDelay t d) = ObserveQueueDelay_m m t d"
| "run_metrics m (SetActiveLeases n) = SetActiveLeases_m m n"
| "run_metrics m IncClaimConflicts = IncClaimConflicts_m m"
| "run_metrics m (IncStaleRecovered n) = IncStaleRecovered_m m n"
| "run_metrics m IncBlockedChain = IncBlockedChain_m m"
| "run_metrics m (IncPanics t) = IncPanics_m m t"
| "run_metrics m _ = []"

section \<open>The OpenTelemetry implementation\<close>

datatype instrument_kind = Int64Counter | Float64Histogram | Int64Gauge

datatype 'i otel_call =
    Add 'i int "(string \<times> string) list"
  | Record_seconds 'i duration "(string \<times> string) list"
  | Record_int 'i int

record 'i OTelMetrics =
  jobsClaimed :: 'i
  jobsCompleted :: 'i
  jobsFailed :: 'i
  jobsRetried :: 'i
  jobsPanics :: 'i
  claimConflicts :: 'i
  staleRecovered :: 'i
  blockedChains :: 'i
  execDuration :: 'i
  queueDelay :: 'i
  activeLeases_otel :: 'i

text \<open>The instruments in the order they are created, with their names.\<close>

definition otel_instruments :: "(instrument_kind \<times> string) list" where
  "otel_instruments =
    [(Int64Counter, ''orderedjob_jobs_claimed_total''),
     (Int64Counter, ''orderedjob_jobs_completed_total''),
     (Int64Counter, ''orderedjob_jobs_failed_total''),
     (Int64Counter, ''orderedjob_job_retries_total''),
     (Int64Counter, ''orderedjob_panics_total''),
     (Int64Counter, ''orderedjob_claim_conflicts_total''),
     (Int64Counter, ''orderedjob_stale_recovered_total''),
     (Int64Counter, ''orderedjob_blocked_chains_total''),
     (Float64Histogram, ''orderedjob_job_execution_duration_seconds''),
     (Float64Histogram, ''orderedjob_queue_delay_seconds''),
     (Int64Gauge, ''orderedjob_active_leases'')]"

fun create_all ::
  "(instrument_kind \<Rightarrow> string \<Rightarrow> gerror + 'i) \<Rightarrow> (instrument_kind \<times> string) list \<Rightarrow> gerror + 'i list" where
  "create_all mk [] = Inr []"
| "create_all mk ((k, name) # is) = (case mk k name of
     Inl err \<Rightarrow> Inl err
   | Inr i \<Rightarrow> (case create_all mk is of Inl err \<Rightarrow> Inl err | Inr js \<Rightarrow> Inr (i # js)))"

text \<open>A nil provider is replaced by the global one.\<close>

definition NewOTelMetrics ::
  "(instrument_kind \<Rightarrow> string \<Rightarrow> gerror + 'i) \<Rightarrow> (instrument_kind \<Rightarrow> string \<Rightarrow> gerror + 'i) option \<Rightarrow>
   gerror + 'i OTelMetrics" where
  "NewOTelMetrics global_meter mp =
    (let mk = (case mp of None \<Rightarrow> global_meter | Some m \<Rightarrow> m) in
     case create_all mk otel_instruments of
       Inl err \<Rightarrow> Inl err
     | Inr is \<Rightarrow> Inr \<lparr>jobsClaimed = is ! 0, jobsCompleted = is ! 1, jobsFailed = is ! 2,
         jobsRetried = is ! 3, jobsPanics = is ! 4, claimConflicts = is ! 5,
         staleRecovered = is ! 6, blockedChains = is ! 7, execDuration = is ! 8,
         queueDelay = is ! 9, activeLeases_otel = is ! 10\<rparr>)"

definition job_type_attr :: "string \<Rightarrow> (string \<times> string) list" where
  "job_type_attr jobType = [(''job_type'', jobType)]"

definition OTel_methods :: "'i OTelMetrics \<Rightarrow> 'i otel_call Metrics" where
  "OTel_methods m = \<lparr>
     IncClaimed_m = [Add (jobsClaimed m) 1 []],
     IncCompleted_m = (\<lambda>t. [Add (jobsCompleted m) 1 (job_type_attr t)]),
     IncFailed_m = (\<lambda>t. [Add (jobsFailed m) 1 (job_type_attr t)]),
     IncRetry_m = (\<lambda>t. [Add (jobsRetried m) 1 (job_type_attr t)]),
     ObserveExecDuration_m = (\<lambda>t d. [Record_seconds (execDuration m) d (job_type_attr t)]),
     ObserveQueueDelay_m = (\<lambda>t d. [Record_seconds (queueDelay m) d (job_type_attr t)]),
     SetActiveLeases_m = (\<lambda>n. [Record_int (activeLeases_otel m) n]),
     IncClaimConflicts_m = [Add (claimConflicts m) 1 []],
     IncStaleRecovered_m = (\<lambda>n. [Add (staleRecovered m) n []]),
     IncBlockedChain_m = [Add (blockedChains m) 1 []],
     IncPanics_m = (\<lambda>t. [Add (jobsPanics m) 1 (job_type_attr t)])\<rparr>"

section \<open>Loggers\<close>

datatype log_level = Level_info | Level_error | Level_debug

record 'c Logger =
  Info_lg :: "string \<Rightarrow> 'c list"
  Error_lg :: "string \<Rightarrow> 'c list"
  Debug_lg :: "string \<Rightarrow> 'c list"

definition NoopLogger :: "'c Logger" where
  "NoopLogger = \<lparr>Info_lg = (\<lambda>_. []), Error_lg = (\<lambda>_. []), Debug_lg = (\<lambda>_. [])\<rparr>"

text \<open>\<open>SlogLogger\<close> over the method of a \<open>slog.Logger\<close>; a nil logger is replaced by the default one.\<close>

definition NewSlogLogger ::
  "(log_level \<Rightarrow> string \<Rightarrow> 'c) \<Rightarrow> (log_level \<Rightarrow> string \<Rightarrow> 'c) option \<Rightarrow> 'c Logger" where
  "NewSlogLogger std l =
    (let L = (case l of None \<Rightarrow> std | Some f \<Rightarrow> f) in
     \<lparr>Info_lg = (\<lambda>msg. [L Level_info msg]), Error_lg = (\<lambda>msg. [L Level_error msg]),
      Debug_lg = (\<lambda>msg. [L Level_debug msg])\<rparr>)"

fun run_logger :: "'c Logger \<Rightarrow> event \<Rightarrow> 'c list" where
  "run_logger l (LogInfo msg) = Info_lg l msg"
| "run_logger l (LogError msg) = Error_lg l msg"
| "run_logger l (LogDebug msg) = Debug_lg l msg"
| "run_logger l _ = []"

datatype log_value = Text_value string | Int_value int

definition LogJobAttrs :: "(uuid \<Rightarrow> string) \<Rightarrow> job \<Rightarrow> (string \<times> log_value) list" where
  "LogJobAttrs uuidString j =
    [(''job_id'', Text_value (uuidString (ID j))), (''chain_id'', Text_value (ChainID j)),
     (''sequence'', Int_value (Sequence j)), (''job_type'', Text_value (Type j)),
     (''status'', Text_value (Status j)), (''attempt'', Int_value (Attempt j)),
     (''worker_id'', Text_value (WorkerID j)), (''trace_id'', Text_value (TraceID j))]"

section \<open>The engine's telemetry\<close>

text \<open>The fields of \<open>Engine\<close> that only observe. A tracer is known by its name; a nil one is replaced
  by that of the global provider.\<close>

record ('m, 'l) telemetry =
  metrics_tl :: "'m Metrics"
  logger_tl :: "'l Logger"
  tracer_tl :: "string option"

definition tracer_name :: string where
  "tracer_name = ''github.com/semmidev/orderedjob''"

definition WithMetrics :: "'m Metrics \<Rightarrow> ('m, 'l) telemetry \<Rightarrow> ('m, 'l) telemetry" where
  "WithMetrics m e = e\<lparr>metrics_tl := m\<rparr>"

definition WithLogger :: "'l Logger \<Rightarrow> ('m, 'l) telemetry \<Rightarrow> ('m, 'l) telemetry" where
  "WithLogger l e = e\<lparr>logger_tl := l\<rparr>"

definition WithSlogLogger ::
  "(log_level \<Rightarrow> string \<Rightarrow> 'l) \<Rightarrow> (log_level \<Rightarrow> string \<Rightarrow> 'l) option \<Rightarrow> ('m, 'l) telemetry \<Rightarrow>
   ('m, 'l) telemetry" where
  "WithSlogLogger std l e = e\<lparr>logger_tl := NewSlogLogger std l\<rparr>"

definition WithTracer :: "string option \<Rightarrow> ('m, 'l) telemetry \<Rightarrow> ('m, 'l) telemetry" where
  "WithTracer t e = e\<lparr>tracer_tl := t\<rparr>"

definition WithTracerProvider ::
  "(string \<Rightarrow> string) option \<Rightarrow> ('m, 'l) telemetry \<Rightarrow> ('m, 'l) telemetry" where
  "WithTracerProvider tp e = (case tp of
     None \<Rightarrow> e | Some Tracer \<Rightarrow> e\<lparr>tracer_tl := Some (Tracer tracer_name)\<rparr>)"

definition New_telemetry ::
  "(string \<Rightarrow> string) \<Rightarrow> (('m, 'l) telemetry \<Rightarrow> ('m, 'l) telemetry) list \<Rightarrow> ('m, 'l) telemetry" where
  "New_telemetry global_provider opts =
    (let e = fold (\<lambda>opt e. opt e) opts
           \<lparr>metrics_tl = NoopMetrics, logger_tl = NoopLogger, tracer_tl = None\<rparr>
     in if tracer_tl e = None then e\<lparr>tracer_tl := Some (global_provider tracer_name)\<rparr> else e)"

section \<open>Properties\<close>

lemma run_NoopMetrics [simp]: "run_metrics NoopMetrics ev = []"
  by (cases ev) (simp_all add: NoopMetrics_def)

lemma run_NoopLogger [simp]: "run_logger NoopLogger ev = []"
  by (cases ev) (simp_all add: NoopLogger_def)

lemma create_all_error:
  "create_all mk is = Inl err \<Longrightarrow> \<exists>k name. (k, name) \<in> set is \<and> mk k name = Inl err"
  by (induction mk "is" rule: create_all.induct) (auto split: sum.splits)

text \<open>\<open>NewOTelMetrics\<close> fails only with the error of an instrument it creates.\<close>

lemma NewOTelMetrics_error:
  "NewOTelMetrics g (Some mk) = Inl err \<Longrightarrow>
   \<exists>k name. (k, name) \<in> set otel_instruments \<and> mk k name = Inl err"
  by (auto simp: NewOTelMetrics_def Let_def split: sum.splits dest: create_all_error)

end
