(* ===== verification/Engine_Run.thy ===== *)
theory Engine_Run
  imports Observability
begin

text \<open>
  The rest of src/engine.go: the operations the engine passes on to its repository, the trace context
  and span of an execution, the goroutines
  \<open>Start\<close> launches, the recovery and notification loops with their \<open>recover\<close>, and \<open>Shutdown\<close>. A
  goroutine is a value; a loop runs over the list of what wakes it until its context ends.
\<close>

section \<open>Operations passed on to the repository\<close>

definition RegisterFunc_eng ::
  "string \<Rightarrow> (ctx \<Rightarrow> job \<Rightarrow> 's \<Rightarrow> call_result \<times> 's) \<Rightarrow> 's Engine \<Rightarrow> 's Engine" where
  "RegisterFunc_eng jobType fn e = e\<lparr>handlers := Register jobType fn (handlers e)\<rparr>"

definition Get_eng :: "'s Engine \<Rightarrow> uuid \<Rightarrow> 's \<Rightarrow> gerror + job" where
  "Get_eng e i s = Get_r (repo_eng e) i s"

definition ReplayJob_eng :: "'s Engine \<Rightarrow> time \<Rightarrow> uuid \<Rightarrow> 's \<Rightarrow> gerror option \<times> 's" where
  "ReplayJob_eng e now i s = ReplayJob_r (repo_eng e) now i s"

definition SkipJob_eng :: "'s Engine \<Rightarrow> time \<Rightarrow> uuid \<Rightarrow> 's \<Rightarrow> gerror option \<times> 's" where
  "SkipJob_eng e now i s = SkipJob_r (repo_eng e) now i s"

definition BulkReplayDLQ_eng :: "'s Engine \<Rightarrow> time \<Rightarrow> JobFilter \<Rightarrow> 's \<Rightarrow> (gerror + int) \<times> 's" where
  "BulkReplayDLQ_eng e now f s = BulkReplayDLQ_r (repo_eng e) now f s"

definition BulkSkipDLQ_eng :: "'s Engine \<Rightarrow> time \<Rightarrow> JobFilter \<Rightarrow> 's \<Rightarrow> (gerror + int) \<times> 's" where
  "BulkSkipDLQ_eng e now f s = BulkSkipDLQ_r (repo_eng e) now f s"

definition BulkPurgeDLQ_eng :: "'s Engine \<Rightarrow> JobFilter \<Rightarrow> 's \<Rightarrow> (gerror + int) \<times> 's" where
  "BulkPurgeDLQ_eng e f s = BulkPurgeDLQ_r (repo_eng e) f s"

definition RescheduleJob_eng :: "'s Engine \<Rightarrow> time \<Rightarrow> uuid \<Rightarrow> time \<Rightarrow> 's \<Rightarrow> (gerror + job) \<times> 's" where
  "RescheduleJob_eng e now i newAvailableAt s = RescheduleJob_r (repo_eng e) now i newAvailableAt s"

section \<open>Tracing an execution\<close>

text \<open>
  The context of an execution carries the job's trace id as a value. When that is a valid
  hexadecimal id (\<open>TraceIDFromHex\<close>, which gives its normal form), it is also the trace id of a remote
  span context, one without a span id, which is therefore not valid by itself. The tracer starts a
  span in it: \<open>start\<close> gives, from the remote trace id, the trace id of the span when that is valid.
\<close>

definition remote_trace :: "(string \<Rightarrow> string option) \<Rightarrow> job \<Rightarrow> string option" where
  "remote_trace TraceIDFromHex j = (if TraceID j \<noteq> [] then TraceIDFromHex (TraceID j) else None)"

definition execution_ctx ::
  "(string \<Rightarrow> string option) \<Rightarrow> (string option \<Rightarrow> string option) option \<Rightarrow> job \<Rightarrow> ctx" where
  "execution_ctx TraceIDFromHex tracer j = (let c = WithTraceID Background (TraceID j) in
     case tracer of
       None \<Rightarrow> c
     | Some start \<Rightarrow> c\<lparr>span := start (remote_trace TraceIDFromHex j)\<rparr>)"

datatype span_call =
    Span_start string "(string \<times> log_value) list"
  | Span_record_error gerror
  | Span_status_error string
  | Span_status_ok
  | Span_end

definition span_attributes :: "(uuid \<Rightarrow> string) \<Rightarrow> job \<Rightarrow> (string \<times> log_value) list" where
  "span_attributes uuidString j =
    [(''job.id'', Text_value (uuidString (ID j))), (''job.chain_id'', Text_value (ChainID j)),
     (''job.type'', Text_value (Type j)), (''job.sequence'', Int_value (Sequence j)),
     (''job.attempt'', Int_value (Attempt j)), (''job.ordering_mode'', Text_value (OrderingMode j))]"

definition span_result :: "gerror option \<Rightarrow> span_call list" where
  "span_result execErr = (case execErr of
     Some e \<Rightarrow> [Span_record_error e, Span_status_error (Error e)] | None \<Rightarrow> [Span_status_ok])"

text \<open>The calls on the span of one execution, the deferred end last.\<close>

definition execution_span :: "(uuid \<Rightarrow> string) \<Rightarrow> bool \<Rightarrow> job \<Rightarrow> gerror option \<Rightarrow> span_call list"
where
  "execution_span uuidString has_tracer j execErr =
    (if has_tracer
     then [Span_start ''orderedjob.execute'' (span_attributes uuidString j)] @
       span_result execErr @ [Span_end]
     else [])"

text \<open>A job enqueued by a handler inherits the trace of the job it runs in, when the tracer keeps the
  trace id of its parent.\<close>

lemma handler_inherits_trace:
  assumes "TraceID j \<noteq> []" and "TraceIDFromHex (TraceID j) = Some (TraceID j)"
    and "\<And>t. start (Some t) = Some t \<or> start (Some t) = None" and "TraceID_req req = []"
  shows "TraceID_req (InjectOTelTraceContext (execution_ctx TraceIDFromHex (Some start) j) req) = TraceID j"
  using assms(1,2,4) assms(3) [of "TraceID j"]
  by (auto simp: InjectOTelTraceContext_TraceID execution_ctx_def remote_trace_def WithTraceID_def
      ExtractTraceID_def Let_def)

section \<open>The loops\<close>

text \<open>\<open>repo.Listen\<close> delivers chain ids and then returns \<open>nil\<close> or an error, or panics.\<close>

datatype listen_end = Listen_returns "gerror option" | Listen_panics

text \<open>\<open>cancelled'\<close>: the engine's context has ended when \<open>Listen\<close> returns.\<close>

definition listenNotifyLoop :: "string list \<Rightarrow> listen_end \<Rightarrow> bool \<Rightarrow> 's run \<Rightarrow> 's run" where
  "listenNotifyLoop chainIDs ending cancelled' st =
    (let st = fold NotifyChain chainIDs st in
     case ending of
       Listen_panics \<Rightarrow> emit [LogError ''listenNotifyLoop recovered from panic''] st
     | Listen_returns err \<Rightarrow>
         if err \<noteq> None \<and> \<not> cancelled' then emit [LogError ''listen notify error''] st else st)"

text \<open>The recovery loop over the ticks until the context ends; a ticker that cannot be made ends it.\<close>

definition recoveryLoop :: "'s Engine \<Rightarrow> readings list \<Rightarrow> 's run \<Rightarrow> 's run" where
  "recoveryLoop e rds st = (case NewTicker (recoveryInterval e) of
     Panics msg \<Rightarrow> emit [LogError ''recoveryLoop recovered from panic''] st
   | Returns _ \<Rightarrow> fold (recovery_tick e) rds st)"

text \<open>\<open>workerLoop\<close>: the ticker, then one pass per wake-up, until a pass panics or the context ends.\<close>

fun worker_passes :: "'s Engine \<Rightarrow> nat \<Rightarrow> (readings \<times> wakeup) list \<Rightarrow> 's run \<Rightarrow> 's run" where
  "worker_passes e idx [] st = st"
| "worker_passes e idx ((rd, w) # ws) st = (case worker_step e rd idx w st of
     (Some st', es) \<Rightarrow> worker_passes e idx ws (emit es st')
   | (None, es) \<Rightarrow> emit es st)"

definition workerLoop :: "'s Engine \<Rightarrow> nat \<Rightarrow> (readings \<times> wakeup) list \<Rightarrow> 's run \<Rightarrow> 's run" where
  "workerLoop e idx ws st = (case NewTicker (pollInterval e) of
     Panics msg \<Rightarrow> emit [LogError ''workerLoop recovered from panic''] st
   | Returns _ \<Rightarrow> worker_passes e idx ws st)"

section \<open>Start and Shutdown\<close>

datatype goroutine = Worker nat | Recovery | Listener

record runtime =
  ctx_set :: bool
  cancelled :: bool
  running :: "goroutine list"

definition not_started :: runtime where
  "not_started = \<lparr>ctx_set = False, cancelled = False, running = []\<rparr>"

definition Start :: "'s Engine \<Rightarrow> runtime \<Rightarrow> 's run \<Rightarrow> gerror option \<times> runtime \<times> 's run" where
  "Start e rt st =
    (if ctx_set rt then (Some (Message ''engine already started''), rt, st)
     else
       (None,
        rt\<lparr>ctx_set := True, running := map Worker [0..<nat (concurrency e)] @ [Recovery] @
          (if useNotify e \<and> NotifyChannel_r (repo_eng e) (db st) \<noteq> [] then [Listener] else [])\<rparr>,
        emit [LogInfo ''engine started''] st))"

text \<open>\<open>drained\<close>: every goroutine ended before the context of the call did; \<open>ctxErr\<close> is its error.\<close>

definition Shutdown :: "bool \<Rightarrow> gerror \<Rightarrow> runtime \<Rightarrow> 's run \<Rightarrow> gerror option \<times> runtime \<times> 's run" where
  "Shutdown drained ctxErr rt st =
    (if \<not> ctx_set rt then (None, rt, st)
     else if drained
       then (None, rt\<lparr>cancelled := True, running := []\<rparr>,
             emit [LogInfo ''engine shutdown gracefully''] st)
     else (Some ctxErr, rt\<lparr>cancelled := True\<rparr>, st))"

section \<open>Properties of the loops\<close>

lemma worker_passes_dead:
  "next_poll e rnd = Panics msg \<Longrightarrow>
   worker_passes e idx ((rd, Tick rnd) # ws) st =
     emit [LogError ''workerLoop recovered from panic''] st"
  by (simp add: worker_step_def Let_def)

text \<open>An engine runs its configured workers once: it is started at most once, ever.\<close>

lemma Start_once:
  "Start e rt st = (None, rt', st') \<Longrightarrow> Start e' rt' st'' = (Some (Message ''engine already started''), rt', st'')"
  by (auto simp: Start_def split: if_splits)

lemma Shutdown_no_restart:
  "Start e rt st = (None, rt', st') \<Longrightarrow> Shutdown d err rt' st1 = (r, rt'', st2) \<Longrightarrow>
   fst (Start e rt'' st2) = Some (Message ''engine already started'')"
  by (auto simp: Start_def Shutdown_def split: if_splits)

end
