(* ===== verification/Engine_Drain.thy ===== *)
theory Engine_Drain
  imports Engine_Run
begin

text \<open>
  The queue drains. Every worker pass that claims a job uses up one of the attempts that are left,
  so that without new jobs the workers stop finding work after a number of claims that is known in
  advance, however the handlers end. Also here: what a worker does with a job nobody handles.
\<close>

section \<open>Attempts left\<close>

text \<open>How often a waiting job may still be started: once for every attempt it has left, and once also
  when it has none left (\<open>Claim\<close> does not look at the attempts). A job in processing counts nothing.\<close>

definition left :: "job \<Rightarrow> nat" where
  "left j = (if Status j = StatePending \<or> Status j = StateRetrying \<or> Status j = StateBlocked
     then nat (max 1 (MaxAttempts j - Attempt j)) else 0)"

definition left_at :: "repo \<Rightarrow> uuid \<Rightarrow> nat" where
  "left_at r k = (case jobAt r k of None \<Rightarrow> 0 | Some j \<Rightarrow> left j)"

definition work_left :: "repo \<Rightarrow> nat" where
  "work_left r = (\<Sum>k \<in> set (keys (jobs r)). left_at r k)"

lemma left_at_setJob: "left_at (setJob i j r) k = (if k = i then left j else left_at r k)"
  by (simp add: left_at_def)

lemma left_unblocked [simp]: "left (unblocked now j) = left j"
  by (simp add: left_def unblocked_def)

lemma left_at_promote: "repo_wf r \<Longrightarrow> left_at (promote now c q r) k = left_at r k"
  by (simp add: left_at_def jobAt_promote split: option.split)

lemma left_done [simp]:
  "left (completed now j) = 0" "left (failed now msg True j) = 0" "left (claimed now w l j) = 0"
  by (simp_all add: left_def completed_def failed_def claimed_def state_defs)

section \<open>One pass\<close>

text \<open>The end of an execution touches what is left of its own job only, and leaves a later attempt
  exactly when it retries.\<close>

definition left_after :: "job \<Rightarrow> nat" where
  "left_after j = (if Attempt j < MaxAttempts j then nat (MaxAttempts j - Attempt j) else 0)"

lemma fail_held_mem:
  "jobAt r (ID j) = Some j \<Longrightarrow> holds_lease j w (LeaseGeneration j) \<Longrightarrow>
   Fail_mem now (ID j) w (LeaseGeneration j) msg True r = (None, setJob (ID j) (failed now msg True j) r)"
  by (simp add: Fail_mem_def mem_with_lease_held)

lemma evolves_failed:
  "jobAt r i = Some j \<Longrightarrow> evolves r (setJob i (failed now msg True j) r)"
  by (rule evolves_setJob) (auto simp: failed_def same_identity_def)

lemma terminal_left:
  assumes e: "repo_eng e = memory_repository us" and wf: "repo_wf (db st)"
    and j: "jobAt (db st) (ID j) = Some j" and h: "holds_lease j w (LeaseGeneration j)"
  shows "evolves (db st) (db (finish_terminal e rd w j err st)) \<and>
    left_at (db (finish_terminal e rd w j err st)) k = (if k = ID j then 0 else left_at (db st) k)"
proof -
  let ?s = "setJob (ID j) (failed (clock rd 5) (Error err) True j) (db st)"
  have ev: "evolves (db st) ?s" by (rule evolves_failed [OF j])
  have wf': "repo_wf ?s" by (rule evolves_repo_wf [OF ev wf])
  have "evolves (db st) (promote now c q ?s)" for now c q
    by (rule evolves_trans [OF evolves_promote [OF wf'] ev])
  then show ?thesis
    using ev by (simp add: db_finish_terminal e fail_held_mem [OF j h] Let_def PromoteNext_mem_def
        left_at_promote [OF wf'] left_at_setJob)
qed

lemma cancel_running:
  "jobAt r i = Some j \<Longrightarrow> Status j = StateProcessing \<Longrightarrow> RequestCancel_mem now i r = (None, r)"
  by (simp add: RequestCancel_mem_def state_defs)

lemma evolves_refl: "evolves r r"
  by (rule evolves.intros)

lemma finish_left:
  assumes e: "repo_eng e = memory_repository us" and wf: "repo_wf (db st)"
    and j: "jobAt (db st) (ID j) = Some j" and h: "holds_lease j w (LeaseGeneration j)"
    and p: "Status j = StateProcessing"
  shows "evolves (db st) (db (finish_job e rd w j execErr st)) \<and>
    left_at (db (finish_job e rd w j execErr st)) k \<le> (if k = ID j then left_after j else left_at (db st) k)"
proof (cases execErr)
  case None
  let ?s = "setJob (ID j) (completed (clock rd 4) j) (db st)"
  have c: "Complete_mem (clock rd 4) (ID j) w (LeaseGeneration j) (db st) =
      (None, promote (clock rd 4) (ChainID j) (Sequence j) ?s)"
    using Complete_held [OF j] h by (simp add: holds_lease_def)
  have "repo_wf ?s" using wf j by (rule repo_wf_setJob) simp
  with None e c evolves_completed_promote [OF wf j, of "clock rd 4"] show ?thesis
    by (simp add: finish_job_def finish_success_def left_at_promote left_at_setJob)
next
  case (Some err)
  have c: "st\<lparr>db := snd (RequestCancel_r (repo_eng e) (clock rd 4) (ID j) (db st))\<rparr> = st"
    using cancel_running [OF j p] by (simp add: e)
  show ?thesis
  proof (cases "gives_up e j err")
    case True
    with Some c terminal_left [OF e wf j h, of rd err] show ?thesis
      by (auto simp: finish_job_def Let_def)
  next
    case False
    let ?j = "retrying (clock rd 8) (Error err) (clock rd 7 + backoff_delay e rd (Attempt j)) j"
    have r: "db (finish_retry e rd w j err st) = setJob (ID j) ?j (db st)"
      using mem_with_lease_held [OF j h] by (simp add: finish_retry_def e Retry_mem_def Let_def)
    have "left ?j \<le> left_after j"
      using False by (simp add: left_def retrying_def gives_up_def left_after_def)
    moreover have "evolves (db st) (setJob (ID j) ?j (db st))"
      by (rule evolves_setJob [OF j]) (simp add: retrying_def same_identity_def)
    ultimately show ?thesis
      using Some c False r by (simp add: finish_job_def Let_def left_at_setJob)
  qed
qed

text \<open>A pass that claims a job leaves less work, one that does not leaves the store alone. A quiet
  handler does nothing to the store itself.\<close>

definition quiet_handlers :: "repo Engine \<Rightarrow> bool" where
  "quiet_handlers e \<longleftrightarrow> (\<forall>t h c j r. MustGet (handlers e) t = Inr h \<longrightarrow> snd (h c j r) = r)"

definition claims :: "repo Engine \<Rightarrow> readings \<Rightarrow> string \<Rightarrow> repo run \<Rightarrow> bool" where
  "claims e rd w st = (case Claim_r (repo_eng e) (clock rd 0) w (LeaseDuration (leaseMgr e)) (db st) of
     (Inr j, s) \<Rightarrow> True | (Inl err, s) \<Rightarrow> False)"

lemma after_claim:
  assumes e: "repo_eng e = memory_repository us" and q: "quiet_handlers e" and wf: "repo_wf s"
    and j: "jobAt s (ID j) = Some j" and h: "holds_lease j w (LeaseGeneration j)"
    and p: "Status j = StateProcessing"
    and c: "Claim_r (repo_eng e) (clock rd 0) w (LeaseDuration (leaseMgr e)) (db st) = (Inr j, s)"
  shows "evolves s (db (tryClaimAndExecute e rd w st)) \<and>
    left_at (db (tryClaimAndExecute e rd w st)) k \<le> (if k = ID j then left_after j else left_at s k)"
proof (cases "MustGet (handlers e) (Type j)")
  case (Inl err)
  then have "db (tryClaimAndExecute e rd w st) =
      setJob (ID j) (failed (clock rd 5) (''handler not found: '' @ Type j) True j) s"
    using c by (simp add: tryClaimAndExecute_def Let_def) (simp add: e fail_held_mem [OF j h])
  with evolves_failed [OF j] show ?thesis by (simp add: left_at_setJob)
next
  case (Inr hd)
  let ?ctx = "WithTraceID Background (TraceID j)"
  let ?st = "emit [SetActiveLeases (activeLeases st + 1), IncClaimed,
      ObserveQueueDelay (Type j) (clock rd 1 - CreatedAt j)]
      (st\<lparr>db := s, activeLeases := activeLeases st + 1\<rparr>)"
  obtain err st2 where ex: "execute e rd ?ctx hd j ?st = (err, st2)" by fastforce
  have "snd (hd ?ctx j s) = s" using q Inr by (simp add: quiet_handlers_def)
  with ex have d: "db st2 = s" by (auto simp: execute_def split: prod.splits)
  have "db (tryClaimAndExecute e rd w st) = db (finish_job e rd w j err st2)"
    using c Inr ex by (simp add: tryClaimAndExecute_def Let_def)
  moreover have "evolves s (db (finish_job e rd w j err st2)) \<and>
      left_at (db (finish_job e rd w j err st2)) k \<le> (if k = ID j then left_after j else left_at s k)"
    using finish_left [OF e, of st2 j w rd err k] wf j h p unfolding d by blast
  ultimately show ?thesis by simp
qed

lemma eligible_left: "claim_eligible r now j \<Longrightarrow> left_after (claimed now' w l j) < left j"
  by (auto simp: claim_eligible_def left_def left_after_def claimed_def)

lemma pass_left:
  assumes e: "repo_eng e = memory_repository us" and q: "quiet_handlers e" and wf: "repo_wf (db st)"
  shows "repo_wf (db (tryClaimAndExecute e rd w st)) \<and>
    work_left (db (tryClaimAndExecute e rd w st)) + of_bool (claims e rd w st) \<le> work_left (db st)"
proof (cases rule: Claim_cases [OF wf, of "clock rd 0" w "LeaseDuration (leaseMgr e)",
    case_names none some])
  case none
  with wf show ?thesis by (simp add: e claims_def tryClaimAndExecute_def emit_def)
next
  case (some x)
  let ?l = "LeaseDuration (leaseMgr e)" and ?db = "db (tryClaimAndExecute e rd w st)"
  let ?j = "claimed (clock rd 0) w ?l x"
  let ?s = "setJob (ID x) ?j (db st)"
  have i: "ID ?j = ID x" by (simp add: claimed_def)
  have c: "Claim_r (repo_eng e) (clock rd 0) w ?l (db st) = (Inr ?j, ?s)" using some(4) e by simp
  note cs = mem_claim_some [OF wf some(4)]
  have ev0: "evolves (db st) ?s"
    by (rule evolves_setJob [OF some(1)]) (simp add: claimed_def same_identity_def)
  have a: "evolves ?s ?db" "\<And>k. left_at ?db k \<le> (if k = ID x then left_after ?j else left_at ?s k)"
    using after_claim [OF e q _ _ _ _ c] cs by (simp_all add: i)
  have ev: "evolves (db st) ?db" by (rule evolves_trans [OF a(1) ev0])
  have x: "left_at (db st) (ID x) = left x" using some(1) by (simp add: left_at_def)
  have "left_at ?db (ID x) \<le> left_after ?j" using a(2) [of "ID x"] by simp
  also have "\<dots> < left_at (db st) (ID x)" unfolding x by (rule eligible_left [OF some(2)])
  finally have less: "left_at ?db (ID x) < left_at (db st) (ID x)" .
  have le: "left_at ?db k \<le> left_at (db st) k" for k
    using a(2) [of k] less by (cases "k = ID x") (simp_all add: left_at_setJob)
  have "ID x \<in> set (keys (jobs (db st)))" using some(1) by (rule lookup_in_keys)
  then have "work_left ?db < work_left (db st)"
    unfolding work_left_def evolves_keys [OF ev] using le less
    by (intro sum_strict_mono_ex1) blast+
  with ev evolves_repo_wf wf show ?thesis by (auto simp: claims_def c)
qed

section \<open>Termination\<close>

text \<open>The passes of the workers one after the other; \<open>count_claims\<close> counts those that claimed.\<close>

fun passes :: "repo Engine \<Rightarrow> (string \<times> readings) list \<Rightarrow> repo run \<Rightarrow> repo run" where
  "passes e [] st = st"
| "passes e ((w, rd) # ws) st = passes e ws (tryClaimAndExecute e rd w st)"

fun count_claims :: "repo Engine \<Rightarrow> (string \<times> readings) list \<Rightarrow> repo run \<Rightarrow> nat" where
  "count_claims e [] st = 0"
| "count_claims e ((w, rd) # ws) st =
    of_bool (claims e rd w st) + count_claims e ws (tryClaimAndExecute e rd w st)"

text \<open>C10: 
  The workers run out of work. On the in-memory repository, whatever the handlers answer (success, error, panic,
  cancellation, missing handler), however many workers there are and whatever the clock says, the
  passes over a store that nobody else changes (no new jobs, no recovery of leases) claim at most as
  many times as there are attempts left in its waiting jobs, where a waiting job counts for at least
  one; what they leave is less by at least one for every claim.
\<close>

theorem workers_drain:
  assumes "repo_eng e = memory_repository us" and "quiet_handlers e" and "repo_wf (db st)"
  shows "work_left (db (passes e ws st)) + count_claims e ws st \<le> work_left (db st)"
  using assms(3)
proof (induction ws arbitrary: st)
  case (Cons p ws)
  obtain w rd where p: "p = (w, rd)" by (cases p)
  let ?st = "tryClaimAndExecute e rd w st"
  have "repo_wf (db ?st)" "work_left (db ?st) + of_bool (claims e rd w st) \<le> work_left (db st)"
    using pass_left [OF assms(1,2) Cons.prems, of rd w] by auto
  with Cons.IH [of ?st] show ?case by (simp add: p)
qed simp

lemma quiet_demo: "quiet_handlers (demo_engine res)"
  by (auto simp: quiet_handlers_def demo_engine_def Register_eng_def New_engine_def MustGet_Register Let_def
      DefaultPolicy_def demo_handler_def MustGet_def Get_handler_def Register_def NewRegistry_def
      split: if_splits)

lemma workers_drain_witness:
  "count_claims (demo_engine (Returned (Some (Message ''boom''))))
     (replicate 30 (''w'', demo_readings)) demo_run \<le> 10"
proof -
  have "work_left two_jobs = 10" by code_simp
  with workers_drain [OF demo_engine_sel(1) quiet_demo, of demo_run
      "Returned (Some (Message ''boom''))" "replicate 30 (''w'', demo_readings)"]
  show ?thesis using repo_ok_wf [OF two_jobs_ok] by (simp add: demo_run_def)
qed

section \<open>A job without a handler\<close>

text \<open>C11: 
  A missing handler blocks the chain. When a worker claims a job of a type nobody
  registered, it fails the job for good but, unlike a failing handler, promotes nothing and tells no
  listener: the blocked successor stays blocked also in the modes that continue on failure.
\<close>

theorem missing_handler_blocks_chain:
  assumes e: "repo_eng e = memory_repository us" and wf: "repo_wf (db st)"
    and c: "Claim_mem (clock rd 0) w (LeaseDuration (leaseMgr e)) (db st) = (Inr j, s)"
    and m: "MustGet (handlers e) (Type j) = Inl err"
    and k: "k \<noteq> ID j" "jobAt (db st) k = Some x" "Status x = StateBlocked"
  shows "jobAt (db (tryClaimAndExecute e rd w st)) k = Some x \<and>
    (\<exists>y. jobAt (db (tryClaimAndExecute e rd w st)) (ID j) = Some y \<and> IsTerminal (Status y)) \<and>
    events (tryClaimAndExecute e rd w st) = events st @
      [SetActiveLeases (activeLeases st + 1), IncClaimed,
       ObserveQueueDelay (Type j) (clock rd 1 - CreatedAt j), IncFailed (Type j),
       SetActiveLeases (activeLeases st)]"
proof (cases rule: Claim_cases [OF wf, of "clock rd 0" w "LeaseDuration (leaseMgr e)",
    case_names none some])
  case none
  with c show ?thesis by simp
next
  case (some y)
  have j: "jobAt s (ID j) = Some j" "holds_lease j w (LeaseGeneration j)"
    using mem_claim_some [OF wf c] by auto
  have "jobAt s k = Some x" using some c k by (auto simp: claimed_def)
  moreover have "tryClaimAndExecute e rd w st =
      emit [SetActiveLeases (activeLeases st)] (emit [IncFailed (Type j)]
        (emit [SetActiveLeases (activeLeases st + 1), IncClaimed,
           ObserveQueueDelay (Type j) (clock rd 1 - CreatedAt j)]
           (st\<lparr>db := setJob (ID j) (failed (clock rd 5) (''handler not found: '' @ Type j) True j) s,
              activeLeases := activeLeases st\<rparr>)))"
    using c m by (simp add: tryClaimAndExecute_def Let_def e emit_def fail_held_mem [OF j])
  ultimately show ?thesis using k(1)
    by (simp add: emit_def) (simp add: failed_def IsTerminal_iff)
qed

lemma missing_handler_blocks_chain_witness:
  "\<exists>x. Status x = StateBlocked \<and> jobAt (db (tryClaimAndExecute
     (New_engine (memory_repository format_nat) ''w'' []) demo_readings ''w'' demo_run)) 8 = Some x"
proof -
  let ?e = "New_engine (memory_repository format_nat) ''w'' [] :: repo Engine"
  let ?c = "Claim_mem 10 ''w'' (60 * Second) two_jobs"
  have l: "LeaseDuration (leaseMgr ?e) = 60 * Second"
    by (simp add: New_engine_def Let_def DefaultPolicy_def New_lease_LeaseDuration Second_def)
  have c: "?c = (Inr (projr (fst ?c)), snd ?c)" "ID (projr (fst ?c)) = 7"
    "jobAt two_jobs 8 = Some (job_or_zero two_jobs 8)"
    "Status (job_or_zero two_jobs 8) = StateBlocked" by code_simp+
  have m: "MustGet (handlers ?e) t = Inl ErrHandlerNotFound" for t
    by (simp add: New_engine_def Let_def DefaultPolicy_def MustGet_def Get_handler_def NewRegistry_def)
  have r: "repo_eng ?e = memory_repository format_nat"
    by (simp add: New_engine_def Let_def DefaultPolicy_def)
  show ?thesis
    using missing_handler_blocks_chain [OF r _ _ m, of demo_run demo_readings "''w''"
        "projr (fst ?c)" "snd ?c" 8 "job_or_zero two_jobs 8"] c repo_ok_wf [OF two_jobs_ok]
    by (auto simp: demo_run_def demo_readings_def l)
qed

end
